theory Spec2Isabelle
  imports Main "HOL-Library.Word"
begin

unbundle bit_operations_syntax

section \<open>Vector registers and their element views\<close>

text \<open>
  A vector register holds 128 bits.  The operations of \<^verbatim>\<open>vec_f128_ppc.h\<close> that are
  modelled here are the soft-float (POWER8) branches of the conditional compilation
  ladders.  A \<^verbatim>\<open>__binary128\<close>, a \<^verbatim>\<open>vui128_t\<close>, a \<^verbatim>\<open>vb128_t\<close> and every operand of a
  lane-agnostic logical operation (\<^verbatim>\<open>vec_and\<close>, \<^verbatim>\<open>vec_or\<close>, \<^verbatim>\<open>vec_xor\<close>, \<^verbatim>\<open>vec_andc\<close>,
  \<^verbatim>\<open>vec_nor\<close>, \<^verbatim>\<open>vec_sel\<close>) is a \<open>128 word\<close>; bit 127 is the sign bit of a
  \<^verbatim>\<open>__binary128\<close>.  The union transfers \<^verbatim>\<open>vec_xfer_*\<close> are the identity on the bits.

  A \<^verbatim>\<open>vui64_t\<close> is the pair of its doublewords, element \<^verbatim>\<open>VEC_DW_H\<close> first.  Vectors of
  words, halfwords and bytes are lists of their elements, the most significant element
  (\<^verbatim>\<open>VEC_WE_0\<close>, \<^verbatim>\<open>VEC_HW_H\<close>, \<^verbatim>\<open>VEC_BYTE_H\<close>) first.  The C casts between vector types are
  the functions below.
\<close>

type_synonym vui128_t = "128 word"
type_synonym vui64_t = "64 word \<times> 64 word"
type_synonym vui32_t = "32 word list"
type_synonym vui16_t = "16 word list"
type_synonym vui8_t = "8 word list"

definition vui64 :: "vui128_t \<Rightarrow> vui64_t" where
  "vui64 v = (ucast (drop_bit 64 v), ucast v)"

definition vui32 :: "vui128_t \<Rightarrow> vui32_t" where
  "vui32 v = [ucast (drop_bit 96 v), ucast (drop_bit 64 v), ucast (drop_bit 32 v), ucast v]"

definition vui16 :: "vui128_t \<Rightarrow> vui16_t" where
  "vui16 v = [ucast (drop_bit 112 v), ucast (drop_bit 96 v), ucast (drop_bit 80 v),
              ucast (drop_bit 64 v), ucast (drop_bit 48 v), ucast (drop_bit 32 v),
              ucast (drop_bit 16 v), ucast v]"

definition vui8 :: "vui128_t \<Rightarrow> vui8_t" where
  "vui8 v = [ucast (drop_bit 120 v), ucast (drop_bit 112 v), ucast (drop_bit 104 v),
             ucast (drop_bit 96 v), ucast (drop_bit 88 v), ucast (drop_bit 80 v),
             ucast (drop_bit 72 v), ucast (drop_bit 64 v), ucast (drop_bit 56 v),
             ucast (drop_bit 48 v), ucast (drop_bit 40 v), ucast (drop_bit 32 v),
             ucast (drop_bit 24 v), ucast (drop_bit 16 v), ucast (drop_bit 8 v), ucast v]"

definition vui128_of_dw :: "vui64_t \<Rightarrow> vui128_t" where
  "vui128_of_dw x = push_bit 64 (ucast (fst x)) OR ucast (snd x)"

definition vui128_of :: "'a::len word list \<Rightarrow> vui128_t" where
  "vui128_of xs = foldl (\<lambda>acc x. push_bit LENGTH('a) acc OR ucast x) 0 xs"

definition CONST_VINT128_W :: "32 word \<Rightarrow> 32 word \<Rightarrow> 32 word \<Rightarrow> 32 word \<Rightarrow> vui128_t" where
  "CONST_VINT128_W w0 w1 w2 w3 = vui128_of [w0, w1, w2, w3]"

definition q_zero :: vui128_t where
  "q_zero = CONST_VINT128_W 0 0 0 0"

definition q_ones :: vui128_t where
  "q_ones = CONST_VINT128_W (- 1) (- 1) (- 1) (- 1)"

definition vb :: "bool \<Rightarrow> 'a::len word" where
  "vb c = (if c then - 1 else 0)"

section \<open>The consumed vector primitives\<close>

text \<open>
  Modelled from the spec: the large-integer primitive library (\<^verbatim>\<open>vec_int128_ppc.h\<close>,
  \<^verbatim>\<open>vec_int64_ppc.h\<close>) and the compiler's vector built-ins are not part of the sources at
  hand.  Section 6 of the specification lists the surface that is consumed: add and
  subtract with carry, double-width multiply, logical shifts by a variable count, both
  single-lane and double-lane, count-leading-zeros, ordered and equality compares,
  and select by a boolean mask.  Each primitive below has the meaning of the machine
  instruction it names.
\<close>

definition vec_and :: "vui128_t \<Rightarrow> vui128_t \<Rightarrow> vui128_t" where
  "vec_and a b = a AND b"

definition vec_or :: "vui128_t \<Rightarrow> vui128_t \<Rightarrow> vui128_t" where
  "vec_or a b = a OR b"

definition vec_xor :: "vui128_t \<Rightarrow> vui128_t \<Rightarrow> vui128_t" where
  "vec_xor a b = a XOR b"

definition vec_andc :: "vui128_t \<Rightarrow> vui128_t \<Rightarrow> vui128_t" where
  "vec_andc a b = a AND NOT b"

definition vec_nor :: "vui128_t \<Rightarrow> vui128_t \<Rightarrow> vui128_t" where
  "vec_nor a b = NOT (a OR b)"

text \<open>\<^verbatim>\<open>vec_sel (a, b, c)\<close>, \<^verbatim>\<open>vec_seluq\<close>: each bit from \<open>b\<close> where the bit of \<open>c\<close> is 1,
  from \<open>a\<close> otherwise.\<close>

definition vec_sel :: "vui128_t \<Rightarrow> vui128_t \<Rightarrow> vui128_t \<Rightarrow> vui128_t" where
  "vec_sel a b c = (a AND NOT c) OR (b AND c)"

definition vec_cmpequq :: "vui128_t \<Rightarrow> vui128_t \<Rightarrow> vui128_t" where
  "vec_cmpequq a b = vb (a = b)"

definition vec_cmpgtuq :: "vui128_t \<Rightarrow> vui128_t \<Rightarrow> vui128_t" where
  "vec_cmpgtuq a b = vb (b < a)"

definition vec_cmpltuq :: "vui128_t \<Rightarrow> vui128_t \<Rightarrow> vui128_t" where
  "vec_cmpltuq a b = vb (a < b)"

definition vec_cmpuq_all_eq :: "vui128_t \<Rightarrow> vui128_t \<Rightarrow> bool" where
  "vec_cmpuq_all_eq a b = (a = b)"

definition vec_cmpuq_all_gt :: "vui128_t \<Rightarrow> vui128_t \<Rightarrow> bool" where
  "vec_cmpuq_all_gt a b = (b < a)"

text \<open>Quadword shifts.  \<^verbatim>\<open>vec_slqi\<close> and \<^verbatim>\<open>vec_srqi\<close> shift by an immediate count,
  \<^verbatim>\<open>vec_slq\<close> and \<^verbatim>\<open>vec_srq\<close> by the low-order seven bits of the second operand.\<close>

definition vec_slqi :: "vui128_t \<Rightarrow> nat \<Rightarrow> vui128_t" where
  "vec_slqi v shb = push_bit shb v"

definition vec_srqi :: "vui128_t \<Rightarrow> nat \<Rightarrow> vui128_t" where
  "vec_srqi v shb = drop_bit shb v"

definition vec_slq :: "vui128_t \<Rightarrow> vui128_t \<Rightarrow> vui128_t" where
  "vec_slq v vrb = push_bit (unat (take_bit 7 vrb)) v"

definition vec_srq :: "vui128_t \<Rightarrow> vui128_t \<Rightarrow> vui128_t" where
  "vec_srq v vrb = drop_bit (unat (take_bit 7 vrb)) v"

text \<open>Double quadword shifts: the left-most 128 bits of the 256-bit \<open>vrw || vrx\<close> shifted
  left by 0 to 127 bits.\<close>

definition vec_sldqi :: "vui128_t \<Rightarrow> vui128_t \<Rightarrow> nat \<Rightarrow> vui128_t" where
  "vec_sldqi vrw vrx shb = push_bit shb vrw OR drop_bit (128 - shb) vrx"

definition vec_sldq :: "vui128_t \<Rightarrow> vui128_t \<Rightarrow> vui128_t \<Rightarrow> vui128_t" where
  "vec_sldq vrw vrx vrb = vec_sldqi vrw vrx (unat (take_bit 7 vrb))"

text \<open>\<^verbatim>\<open>vec_sld (a, b, n)\<close> shifts \<open>a || b\<close> left by \<open>n\<close> bytes, \<open>n\<close> from 0 to 15.\<close>

definition vec_sld :: "vui128_t \<Rightarrow> vui128_t \<Rightarrow> nat \<Rightarrow> vui128_t" where
  "vec_sld a b n = push_bit (8 * n) a OR drop_bit (128 - 8 * n) b"

text \<open>Count of leading zero bits of the quadword, 128 for zero.\<close>

primrec lead_zeros :: "nat \<Rightarrow> vui128_t \<Rightarrow> nat" where
  "lead_zeros 0 v = 0"
| "lead_zeros (Suc n) v = (if bit v n then 0 else Suc (lead_zeros n v))"

definition vec_clzq :: "vui128_t \<Rightarrow> vui128_t" where
  "vec_clzq v = of_nat (lead_zeros 128 v)"

text \<open>Quadword add modulo, carry out of the add, subtract modulo, and the 256-bit
  product as the pair of its high and low quadwords (\<^verbatim>\<open>vec_muludq\<close> stores the high
  quadword through its pointer argument and returns the low one).\<close>

definition vec_adduqm :: "vui128_t \<Rightarrow> vui128_t \<Rightarrow> vui128_t" where
  "vec_adduqm a b = a + b"

definition vec_subuqm :: "vui128_t \<Rightarrow> vui128_t \<Rightarrow> vui128_t" where
  "vec_subuqm a b = a - b"

definition vec_addcuq :: "vui128_t \<Rightarrow> vui128_t \<Rightarrow> vui128_t" where
  "vec_addcuq a b = (if 2 ^ 128 \<le> unat a + unat b then 1 else 0)"

definition vec_muludq :: "vui128_t \<Rightarrow> vui128_t \<Rightarrow> vui128_t \<times> vui128_t" where
  "vec_muludq a b = (of_nat (unat a * unat b div 2 ^ 128), a * b)"

definition vec_setb_sq :: "vui128_t \<Rightarrow> vui128_t" where
  "vec_setb_sq v = vb (bit v 127)"

definition vec_setb_cyq :: "vui128_t \<Rightarrow> vui128_t" where
  "vec_setb_cyq vcy = vb (bit vcy 0)"

definition vec_splat_u128 :: "nat \<Rightarrow> vui128_t" where
  "vec_splat_u128 n = of_nat n"

subsection \<open>Doubleword elements\<close>

definition VEC_DW_H :: nat where "VEC_DW_H = 0"
definition VEC_DW_L :: nat where "VEC_DW_L = 1"

definition CONST_VINT64_DW :: "64 word \<Rightarrow> 64 word \<Rightarrow> vui64_t" where
  "CONST_VINT64_DW h l = (h, l)"

definition vec_splat_u64 :: "64 word \<Rightarrow> vui64_t" where
  "vec_splat_u64 n = (n, n)"

definition vec_splatd :: "vui64_t \<Rightarrow> nat \<Rightarrow> vui64_t" where
  "vec_splatd v ctl = (if ctl = VEC_DW_H then (fst v, fst v) else (snd v, snd v))"

definition vec_swapd :: "vui64_t \<Rightarrow> vui64_t" where
  "vec_swapd v = (snd v, fst v)"

definition vec_mrgahd :: "vui128_t \<Rightarrow> vui128_t \<Rightarrow> vui64_t" where
  "vec_mrgahd a b = (fst (vui64 a), fst (vui64 b))"

definition vec_mrgald :: "vui128_t \<Rightarrow> vui128_t \<Rightarrow> vui64_t" where
  "vec_mrgald a b = (snd (vui64 a), snd (vui64 b))"

definition vec_addudm :: "vui64_t \<Rightarrow> vui64_t \<Rightarrow> vui64_t" where
  "vec_addudm a b = (fst a + fst b, snd a + snd b)"

definition vec_subudm :: "vui64_t \<Rightarrow> vui64_t \<Rightarrow> vui64_t" where
  "vec_subudm a b = (fst a - fst b, snd a - snd b)"

definition vec_minud :: "vui64_t \<Rightarrow> vui64_t \<Rightarrow> vui64_t" where
  "vec_minud a b = (min (fst a) (fst b), min (snd a) (snd b))"

definition vec_selud :: "vui64_t \<Rightarrow> vui64_t \<Rightarrow> vui64_t \<Rightarrow> vui64_t" where
  "vec_selud a b c = ((fst a AND NOT (fst c)) OR (fst b AND fst c),
                      (snd a AND NOT (snd c)) OR (snd b AND snd c))"

definition vec_cmpequd :: "vui64_t \<Rightarrow> vui64_t \<Rightarrow> vui64_t" where
  "vec_cmpequd a b = (vb (fst a = fst b), vb (snd a = snd b))"

definition vec_cmpgtud :: "vui64_t \<Rightarrow> vui64_t \<Rightarrow> vui64_t" where
  "vec_cmpgtud a b = (vb (fst b < fst a), vb (snd b < snd a))"

definition vec_cmpltud :: "vui64_t \<Rightarrow> vui64_t \<Rightarrow> vui64_t" where
  "vec_cmpltud a b = (vb (fst a < fst b), vb (snd a < snd b))"

definition vec_cmpgtsd :: "vui64_t \<Rightarrow> vui64_t \<Rightarrow> vui64_t" where
  "vec_cmpgtsd a b = (vb (sint (fst b) < sint (fst a)), vb (sint (snd b) < sint (snd a)))"

definition vec_cmpud_all_eq :: "vui64_t \<Rightarrow> vui64_t \<Rightarrow> bool" where
  "vec_cmpud_all_eq a b = (fst a = fst b \<and> snd a = snd b)"

definition vec_cmpud_all_lt :: "vui64_t \<Rightarrow> vui64_t \<Rightarrow> bool" where
  "vec_cmpud_all_lt a b = (fst a < fst b \<and> snd a < snd b)"

definition vec_cmpud_all_le :: "vui64_t \<Rightarrow> vui64_t \<Rightarrow> bool" where
  "vec_cmpud_all_le a b = (fst a \<le> fst b \<and> snd a \<le> snd b)"

definition vec_cmpud_all_gt :: "vui64_t \<Rightarrow> vui64_t \<Rightarrow> bool" where
  "vec_cmpud_all_gt a b = (fst b < fst a \<and> snd b < snd a)"

definition vec_cmpud_all_ge :: "vui64_t \<Rightarrow> vui64_t \<Rightarrow> bool" where
  "vec_cmpud_all_ge a b = (fst b \<le> fst a \<and> snd b \<le> snd a)"

definition vec_cmpud_any_eq :: "vui64_t \<Rightarrow> vui64_t \<Rightarrow> bool" where
  "vec_cmpud_any_eq a b = (fst a = fst b \<or> snd a = snd b)"

definition vec_cmpud_any_ne :: "vui64_t \<Rightarrow> vui64_t \<Rightarrow> bool" where
  "vec_cmpud_any_ne a b = (fst a \<noteq> fst b \<or> snd a \<noteq> snd b)"

definition vec_cmpsd_all_lt :: "vui64_t \<Rightarrow> vui64_t \<Rightarrow> bool" where
  "vec_cmpsd_all_lt a b = (sint (fst a) < sint (fst b) \<and> sint (snd a) < sint (snd b))"

definition vec_cmpsd_all_gt :: "vui64_t \<Rightarrow> vui64_t \<Rightarrow> bool" where
  "vec_cmpsd_all_gt a b = (sint (fst b) < sint (fst a) \<and> sint (snd b) < sint (snd a))"

text \<open>\<^verbatim>\<open>vec_vsrd\<close>: each doubleword shifted right by the low-order six bits of the
  corresponding doubleword of the second operand.\<close>

definition vec_vsrd :: "vui64_t \<Rightarrow> vui64_t \<Rightarrow> vui64_t" where
  "vec_vsrd a b = (drop_bit (unat (take_bit 6 (fst b))) (fst a),
                   drop_bit (unat (take_bit 6 (snd b))) (snd a))"

subsection \<open>Word, halfword and byte elements\<close>

definition VEC_WE_1 :: nat where "VEC_WE_1 = 1"
definition VEC_WE_3 :: nat where "VEC_WE_3 = 3"
definition VEC_HW_H :: nat where "VEC_HW_H = 0"
definition VEC_BYTE_H :: nat where "VEC_BYTE_H = 0"

definition vec_splat :: "'a list \<Rightarrow> nat \<Rightarrow> 'a list" where
  "vec_splat xs i = map (\<lambda>_. xs ! i) xs"

definition vec_splat_u8 :: "8 word \<Rightarrow> vui8_t" where
  "vec_splat_u8 n = [n, n, n, n, n, n, n, n, n, n, n, n, n, n, n, n]"

definition vec_splat_u16 :: "16 word \<Rightarrow> vui16_t" where
  "vec_splat_u16 n = [n, n, n, n, n, n, n, n]"

definition vec_splat_u32 :: "32 word \<Rightarrow> vui32_t" where
  "vec_splat_u32 n = [n, n, n, n]"

definition vec_cmpgt :: "'a::len word list \<Rightarrow> 'a word list \<Rightarrow> 'a word list" where
  "vec_cmpgt xs ys = map2 (\<lambda>x y. vb (y < x)) xs ys"

definition vec_cmpeq :: "'a::len word list \<Rightarrow> 'a word list \<Rightarrow> 'a word list" where
  "vec_cmpeq xs ys = map2 (\<lambda>x y. vb (x = y)) xs ys"

definition vec_all_eq :: "'a::len word list \<Rightarrow> 'a word list \<Rightarrow> bool" where
  "vec_all_eq xs ys = list_all2 (\<lambda>x y. x = y) xs ys"

definition vec_all_gt :: "'a::len word list \<Rightarrow> 'a word list \<Rightarrow> bool" where
  "vec_all_gt xs ys = list_all2 (\<lambda>x y. y < x) xs ys"

definition vec_all_le :: "'a::len word list \<Rightarrow> 'a word list \<Rightarrow> bool" where
  "vec_all_le xs ys = list_all2 (\<lambda>x y. x \<le> y) xs ys"

definition vec_srhi :: "vui16_t \<Rightarrow> nat \<Rightarrow> vui16_t" where
  "vec_srhi xs shb = map (drop_bit shb) xs"

text \<open>\<^verbatim>\<open>vec_sra\<close> on bytes: each byte shifted right algebraically by the low-order three bits
  of the corresponding byte of the second operand.\<close>

definition vec_sra :: "vui8_t \<Rightarrow> vui8_t \<Rightarrow> vui8_t" where
  "vec_sra xs ys = map2 (\<lambda>x y. signed_drop_bit (unat (take_bit 3 y)) x) xs ys"

section \<open>Constants of the binary128 format\<close>

text \<open>
  The mask generators of the header build their constant from immediate operands; each
  of them documents the constant it returns, and that constant is what is modelled.
\<close>

definition vec_mask64_f128exp :: vui64_t where
  "vec_mask64_f128exp = vui64 (CONST_VINT128_W 0 0x7fff 0 0x7fff)"

definition vec_mask128_f128exp :: vui128_t where
  "vec_mask128_f128exp = CONST_VINT128_W 0x7fff0000 0 0 0"

definition vec_mask128_f128mag :: vui128_t where
  "vec_mask128_f128mag = CONST_VINT128_W 0x7fffffff (- 1) (- 1) (- 1)"

definition vec_mask128_f128sig :: vui128_t where
  "vec_mask128_f128sig = CONST_VINT128_W 0x0000ffff (- 1) (- 1) (- 1)"

definition vec_mask128_f128Lbit :: vui128_t where
  "vec_mask128_f128Lbit = CONST_VINT128_W 0x00010000 0 0 0"

definition vec_mask128_f128Qbit :: vui128_t where
  "vec_mask128_f128Qbit = CONST_VINT128_W 0x00008000 0 0 0"

definition vec_const64_f128_128 :: vui64_t where
  "vec_const64_f128_128 = CONST_VINT64_DW 128 128"

definition vec_const_nanf128 :: vui128_t where
  "vec_const_nanf128 = CONST_VINT128_W 0x7fff8000 0 0 0"

section \<open>Bit-field access\<close>

text \<open>\<^verbatim>\<open>vec_xsxexpqp\<close>: the 15-bit exponent, right justified in doubleword 0.\<close>

definition vec_xsxexpqp :: "vui128_t \<Rightarrow> vui64_t" where
  "vec_xsxexpqp f128 =
     (let expmask = vec_mask128_f128exp;
          tmp = vec_and f128 expmask
      in vui64 (vec_sld tmp tmp 10))"

text \<open>\<^verbatim>\<open>vec_xsxsigqp\<close>: the significand, with the hidden bit restored for a normal value.\<close>

definition vec_xsxsigqp :: "vui128_t \<Rightarrow> vui128_t" where
  "vec_xsxsigqp f128 =
     (let zero = CONST_VINT128_W 0 0 0 0;
          sigmask = vec_mask128_f128sig;
          expmask = vec_mask128_f128exp;
          hidden = vec_mask128_f128Lbit;
          tmp = vec_and f128 expmask;
          normal = vec_nor (vui128_of (vec_cmpeq (vui32 tmp) (vui32 expmask)))
                           (vui128_of (vec_cmpeq (vui32 tmp) (vui32 zero)));
          t128 = vec_and f128 sigmask
      in vec_sel t128 normal hidden)"

definition vec_mrgh_bin128_2_vui64t :: "vui128_t \<Rightarrow> vui128_t \<Rightarrow> vui64_t" where
  "vec_mrgh_bin128_2_vui64t vfa vfb = vec_mrgahd vfa vfb"

text \<open>\<^verbatim>\<open>vec_xxxexpqpp\<close>: the exponents of a pair of operands, in doublewords 0 and 1.\<close>

definition vec_xxxexpqpp :: "vui128_t \<Rightarrow> vui128_t \<Rightarrow> vui64_t" where
  "vec_xxxexpqpp vfa vfb =
     (let exp_mask = vui128_of_dw vec_mask64_f128exp;
          tmp = vui128_of_dw (vec_mrgh_bin128_2_vui64t vfa vfb);
          rtmp = vec_sld tmp tmp 10
      in vui64 (vec_and rtmp exp_mask))"

text \<open>\<^verbatim>\<open>vec_xsiexpqp\<close>: the exponent bits of \<open>sig\<close> replaced from doubleword 0 of \<open>exp\<close>.\<close>

definition vec_xsiexpqp :: "vui128_t \<Rightarrow> vui64_t \<Rightarrow> vui128_t" where
  "vec_xsiexpqp sig exp =
     (let expmask = vec_mask128_f128exp;
          tmp = vec_sld (vui128_of_dw exp) (vui128_of_dw exp) 6
      in vec_sel sig tmp expmask)"

definition vec_setb_qp :: "vui128_t \<Rightarrow> vui128_t" where
  "vec_setb_qp f128 =
     (let shift = vec_splat_u8 7;
          t128 = vui8 f128;
          splat = vec_splat t128 VEC_BYTE_H
      in vui128_of (vec_sra splat shift))"

definition vec_negf128 :: "vui128_t \<Rightarrow> vui128_t" where
  "vec_negf128 f128 =
     (let signmask = CONST_VINT128_W 0x80000000 0 0 0
      in vec_xor f128 signmask)"

definition vec_all_isnanf128 :: "vui128_t \<Rightarrow> bool" where
  "vec_all_isnanf128 f128 =
     (let magmask = vec_mask128_f128mag;
          expmask = vec_mask128_f128exp;
          tmp = vec_and f128 magmask
      in vec_cmpuq_all_gt tmp expmask)"

section \<open>Classification and the unordered equality compare\<close>

text \<open>\<^verbatim>\<open>vec_isnanf128\<close>: the magnitude is greater than the exponent mask.\<close>

definition vec_isnanf128 :: "vui128_t \<Rightarrow> vui128_t" where
  "vec_isnanf128 f128 =
     (let signmask = CONST_VINT128_W 0x80000000 0 0 0;
          expmask = CONST_VINT128_W 0x7fff0000 0 0 0;
          tmp = vec_andc f128 signmask
      in vec_cmpgtuq tmp expmask)"

definition vec_isunorderedf128 :: "vui128_t \<Rightarrow> vui128_t \<Rightarrow> vui128_t" where
  "vec_isunorderedf128 vfa vfb = vec_or (vec_isnanf128 vfa) (vec_isnanf128 vfb)"

definition vec_cmpequqp :: "vui128_t \<Rightarrow> vui128_t \<Rightarrow> vui128_t" where
  "vec_cmpequqp vfa vfb =
     (let signmask = CONST_VINT128_W 0x80000000 0 0 0;
          unordered = vec_isunorderedf128 vfa vfb;
          vra = vfa;
          vrb = vfb;
          or_ab = vec_or vra vrb;
          eq_s = vec_cmpequq or_ab signmask;
          cmps = vec_cmpequq vra vrb;
          result = vec_or cmps eq_s;
          result = vec_andc result unordered
      in result)"

text \<open>The data classes of the binary128 format, read off the bit fields: the biased
  exponent is bits 126 to 112, the fraction bits 111 to 0.\<close>

definition qp_exp :: "vui128_t \<Rightarrow> nat" where
  "qp_exp q = unat (take_bit 15 (drop_bit 112 q))"

definition qp_frac :: "vui128_t \<Rightarrow> vui128_t" where
  "qp_frac q = take_bit 112 q"

definition qp_sign :: "vui128_t \<Rightarrow> bool" where
  "qp_sign q = bit q 127"

definition is_nan :: "vui128_t \<Rightarrow> bool" where
  "is_nan q = (qp_exp q = 32767 \<and> qp_frac q \<noteq> 0)"

definition is_inf :: "vui128_t \<Rightarrow> bool" where
  "is_inf q = (qp_exp q = 32767 \<and> qp_frac q = 0)"

definition is_finite :: "vui128_t \<Rightarrow> bool" where
  "is_finite q = (qp_exp q < 32767)"

definition is_zero :: "vui128_t \<Rightarrow> bool" where
  "is_zero q = (qp_exp q = 0 \<and> qp_frac q = 0)"

section \<open>Add and subtract, round to odd\<close>

text \<open>
  The final rounding step of \<^verbatim>\<open>vec_xsaddqpo\<close> and \<^verbatim>\<open>vec_xssubqpo\<close>: the intermediate
  significand \<open>s_sig\<close> carries the guard, round and sticky bits in its three low-order
  bits.
\<close>

definition round_odd_grx :: "vui128_t \<Rightarrow> vui128_t" where
  "round_odd_grx s_sig =
     (let grx_mask = vec_splat_u128 7;
          p_tmp = vec_and s_sig grx_mask;
          p_odd = vec_addcuq p_tmp q_ones;
          q_sig = vec_srqi s_sig 3;
          q_sig = vec_or q_sig p_odd
      in q_sig)"

text \<open>
  Extraction of the two significands, with the hidden bit for normal operands, the
  exponents corrected to \<open>E_min\<close> for zero and denormal operands, the left shift by three
  bits that makes room for the GRX bits, and the swap that leaves the operand of
  greater magnitude in \<open>a\<close>.  The result is \<open>(a_sig, b_sig, a_exp, b_exp, q_sign,
  diff_sign)\<close>.
\<close>

definition addqpo_operands ::
  "vui128_t \<Rightarrow> vui128_t \<Rightarrow> vui128_t \<Rightarrow> vui128_t \<Rightarrow> vui64_t \<Rightarrow>
     vui128_t \<times> vui128_t \<times> vui64_t \<times> vui64_t \<times> vui128_t \<times> vui128_t" where
  "addqpo_operands a_mag b_mag a_sign b_sign x_exp =
     (let exp_min = vec_splat_u64 1;
          sigmask = vec_mask128_f128sig;
          hidden = vec_mask128_f128Lbit;
          a_s32 = vec_and a_mag sigmask;
          b_s32 = vec_and b_mag sigmask;
          x_norm = vec_cmpgt (vui32 (vui128_of_dw x_exp)) (vui32 q_zero);
          a_norm = vec_splat x_norm VEC_WE_1;
          b_norm = vec_splat x_norm VEC_WE_3;
          a_sig = vec_sel a_s32 (vui128_of a_norm) hidden;
          b_sig = vec_sel b_s32 (vui128_of b_norm) hidden;
          x_exp = vec_selud exp_min x_exp (vui64 (vui128_of x_norm));
          q_sign = vec_xor a_sign b_sign;
          a_sig = vec_slqi a_sig 3;
          b_sig = vec_slqi b_sig 3;
          diff_sign = vec_setb_sq q_sign;
          a_lt_b = vec_cmpltuq a_mag b_mag;
          a_tmp = a_sig;
          b_tmp = b_sig;
          x_tmp = vec_swapd x_exp;
          q_sign = vec_sel a_sign b_sign a_lt_b;
          x_exp = vec_selud x_exp x_tmp (vui64 a_lt_b);
          a_exp = vec_splatd x_exp VEC_DW_H;
          b_exp = vec_splatd x_exp VEC_DW_L;
          a_sig = vec_sel a_tmp b_tmp a_lt_b;
          b_sig = vec_sel b_tmp a_tmp a_lt_b
      in (a_sig, b_sig, a_exp, b_exp, q_sign, diff_sign))"

text \<open>Alignment of the smaller significand: shifted right by the exponent difference,
  the bits shifted out ORed into the sticky bit.\<close>

definition addqpo_align :: "vui128_t \<Rightarrow> vui64_t \<Rightarrow> vui64_t \<Rightarrow> vui128_t" where
  "addqpo_align b_sig a_exp b_exp =
     (if vec_cmpud_all_lt b_exp a_exp then
        (let exp_128 = vec_const64_f128_128;
             d_exp = vec_subudm a_exp b_exp;
             exp_mask = vui128_of_dw (vec_cmpltud d_exp exp_128);
             l_exp = vec_subudm exp_128 d_exp;
             t_sig = vec_srq b_sig (vui128_of_dw d_exp);
             x_bits = vec_slq b_sig (vui128_of_dw l_exp);
             t_sig = vec_sel q_zero t_sig exp_mask;
             x_bits = vec_sel b_sig x_bits exp_mask;
             p_odd = vec_addcuq x_bits q_ones
         in vec_or t_sig p_odd)
      else b_sig)"

text \<open>The sum or difference of the aligned significands.\<close>

definition addqpo_sum :: "vui128_t \<Rightarrow> vui128_t \<Rightarrow> vui128_t \<Rightarrow> vui128_t" where
  "addqpo_sum a_sig b_sig diff_sign =
     (let add_sig = vec_adduqm a_sig b_sig;
          sub_sig = vec_subuqm a_sig b_sig
      in vec_sel add_sig sub_sig diff_sign)"

text \<open>Carry out of the leading bit, or a significand below the normal range: the
  normalized \<open>(s_sig, q_exp)\<close>.\<close>

definition addqpo_normalize :: "vui128_t \<Rightarrow> vui64_t \<Rightarrow> vui128_t \<times> vui64_t" where
  "addqpo_normalize s_sig q_exp =
     (let xbitmask = vec_splat_u128 1;
          exp_min = vec_splat_u64 1;
          t_sig_L = vec_splat_u8 7;
          t_sig_C = vec_splat_u8 15;
          exp_one = exp_min;
          exp_dnrm = vui64 q_zero;
          t_sig = vec_splat (vui8 s_sig) 1
      in if vec_all_gt t_sig t_sig_C then
           (let p_odd = vec_and s_sig xbitmask;
                s_sig = vec_srqi s_sig 1;
                s_sig = vec_or s_sig p_odd;
                q_exp = vec_addudm q_exp exp_one
            in (s_sig, q_exp))
         else if vec_all_le t_sig t_sig_L then
           (let exp_12 = vec_splat_u64 12;
                c_sig = vec_clzq s_sig;
                c_exp = vec_splatd (vui64 c_sig) VEC_DW_L;
                c_exp = vec_subudm c_exp exp_12;
                d_exp = vec_subudm q_exp exp_min;
                d_exp = vec_minud c_exp d_exp;
                nrm_mask = vec_cmpgtsd q_exp exp_min;
                exp_mask = vec_cmpgtud q_exp c_exp;
                c_sig = vec_slq s_sig (vui128_of_dw d_exp);
                q_exp = vec_subudm q_exp d_exp;
                exp_mask = vui64 (vec_and (vui128_of_dw exp_mask) (vui128_of_dw nrm_mask));
                q_exp = vec_selud exp_dnrm q_exp exp_mask;
                s_sig = vec_sel s_sig c_sig (vui128_of_dw nrm_mask)
            in (s_sig, q_exp))
         else (s_sig, q_exp))"

text \<open>
  The block for two finite operands.  It is the same text in \<^verbatim>\<open>vec_xsaddqpo\<close> and in
  \<^verbatim>\<open>vec_xssubqpo\<close>, which negates \<open>b_sign\<close> before it.
\<close>

definition addqpo_finite ::
  "vui128_t \<Rightarrow> vui128_t \<Rightarrow> vui128_t \<Rightarrow> vui128_t \<Rightarrow> vui64_t \<Rightarrow> vui128_t" where
  "addqpo_finite a_mag b_mag a_sign b_sign x_exp =
     (let exp_naninf = vec_mask64_f128exp;
          (a_sig, b_sig, a_exp, b_exp, q_sign, diff_sign) =
             addqpo_operands a_mag b_mag a_sign b_sign x_exp;
          q_exp = a_exp;
          b_sig = addqpo_align b_sig a_exp b_exp;
          s_sig = addqpo_sum a_sig b_sig diff_sign
      in if vec_cmpuq_all_eq s_sig q_zero then
           vec_sel a_sign q_zero diff_sign
         else
           (let (s_sig, q_exp) = addqpo_normalize s_sig q_exp;
                q_sig = round_odd_grx s_sig
            in if vec_cmpud_all_ge q_exp exp_naninf then
                 (let f128_max = CONST_VINT128_W 0x7ffeffff (- 1) (- 1) (- 1)
                  in vec_or f128_max q_sign)
               else
                 (let q_sig = vec_or q_sig q_sign
                  in vec_xsiexpqp q_sig q_exp)))"

definition vec_xsaddqpo :: "vui128_t \<Rightarrow> vui128_t \<Rightarrow> vui128_t" where
  "vec_xsaddqpo vfa vfb =
     (let magmask = vec_mask128_f128mag;
          exp_naninf = vec_mask64_f128exp;
          x_exp = vec_xxxexpqpp vfa vfb;
          a_mag = vec_and vfa magmask;
          b_mag = vec_and vfb magmask;
          a_sign = vec_andc vfa magmask;
          b_sign = vec_andc vfb magmask
      in if vec_cmpud_all_lt x_exp exp_naninf then
           addqpo_finite a_mag b_mag a_sign b_sign x_exp
         else
           (let q_nan = vec_mask128_f128Qbit
            in if vec_all_isnanf128 vfa then vec_or vfa q_nan
               else if vec_all_isnanf128 vfb then vec_or vfb q_nan
               else
                 (let a_exp = vec_splatd x_exp VEC_DW_H
                  in if vec_cmpud_all_eq x_exp exp_naninf
                        \<and> vec_cmpud_any_ne (vui64 a_sign) (vui64 b_sign)
                     then vec_const_nanf128
                     else if vec_cmpud_any_eq a_exp exp_naninf then vfa
                     else vfb)))"

definition vec_xssubqpo :: "vui128_t \<Rightarrow> vui128_t \<Rightarrow> vui128_t" where
  "vec_xssubqpo vfa vfb =
     (let magmask = vec_mask128_f128mag;
          exp_naninf = vec_mask64_f128exp;
          x_exp = vec_xxxexpqpp vfa vfb;
          a_mag = vec_and vfa magmask;
          b_mag = vec_and vfb magmask;
          a_sign = vec_andc vfa magmask;
          b_sign = vec_andc vfb magmask
      in if vec_cmpud_all_lt x_exp exp_naninf then
           (let signmask = vec_nor magmask magmask;
                b_sign = vec_xor signmask b_sign
            in addqpo_finite a_mag b_mag a_sign b_sign x_exp)
         else
           (let q_nan = vec_mask128_f128Qbit
            in if vec_all_isnanf128 vfa then vec_or vfa q_nan
               else if vec_all_isnanf128 vfb then vec_or vfb q_nan
               else
                 (let a_exp = vec_splatd x_exp VEC_DW_H
                  in if vec_cmpud_all_eq x_exp exp_naninf
                        \<and> vec_cmpud_all_eq (vui64 a_sign) (vui64 b_sign)
                     then vec_const_nanf128
                     else if vec_cmpud_any_eq a_exp exp_naninf then vfa
                     else vec_negf128 vfb)))"

section \<open>Multiply, round to odd\<close>

text \<open>The final rounding step of \<^verbatim>\<open>vec_xsmulqpo\<close>: the whole low quadword of the
  product is the source of the sticky bit.\<close>

definition round_odd_low :: "vui128_t \<Rightarrow> vui128_t \<Rightarrow> vui128_t" where
  "round_odd_low q_sig p_sig_l =
     (let p_odd = vec_addcuq p_sig_l q_ones
      in vec_or q_sig p_odd)"

text \<open>The significands with the hidden bit, shifted left by eight bits.\<close>

definition mulqpo_operands :: "vui128_t \<Rightarrow> vui128_t \<Rightarrow> vui128_t \<Rightarrow> vui128_t \<Rightarrow> vui128_t \<times> vui128_t" where
  "mulqpo_operands vfa vfb a_mag b_mag =
     (let sigmask = vec_mask128_f128sig;
          x_hidden = vec_splat_u16 1;
          a_s32 = vec_and vfa sigmask;
          b_s32 = vec_and vfb sigmask;
          a_e16 = vui16 (vec_andc a_mag sigmask);
          b_e16 = vui16 (vec_andc b_mag sigmask);
          a_norm = vec_cmpgt a_e16 (vui16 q_zero);
          b_norm = vec_cmpgt b_e16 (vui16 q_zero);
          a_sig = vec_sel a_s32 (vui128_of x_hidden) (vui128_of a_norm);
          b_sig = vec_sel b_s32 (vui128_of x_hidden) (vui128_of b_norm);
          a_sig = vec_slqi a_sig 8;
          b_sig = vec_slqi b_sig 8
      in (a_sig, b_sig))"

text \<open>The product exponent: the operand exponents corrected to \<open>E_min\<close>, summed, less one
  bias.\<close>

definition mulqpo_exp :: "vui64_t \<Rightarrow> vui64_t" where
  "mulqpo_exp x_exp =
     (let exp_naninf = vec_mask64_f128exp;
          exp_dnrm = vui64 q_zero;
          exp_min = vec_splat_u64 1;
          exp_bias = vui64 (vui128_of (vec_srhi (vui16 (vui128_of_dw exp_naninf)) 1));
          exp_mask = vec_cmpequd x_exp exp_dnrm;
          x_exp = vec_selud x_exp exp_min exp_mask;
          q_exp = vec_addudm x_exp (vec_swapd x_exp);
          q_exp = vec_subudm q_exp exp_bias
      in q_exp)"

text \<open>Carry out of the leading bit: shift the double quadword right by one bit and
  increment the exponent.\<close>

definition mulqpo_carry ::
  "vui128_t \<Rightarrow> vui128_t \<Rightarrow> vui64_t \<Rightarrow> vui128_t \<times> vui128_t \<times> vui64_t" where
  "mulqpo_carry p_sig_h p_sig_l q_exp =
     (let exp_one = vec_splat_u64 1;
          sig_l_mask = vec_splat_u16 1;
          t_sig = vec_splat (vui16 p_sig_h) VEC_HW_H;
          carry_mask = vui128_of (vec_cmpgt t_sig sig_l_mask);
          p_tmp = vec_sldqi p_sig_h p_sig_l 120;
          sig_h = vec_srqi p_sig_h 1;
          sig_l = vec_slqi p_tmp 7;
          x_exp = vec_addudm q_exp exp_one;
          p_sig_h = vec_sel p_sig_h sig_h carry_mask;
          p_sig_l = vec_sel p_sig_l sig_l carry_mask;
          q_exp = vec_selud q_exp x_exp (vui64 carry_mask)
      in (p_sig_h, p_sig_l, q_exp))"

text \<open>A tiny exponent: the product shifted right into the denormal range, the bits
  shifted out collected into the sticky bit.  The result is
  \<open>(q_sig, p_sig_h, p_sig_l, q_exp)\<close>.\<close>

definition mulqpo_tiny ::
  "vui128_t \<Rightarrow> vui128_t \<Rightarrow> vui64_t \<Rightarrow> vui128_t \<times> vui128_t \<times> vui128_t \<times> vui64_t" where
  "mulqpo_tiny p_sig_h p_sig_l q_exp =
     (let exp_dnrm = vui64 q_zero;
          exp_min = vec_splat_u64 1;
          q_sig = p_sig_h
      in if vec_cmpsd_all_lt q_exp exp_min then
           (let exp_128 = vec_const64_f128_128;
                too_tiny = CONST_VINT64_DW 116 116;
                xmask = vec_srqi q_ones 3;
                x_exp = vec_subudm exp_min q_exp
            in if vec_cmpud_all_gt x_exp too_tiny then
                 (let p_sig_l = vec_srqi p_sig_l 8;
                      p_sig_l = vec_or p_sig_l p_sig_h;
                      p_sig_l = vec_adduqm p_sig_l xmask;
                      q_sig = q_zero;
                      p_sig_l = vec_andc p_sig_l xmask
                  in (q_sig, p_sig_h, p_sig_l, exp_dnrm))
               else
                 (let tmp = vec_and p_sig_l xmask;
                      tmp = vec_adduqm tmp xmask;
                      p_sig_l = vec_or p_sig_l tmp;
                      p_sig_l = vec_andc p_sig_l xmask;
                      l_exp = vec_subudm exp_128 x_exp;
                      p_sig_l = vec_sldq p_sig_h p_sig_l (vui128_of_dw l_exp);
                      p_sig_h = vec_srq p_sig_h (vui128_of_dw x_exp);
                      q_sig = p_sig_h
                  in (q_sig, p_sig_h, p_sig_l, exp_dnrm)))
         else (q_sig, p_sig_h, p_sig_l, q_exp))"

text \<open>A significand below the normal range with an exponent that is not tiny: shift
  left towards the normal range.  The result is \<open>(q_sig, p_sig_l, q_exp)\<close>.\<close>

definition mulqpo_denorm ::
  "vui128_t \<Rightarrow> vui128_t \<Rightarrow> vui128_t \<Rightarrow> vui64_t \<Rightarrow> vui128_t \<times> vui128_t \<times> vui64_t" where
  "mulqpo_denorm q_sig p_sig_h p_sig_l q_exp =
     (let exp_dnrm = vui64 q_zero;
          exp_min = vec_splat_u64 1;
          t_sig = vec_splat (vui16 p_sig_h) VEC_HW_H
      in if vec_all_eq t_sig (vui16 q_zero) then
           (let exp_15 = vec_splat_u64 15;
                c_sig = vec_clzq p_sig_h;
                c_exp = vec_splatd (vui64 c_sig) VEC_DW_L;
                c_exp = vec_subudm c_exp exp_15;
                d_exp = vec_subudm q_exp exp_min;
                d_exp = vec_minud c_exp d_exp;
                exp_mask = vec_cmpgtud q_exp c_exp
            in if vec_cmpsd_all_gt q_exp exp_min then
                 (let p_sig_h = vec_sldq p_sig_h p_sig_l (vui128_of_dw d_exp);
                      p_sig_l = vec_slq p_sig_l (vui128_of_dw d_exp);
                      q_sig = p_sig_h;
                      q_exp = vec_subudm q_exp d_exp;
                      q_exp = vec_selud exp_dnrm q_exp exp_mask
                  in (q_sig, p_sig_l, q_exp))
               else (q_sig, p_sig_l, exp_dnrm))
         else (q_sig, p_sig_l, q_exp))"

definition mulqpo_finite ::
  "vui128_t \<Rightarrow> vui128_t \<Rightarrow> vui128_t \<Rightarrow> vui128_t \<Rightarrow> vui128_t \<Rightarrow> vui64_t \<Rightarrow> vui128_t" where
  "mulqpo_finite vfa vfb a_mag b_mag q_sign x_exp =
     (let exp_naninf = vec_mask64_f128exp;
          (a_sig, b_sig) = mulqpo_operands vfa vfb a_mag b_mag;
          (p_sig_h, p_sig_l) = vec_muludq a_sig b_sig
      in if vec_all_eq (vui32 a_sig) (vui32 q_zero) \<or> vec_all_eq (vui32 b_sig) (vui32 q_zero)
         then q_sign
         else
           (let q_exp = mulqpo_exp x_exp;
                (p_sig_h, p_sig_l, q_exp) = mulqpo_carry p_sig_h p_sig_l q_exp;
                (q_sig, p_sig_h, p_sig_l, q_exp) = mulqpo_tiny p_sig_h p_sig_l q_exp;
                (q_sig, p_sig_l, q_exp) = mulqpo_denorm q_sig p_sig_h p_sig_l q_exp;
                q_sig = round_odd_low q_sig p_sig_l
            in if vec_cmpud_all_ge q_exp exp_naninf then
                 (let f128_max = CONST_VINT128_W 0x7ffeffff (- 1) (- 1) (- 1)
                  in vec_or f128_max q_sign)
               else
                 (let q_sig = vec_or q_sig q_sign;
                      expmask = vec_sld (vui128_of_dw exp_naninf) q_zero 14;
                      tmp = vec_sld (vui128_of_dw q_exp) q_zero 14
                  in vec_sel q_sig tmp expmask)))"

definition vec_xsmulqpo :: "vui128_t \<Rightarrow> vui128_t \<Rightarrow> vui128_t" where
  "vec_xsmulqpo vfa vfb =
     (let exp_naninf = vec_mask64_f128exp;
          magmask = vec_mask128_f128mag;
          x_exp = vec_xxxexpqpp vfa vfb;
          a_mag = vec_and vfa magmask;
          b_mag = vec_and vfb magmask;
          a_sign = vec_andc vfa magmask;
          b_sign = vec_andc vfb magmask;
          q_sign = vec_xor a_sign b_sign
      in if vec_cmpud_all_lt x_exp exp_naninf then
           mulqpo_finite vfa vfb a_mag b_mag q_sign x_exp
         else
           (let q_nan = vec_mask128_f128Qbit;
                q_inf = vec_mask128_f128exp
            in if vec_all_isnanf128 vfa then vec_or vfa q_nan
               else if vec_all_isnanf128 vfb then vec_or vfb q_nan
               else if vec_cmpud_all_eq x_exp exp_naninf then vec_or q_inf q_sign
               else if vec_cmpuq_all_eq a_mag q_zero \<or> vec_cmpuq_all_eq b_mag q_zero
                 then vec_const_nanf128
               else vec_or q_inf q_sign))"

section \<open>Conversions\<close>

text \<open>\<^verbatim>\<open>vec_xscvqpudz\<close>: quad-precision to unsigned doubleword, round toward zero.  The result
  is in doubleword 0, doubleword 1 is zero.\<close>

definition vec_xscvqpudz :: "vui128_t \<Rightarrow> vui64_t" where
  "vec_xscvqpudz f128 =
     (let q_zero = CONST_VINT64_DW 0 0;
          q_ones = CONST_VINT64_DW (- 1) (- 1);
          exp_low = CONST_VINT64_DW 0x3fff 0x3fff;
          exp_high = CONST_VINT64_DW (0x3fff + 64) (0x3fff + 64);
          exp_63 = CONST_VINT64_DW (0x3fff + 63) (0x3fff + 63);
          q_naninf = CONST_VINT64_DW 0x7fff 0x7fff;
          q_exp = vec_xsxexpqp f128;
          q_sig = vec_xsxsigqp f128;
          x_exp = vec_splatd q_exp VEC_DW_H;
          b_sign = vec_setb_qp f128;
          result =
            (if \<not> vec_cmpud_all_eq x_exp q_naninf then
               (if vec_cmpud_all_ge x_exp exp_low \<and> vec_cmpud_all_eq (vui64 b_sign) q_zero then
                  (if vec_cmpud_all_lt x_exp exp_high then
                     (let q_sig = vec_slqi q_sig 15;
                          q_delta = vec_subudm exp_63 x_exp
                      in vec_vsrd (vui64 q_sig) q_delta)
                   else q_ones)
                else q_zero)
             else
               (let is_inf = vec_cmpequq q_sig (vui128_of_dw q_zero)
                in vui64 (vec_andc is_inf b_sign)))
      in vec_mrgahd (vui128_of_dw result) (vui128_of_dw q_zero))"

text \<open>\<^verbatim>\<open>vec_xscvqpuqz\<close>: quad-precision to unsigned quadword, round toward zero.\<close>

definition vec_xscvqpuqz :: "vui128_t \<Rightarrow> vui128_t" where
  "vec_xscvqpuqz f128 =
     (let q_zero = 0;
          q_ones = vui128_of (vec_splat_u32 (- 1));
          exp_low = CONST_VINT64_DW 0x3fff 0x3fff;
          exp_high = CONST_VINT64_DW (0x3fff + 128) (0x3fff + 128);
          exp_127 = CONST_VINT64_DW (0x3fff + 127) (0x3fff + 127);
          q_naninf = CONST_VINT64_DW 0x7fff 0x7fff;
          q_exp = vec_xsxexpqp f128;
          q_sig = vec_xsxsigqp f128;
          x_exp = vec_splatd q_exp VEC_DW_H;
          b_sign = vec_setb_qp f128
      in if \<not> vec_cmpud_all_eq x_exp q_naninf then
           (if vec_cmpud_all_ge x_exp exp_low \<and> vec_cmpud_all_eq (vui64 b_sign) (vui64 q_zero) then
              (if vec_cmpud_all_lt x_exp exp_high then
                 (let q_sig = vec_slqi q_sig 15;
                      q_delta = vec_subudm exp_127 x_exp
                  in vec_srq q_sig (vui128_of_dw q_delta))
               else q_ones)
            else q_zero)
         else
           (let is_inf = vec_cmpequq q_sig q_zero
            in vec_andc is_inf b_sign))"

text \<open>\<^verbatim>\<open>vec_xscvuqqp\<close>: unsigned quadword to quad-precision, round to nearest even.\<close>

definition vec_xscvuqqp :: "vui128_t \<Rightarrow> vui128_t" where
  "vec_xscvuqqp int128 =
     (let q_zero = 0;
          lowmask = CONST_VINT128_W 0 0 0 1;
          q_sig = int128
      in if vec_cmpuq_all_eq q_sig q_zero then q_zero
         else
           (let q_expm = CONST_VINT64_DW 0 (0x3fff + 127);
                i64_clz = vec_clzq q_sig;
                q_sig = vec_slq q_sig i64_clz;
                q_exp = vec_subudm q_expm (vui64 i64_clz);
                RXmask = CONST_VINT128_W 0 0 0 0x3fff;
                q_odd = vui128_of (vec_srhi (vui16 q_sig) 15);
                q_odd = vec_and q_odd lowmask;
                q_sig = vec_or q_sig q_odd;
                q_carry = vec_addcuq q_sig RXmask;
                q_sig = vec_adduqm q_sig RXmask;
                qcmask = vec_setb_cyq q_carry;
                q_sigc = vec_sldqi q_carry q_sig 112;
                q_sig = vec_srqi q_sig 15;
                q_sig = vec_sel q_sig q_sigc qcmask;
                q_exp = vec_addudm q_exp (vui64 q_carry);
                q_exp = vec_swapd q_exp
            in vec_xsiexpqp q_sig q_exp))"

text \<open>
  Modelled from the spec: \<^verbatim>\<open>vec_xviexpdp\<close> belongs to the double-precision module
  (\<^verbatim>\<open>vec_f64_ppc.h\<close>), which is not part of the sources at hand.  It is the insert
  exponent operation of the binary64 format: in each doubleword the sign (bit 63) and
  the fraction (bits 51 to 0) come from \<open>sig\<close>, the 11-bit exponent from the low-order
  bits of \<open>exp\<close>.
\<close>

definition xviexpdp_dw :: "64 word \<Rightarrow> 64 word \<Rightarrow> 64 word" where
  "xviexpdp_dw sig exp = (sig AND NOT (push_bit 52 (mask 11))) OR push_bit 52 (take_bit 11 exp)"

definition vec_xviexpdp :: "vui64_t \<Rightarrow> vui64_t \<Rightarrow> vui64_t" where
  "vec_xviexpdp sig exp = (xviexpdp_dw (fst sig) (fst exp), xviexpdp_dw (snd sig) (snd exp))"

text \<open>\<^verbatim>\<open>vec_xscvqpdpo\<close>: quad-precision to double-precision, round to odd.  The result is
  in doubleword 0, doubleword 1 is zero.\<close>

definition vec_xscvqpdpo :: "vui128_t \<Rightarrow> vui64_t" where
  "vec_xscvqpdpo f128 =
     (let q_zero = 0;
          q_ones = vui128_of (vec_splat_u32 (- 1));
          qpdp_delta = CONST_VINT64_DW (0x3fff - 0x3ff) 0;
          exp_tiny = CONST_VINT64_DW (0x3fff - 1022) (0x3fff - 1022);
          exp_high = CONST_VINT64_DW (0x3fff + 1023) (0x3fff + 1023);
          signmask = CONST_VINT128_W 0x80000000 0 0 0;
          q_naninf = CONST_VINT64_DW 0x7fff 0x7fff;
          d_naninf = CONST_VINT64_DW 0x7ff 0;
          q_exp = vec_xsxexpqp f128;
          x_exp = vec_splatd q_exp VEC_DW_H;
          q_sig = vec_xsxsigqp f128;
          q_sign = vec_and f128 signmask;
          (d_sig, d_exp) =
            (if \<not> vec_cmpud_all_eq x_exp q_naninf then
               (if vec_cmpud_all_ge x_exp exp_tiny then
                  (if vec_cmpud_all_le x_exp exp_high then
                     (let q_sig = vec_slqi q_sig 4;
                          d_X = vec_cmpgtud (vui64 q_sig) (vui64 q_zero);
                          d_X = vec_mrgald q_zero (vui128_of_dw d_X);
                          d_X = vui64 (vec_slqi (vui128_of_dw d_X) 1);
                          d_sig = vui64 (vec_or q_sig (vui128_of_dw d_X));
                          d_exp = vec_subudm q_exp qpdp_delta
                      in (d_sig, d_exp))
                   else (CONST_VINT64_DW 0x001fffffffffffff 0, CONST_VINT64_DW 0x7fe 0))
                else
                  (let exp_tinyr = CONST_VINT64_DW (0x3fff - (1022 + 53)) (0x3fff - (1022 + 53));
                       q_delta = vec_subudm exp_tiny x_exp;
                       d_exp = vui64 q_zero
                   in if vec_cmpud_all_gt x_exp exp_tinyr then
                        (let q_sig = vec_slqi q_sig 4;
                             d_sig = vui64 (vec_srq q_sig (vui128_of_dw q_delta));
                             d_X = vec_cmpgtud d_sig (vui64 q_zero);
                             d_X = vec_mrgald q_zero (vui128_of_dw d_X);
                             d_X = vui64 (vec_slqi (vui128_of_dw d_X) 1);
                             d_sig = vui64 (vec_or (vui128_of_dw d_sig) (vui128_of_dw d_X))
                         in (d_sig, d_exp))
                      else
                        (let d_X = vui64 (vec_addcuq q_sig q_ones);
                             d_sig = vec_swapd d_X
                         in (d_sig, d_exp))))
             else
               (let q_quiet = CONST_VINT64_DW 0x0000800000000000 0;
                    is_inf = vec_cmpequq q_sig q_zero;
                    x_sig = vec_or q_sig (vui128_of_dw q_quiet);
                    q_sig = vec_sel x_sig q_sig is_inf;
                    d_sig = vui64 (vec_slqi q_sig 4);
                    d_exp = d_naninf
                in (d_sig, d_exp)));
          d_sig = (fst d_sig, 0);
          d_sig = vui64 (vec_or (vui128_of_dw d_sig) q_sign)
      in vec_xviexpdp d_sig d_exp)"

section \<open>Auxiliary notions of the statements\<close>

definition is_quiet_nan :: "vui128_t \<Rightarrow> bool" where
  "is_quiet_nan q = (is_nan q \<and> bit q 111)"

definition is_signaling_nan :: "vui128_t \<Rightarrow> bool" where
  "is_signaling_nan q = (is_nan q \<and> \<not> bit q 111)"

text \<open>The infinity of a given sign.\<close>

definition qp_inf :: "bool \<Rightarrow> vui128_t" where
  "qp_inf s = (if s then 0xffff0000000000000000000000000000
               else 0x7fff0000000000000000000000000000)"

definition qp_zero :: "bool \<Rightarrow> vui128_t" where
  "qp_zero s = (if s then 0x80000000000000000000000000000000 else 0)"

text \<open>The largest finite magnitude of a given sign.\<close>

definition qp_max :: "bool \<Rightarrow> vui128_t" where
  "qp_max s = (if s then 0xfffeffffffffffffffffffffffffffff
               else 0x7ffeffffffffffffffffffffffffffff)"

text \<open>
  The value of a finite operand.  Its significand is the fraction, with the implicit
  leading bit when the biased exponent is not zero; a zero exponent field stands for
  the exponent 1 (\<open>E_min\<close>).  With the significand read as an integer, the value is
  \<open>\<plusminus> qp_sig q * 2 ^ (max 1 (qp_exp q) - 16495)\<close>; \<open>qp_mag\<close> is the magnitude and \<open>qp_val\<close> the
  signed value, both scaled by \<open>2 ^ 16494\<close> to integers.
\<close>

definition qp_sig :: "vui128_t \<Rightarrow> nat" where
  "qp_sig q = unat (qp_frac q) + (if qp_exp q = 0 then 0 else 2 ^ 112)"

definition qp_mag :: "vui128_t \<Rightarrow> nat" where
  "qp_mag q = qp_sig q * 2 ^ (max 1 (qp_exp q) - 1)"

definition qp_val :: "vui128_t \<Rightarrow> int" where
  "qp_val q = (if qp_sign q then - int (qp_mag q) else int (qp_mag q))"

text \<open>The scaled value of 1.0, and the scaled value of \<open>2 ^ 16384\<close>, the least
  magnitude beyond the finite values.\<close>

definition qp_unit :: nat where
  "qp_unit = 2 ^ 16494"

definition qp_huge :: nat where
  "qp_huge = 2 ^ 16384 * qp_unit"

text \<open>
  \<^verbatim>\<open>vec_xscvqpudz\<close> as it is specified: zero for a NaN and for every negative operand,
  all ones for \<open>+\<close>infinity and for a finite magnitude of \<open>2 ^ 64\<close> or more, and the
  integer part of the value otherwise (which is zero when the value is less than 1).
\<close>

definition cvqpudz_spec :: "vui128_t \<Rightarrow> 64 word" where
  "cvqpudz_spec q =
     (if is_nan q then 0
      else if qp_sign q then 0
      else if is_inf q then - 1
      else if 2 ^ 64 * qp_unit \<le> qp_mag q then - 1
      else of_nat (qp_mag q div qp_unit))"

text \<open>The combined significand \<open>s_sig\<close> that \<^verbatim>\<open>vec_xsaddqpo\<close> computes for two finite
  operands, before the test for zero.\<close>

definition addqpo_s_sig :: "vui128_t \<Rightarrow> vui128_t \<Rightarrow> vui128_t" where
  "addqpo_s_sig vfa vfb =
     (let magmask = vec_mask128_f128mag;
          x_exp = vec_xxxexpqpp vfa vfb;
          a_mag = vec_and vfa magmask;
          b_mag = vec_and vfb magmask;
          a_sign = vec_andc vfa magmask;
          b_sign = vec_andc vfb magmask;
          (a_sig, b_sig, a_exp, b_exp, q_sign, diff_sign) =
             addqpo_operands a_mag b_mag a_sign b_sign x_exp;
          b_sig = addqpo_align b_sig a_exp b_exp
      in addqpo_sum a_sig b_sig diff_sign)"

text \<open>
  The intermediate result of \<^verbatim>\<open>vec_xsaddqpo\<close> for two finite operands as it enters the
  final rounding step: the normalized significand \<open>s_sig\<close>, which carries the guard, round
  and sticky bits in its three low-order bits, the exponent \<open>q_exp\<close> and the sign
  \<open>q_sign\<close>.
\<close>

definition addqpo_unrounded :: "vui128_t \<Rightarrow> vui128_t \<Rightarrow> vui128_t \<times> vui64_t \<times> vui128_t" where
  "addqpo_unrounded vfa vfb =
     (let magmask = vec_mask128_f128mag;
          x_exp = vec_xxxexpqpp vfa vfb;
          a_mag = vec_and vfa magmask;
          b_mag = vec_and vfb magmask;
          a_sign = vec_andc vfa magmask;
          b_sign = vec_andc vfb magmask;
          (a_sig, b_sig, a_exp, b_exp, q_sign, diff_sign) =
             addqpo_operands a_mag b_mag a_sign b_sign x_exp;
          q_exp = a_exp;
          b_sig = addqpo_align b_sig a_exp b_exp;
          s_sig = addqpo_sum a_sig b_sig diff_sign;
          (s_sig, q_exp) = addqpo_normalize s_sig q_exp
      in (s_sig, q_exp, q_sign))"

text \<open>The same two notions for \<^verbatim>\<open>vec_xssubqpo\<close>, which negates \<open>b_sign\<close> first.\<close>

definition subqpo_s_sig :: "vui128_t \<Rightarrow> vui128_t \<Rightarrow> vui128_t" where
  "subqpo_s_sig vfa vfb =
     (let magmask = vec_mask128_f128mag;
          x_exp = vec_xxxexpqpp vfa vfb;
          a_mag = vec_and vfa magmask;
          b_mag = vec_and vfb magmask;
          a_sign = vec_andc vfa magmask;
          b_sign = vec_andc vfb magmask;
          signmask = vec_nor magmask magmask;
          b_sign = vec_xor signmask b_sign;
          (a_sig, b_sig, a_exp, b_exp, q_sign, diff_sign) =
             addqpo_operands a_mag b_mag a_sign b_sign x_exp;
          b_sig = addqpo_align b_sig a_exp b_exp
      in addqpo_sum a_sig b_sig diff_sign)"

definition subqpo_unrounded :: "vui128_t \<Rightarrow> vui128_t \<Rightarrow> vui128_t \<times> vui64_t \<times> vui128_t" where
  "subqpo_unrounded vfa vfb =
     (let magmask = vec_mask128_f128mag;
          x_exp = vec_xxxexpqpp vfa vfb;
          a_mag = vec_and vfa magmask;
          b_mag = vec_and vfb magmask;
          a_sign = vec_andc vfa magmask;
          b_sign = vec_andc vfb magmask;
          signmask = vec_nor magmask magmask;
          b_sign = vec_xor signmask b_sign;
          (a_sig, b_sig, a_exp, b_exp, q_sign, diff_sign) =
             addqpo_operands a_mag b_mag a_sign b_sign x_exp;
          q_exp = a_exp;
          b_sig = addqpo_align b_sig a_exp b_exp;
          s_sig = addqpo_sum a_sig b_sig diff_sign;
          (s_sig, q_exp) = addqpo_normalize s_sig q_exp
      in (s_sig, q_exp, q_sign))"

text \<open>
  The intermediate result of \<^verbatim>\<open>vec_xsmulqpo\<close> for two finite operands as it enters the
  final rounding step: the truncated significand \<open>q_sig\<close>, the low quadword \<open>p_sig_l\<close> of
  the product, which holds the bits that are discarded, the exponent \<open>q_exp\<close> and the
  sign \<open>q_sign\<close>.
\<close>

definition mulqpo_unrounded ::
  "vui128_t \<Rightarrow> vui128_t \<Rightarrow> vui128_t \<times> vui128_t \<times> vui64_t \<times> vui128_t" where
  "mulqpo_unrounded vfa vfb =
     (let magmask = vec_mask128_f128mag;
          x_exp = vec_xxxexpqpp vfa vfb;
          a_mag = vec_and vfa magmask;
          b_mag = vec_and vfb magmask;
          a_sign = vec_andc vfa magmask;
          b_sign = vec_andc vfb magmask;
          q_sign = vec_xor a_sign b_sign;
          (a_sig, b_sig) = mulqpo_operands vfa vfb a_mag b_mag;
          (p_sig_h, p_sig_l) = vec_muludq a_sig b_sig;
          q_exp = mulqpo_exp x_exp;
          (p_sig_h, p_sig_l, q_exp) = mulqpo_carry p_sig_h p_sig_l q_exp;
          (q_sig, p_sig_h, p_sig_l, q_exp) = mulqpo_tiny p_sig_h p_sig_l q_exp;
          (q_sig, p_sig_l, q_exp) = mulqpo_denorm q_sig p_sig_h p_sig_l q_exp
      in (q_sig, p_sig_l, q_exp, q_sign))"

text \<open>The exponent of an operand as a doubleword element, and its significand as a
  quadword.\<close>

definition exp_lane :: "vui128_t \<Rightarrow> 64 word" where
  "exp_lane q = ucast (take_bit 15 (drop_bit 112 q))"

definition sig_word :: "vui128_t \<Rightarrow> vui128_t" where
  "sig_word q = qp_frac q OR (if exp_lane q = 0 then 0 else push_bit 112 1)"

definition emin_lane :: "vui128_t \<Rightarrow> 64 word" where
  "emin_lane q = (if exp_lane q = 0 then 1 else exp_lane q)"

text \<open>The bit fields and data classes of the binary64 format.\<close>

definition dp_sign :: "64 word \<Rightarrow> bool" where
  "dp_sign d = bit d 63"

definition dp_exp :: "64 word \<Rightarrow> nat" where
  "dp_exp d = unat (take_bit 11 (drop_bit 52 d))"

definition dp_frac :: "64 word \<Rightarrow> 64 word" where
  "dp_frac d = take_bit 52 d"

definition dp_is_nan :: "64 word \<Rightarrow> bool" where
  "dp_is_nan d = (dp_exp d = 2047 \<and> dp_frac d \<noteq> 0)"

definition dp_is_inf :: "64 word \<Rightarrow> bool" where
  "dp_is_inf d = (dp_exp d = 2047 \<and> dp_frac d = 0)"

text \<open>A single bit of a quadword, kept symbolic in the proofs.\<close>

definition bit_at :: "nat \<Rightarrow> vui128_t" where
  "bit_at n = push_bit n 1"

section \<open>Constants and bit fields\<close>

lemma const_masks:
  "CONST_VINT128_W 0x80000000 0 0 0 = NOT (mask 127)"
  "CONST_VINT128_W 0x7fff0000 0 0 0 = push_bit 112 (mask 15)"
  "CONST_VINT128_W 0 0 0 0 = 0"
  "q_zero = 0" "q_ones = - 1"
  "vec_mask128_f128exp = push_bit 112 (mask 15)"
  "vec_mask128_f128mag = mask 127"
  "vec_mask128_f128sig = mask 112"
  by (simp_all add: CONST_VINT128_W_def vui128_of_def q_zero_def q_ones_def
      vec_mask128_f128exp_def vec_mask128_f128mag_def vec_mask128_f128sig_def
      unsigned_minus_1_eq_mask mask_eq_exp_minus_1)

lemma vb_simps [simp]:
  "vb True = - 1" "vb False = 0"
  "vb c OR vb d = vb (c \<or> d)"
  "vb c AND NOT (vb d) = vb (c \<and> \<not> d)"
  "vb c AND vb d = vb (c \<and> d)"
  by (simp_all add: vb_def)

lemma unat_tb: "unat (take_bit n w) = unat w mod 2 ^ n" for w :: "'a::len word"
  by (simp add: unsigned_take_bit_eq take_bit_eq_mod[where 'a=nat])

lemma unat_db: "unat (drop_bit n w) = unat w div 2 ^ n" for w :: "'a::len word"
  by (simp add: unat_drop_bit_eq drop_bit_eq_div[where 'a=nat])

lemma take_bit_127_decomp:
  "unat (take_bit 127 (q::128 word)) = qp_exp q * 2 ^ 112 + unat (qp_frac q)"
proof -
  have "unat q mod (2 ^ 112 * 2 ^ 15) =
        2 ^ 112 * (unat q div 2 ^ 112 mod 2 ^ 15) + unat q mod 2 ^ 112"
    by (rule mod_mult2_eq)
  then show ?thesis
    by (simp add: qp_exp_def qp_frac_def unat_tb unat_db)
qed

lemma qp_exp_less: "qp_exp q < 32768"
  unfolding qp_exp_def by (simp add: unat_tb)

lemma qp_frac_less: "unat (qp_frac q) < 2 ^ 112"
  unfolding qp_frac_def by (simp add: unat_tb)

lemma unat_expmask: "unat (push_bit 112 (mask 15) :: 128 word) = 32767 * 2 ^ 112"
  by (simp add: mask_eq_exp_minus_1)

lemma nan_magnitude: "(push_bit 112 (mask 15) < take_bit 127 q) = is_nan q"
  unfolding word_less_nat_alt take_bit_127_decomp unat_expmask is_nan_def
  using qp_exp_less[of q] qp_frac_less[of q]
  by (auto simp add: unat_eq_0[symmetric])

lemma isnan_iff: "vec_isnanf128 q = vb (is_nan q)"
  using nan_magnitude[of q]
  by (simp add: vec_isnanf128_def const_masks vec_andc_def vec_cmpgtuq_def Let_def
      flip: take_bit_eq_mask)

lemma all_isnan_iff: "vec_all_isnanf128 q = is_nan q"
  using nan_magnitude[of q]
  by (simp add: vec_all_isnanf128_def const_masks vec_and_def vec_cmpuq_all_gt_def Let_def
      flip: take_bit_eq_mask)

lemma is_zero_iff: "is_zero q \<longleftrightarrow> take_bit 127 q = 0"
proof -
  have "take_bit 127 q = 0 \<longleftrightarrow> unat (take_bit 127 q) = 0"
    by (simp add: unat_eq_0)
  also have "\<dots> \<longleftrightarrow> is_zero q"
    unfolding take_bit_127_decomp is_zero_def by (simp add: unat_eq_0[symmetric])
  finally show ?thesis by simp
qed

lemma tb127_zero: "take_bit 127 (q::128 word) = 0 \<longleftrightarrow> q = 0 \<or> q = NOT (mask 127)"
proof
  assume a: "take_bit 127 q = 0"
  have b: "\<not> bit q n" if "n < 127" for n
  proof -
    have "bit (take_bit 127 q) n = bit q n"
      using that by (simp add: bit_simps)
    thus ?thesis using a by simp
  qed
  have c: "n < 127 \<or> n = 127" if "n < LENGTH(128)" for n
    using that by auto
  show "q = 0 \<or> q = NOT (mask 127)"
  proof (cases "bit q 127")
    case True
    have "q = NOT (mask 127)"
    proof (rule bit_word_eqI)
      fix n assume "n < LENGTH(128)"
      from c[OF this] show "bit q n = bit (NOT (mask 127) :: 128 word) n"
        using True b by (auto simp: bit_simps)
    qed
    then show ?thesis by simp
  next
    case False
    have "q = 0"
    proof (rule bit_word_eqI)
      fix n assume "n < LENGTH(128)"
      from c[OF this] show "bit q n = bit (0 :: 128 word) n"
        using False b by (auto simp: bit_simps)
    qed
    then show ?thesis by simp
  qed
next
  assume "q = 0 \<or> q = NOT (mask 127)"
  then show "take_bit 127 q = 0"
    by (auto simp: take_bit_eq_mask)
qed

lemma or_signmask:
  "(a OR b = NOT (mask 127)) \<longleftrightarrow>
    ((a = 0 \<or> a = NOT (mask 127)) \<and> (b = 0 \<or> b = NOT (mask 127)) \<and> \<not> (a = 0 \<and> b = 0))"
  for a b :: "128 word"
proof
  assume h: "a OR b = NOT (mask 127)"
  have "take_bit 127 (a OR b) = 0"
    unfolding h by (simp add: take_bit_eq_mask)
  then have "take_bit 127 a = 0" "take_bit 127 b = 0"
    by (simp_all add: take_bit_or or_eq_0_iff)
  moreover have "\<not> (a = 0 \<and> b = 0)"
    using h by (auto simp: mask_eq_exp_minus_1)
  ultimately show "(a = 0 \<or> a = NOT (mask 127)) \<and> (b = 0 \<or> b = NOT (mask 127))
      \<and> \<not> (a = 0 \<and> b = 0)"
    by (simp add: tb127_zero)
next
  assume "(a = 0 \<or> a = NOT (mask 127)) \<and> (b = 0 \<or> b = NOT (mask 127)) \<and> \<not> (a = 0 \<and> b = 0)"
  then show "a OR b = NOT (mask 127)" by auto
qed

section \<open>The unordered equality compare\<close>

text \<open>
  Claim C9.  \<^verbatim>\<open>vec_cmpequqp\<close> returns all ones exactly when neither operand is a NaN and
  the two bit patterns are identical or both operands are zeros of any sign, and all
  zeros otherwise.  So a NaN compares unequal even to itself, here the default quiet
  NaN, and \<open>+0.0\<close> compares equal to \<open>-0.0\<close>.
\<close>

theorem cmpequqp_unordered:
  "vec_cmpequqp vfa vfb =
     vb (\<not> is_nan vfa \<and> \<not> is_nan vfb \<and> (vfa = vfb \<or> (is_zero vfa \<and> is_zero vfb)))
   \<and> vec_cmpequqp vec_const_nanf128 vec_const_nanf128 = 0
   \<and> vec_cmpequqp 0 (CONST_VINT128_W 0x80000000 0 0 0) = - 1"
proof -
  have "(vfa = vfb \<or> vfa OR vfb = NOT (mask 127))
        \<longleftrightarrow> (vfa = vfb \<or> (is_zero vfa \<and> is_zero vfb))" for vfa vfb
    unfolding or_signmask is_zero_iff tb127_zero by auto
  then have main: "vec_cmpequqp vfa vfb =
     vb (\<not> is_nan vfa \<and> \<not> is_nan vfb \<and> (vfa = vfb \<or> (is_zero vfa \<and> is_zero vfb)))"
    for vfa vfb
    by (simp add: vec_cmpequqp_def vec_isunorderedf128_def isnan_iff vec_or_def vec_andc_def
        vec_cmpequq_def const_masks Let_def conj_ac)
  have nan: "is_nan vec_const_nanf128"
    by (simp add: is_nan_def qp_exp_def qp_frac_def vec_const_nanf128_def CONST_VINT128_W_def
        vui128_of_def)
  have z: "is_zero 0" "is_zero (NOT (mask 127))" "\<not> is_nan 0" "\<not> is_nan (NOT (mask 127))"
    by (simp_all add: is_zero_iff tb127_zero is_nan_def qp_exp_def mask_eq_exp_minus_1)
  show ?thesis
    unfolding main using nan z by (simp add: const_masks)
qed

section \<open>Operand exponents and the special-case paths\<close>

lemma mask64_exp: "vec_mask64_f128exp = (0x7fff, 0x7fff)"
  by (simp add: vec_mask64_f128exp_def CONST_VINT128_W_def vui128_of_def vui64_def)

lemma xxxexpqpp_bits:
  "vec_xxxexpqpp vfa vfb =
     (ucast (take_bit 15 (drop_bit 112 vfa)), ucast (take_bit 15 (drop_bit 112 vfb)))"
proof -
  have m: "(0x7fff :: 64 word) = mask 15"
    by (simp add: mask_eq_exp_minus_1)
  show ?thesis
    unfolding vec_xxxexpqpp_def Let_def mask64_exp vec_mrgh_bin128_2_vui64t_def vec_mrgahd_def
      vui64_def vui128_of_dw_def vec_sld_def vec_and_def fst_conv snd_conv prod.inject m
    apply (intro conjI)
     apply (rule bit_word_eqI)
     apply (simp add: bit_simps)
     apply (auto)[1]
    apply (rule bit_word_eqI)
    apply (simp add: bit_simps)
    apply (auto)[1]
    done
qed

lemma xxxexpqpp_nat: "vec_xxxexpqpp vfa vfb = (of_nat (qp_exp vfa), of_nat (qp_exp vfb))"
  by (simp add: xxxexpqpp_bits qp_exp_def)

lemma exp_lane_unat: "unat (of_nat (qp_exp q) :: 64 word) = qp_exp q"
  using qp_exp_less[of q] by (simp add: unat_of_nat take_bit_nat_eq_self)

lemma exp_lane_less: "((of_nat (qp_exp q) :: 64 word) < 0x7fff) = is_finite q"
  by (simp add: word_less_nat_alt exp_lane_unat is_finite_def)

lemma exp_lane_eq: "((of_nat (qp_exp q) :: 64 word) = 0x7fff) = (qp_exp q = 32767)"
proof -
  have "((of_nat (qp_exp q) :: 64 word) = 0x7fff)
        = (unat (of_nat (qp_exp q) :: 64 word) = unat (0x7fff :: 64 word))"
    by (simp only: word_unat_eq_iff)
  then show ?thesis by (simp add: exp_lane_unat)
qed

lemma finite_branch:
  "vec_cmpud_all_lt (vec_xxxexpqpp vfa vfb) vec_mask64_f128exp = (is_finite vfa \<and> is_finite vfb)"
  by (simp add: xxxexpqpp_nat mask64_exp vec_cmpud_all_lt_def exp_lane_less)

lemma both_naninf:
  "vec_cmpud_all_eq (vec_xxxexpqpp vfa vfb) vec_mask64_f128exp
     = (qp_exp vfa = 32767 \<and> qp_exp vfb = 32767)"
  by (simp add: xxxexpqpp_nat mask64_exp vec_cmpud_all_eq_def exp_lane_eq)

lemma first_naninf:
  "vec_cmpud_any_eq (vec_splatd (vec_xxxexpqpp vfa vfb) VEC_DW_H) vec_mask64_f128exp
     = (qp_exp vfa = 32767)"
  by (simp add: xxxexpqpp_nat mask64_exp vec_cmpud_any_eq_def vec_splatd_def exp_lane_eq)

lemma nan_not_finite: "is_nan q \<Longrightarrow> \<not> is_finite q"
  by (simp add: is_nan_def is_finite_def)

lemma inf_not_finite: "is_inf q \<Longrightarrow> \<not> is_finite q"
  by (simp add: is_inf_def is_finite_def)

lemma inf_not_nan: "is_inf q \<Longrightarrow> \<not> is_nan q"
  by (simp add: is_inf_def is_nan_def)

lemma finite_not_nan: "is_finite q \<Longrightarrow> \<not> is_nan q"
  by (simp add: is_finite_def is_nan_def)

lemma top_bit_index: "n < 64 \<Longrightarrow> \<not> n < 63 \<Longrightarrow> 64 + n = 127" for n :: nat
  by arith

lemma sign_lanes: "vui64 (q AND NOT (mask 127)) = (if qp_sign q then NOT (mask 63) else 0, 0)"
proof -
  have "(ucast (drop_bit 64 (q AND NOT (mask 127))) :: 64 word)
        = (if bit q 127 then NOT (mask 63) else 0)"
    by (rule bit_word_eqI) (auto simp add: bit_simps dest: top_bit_index)
  moreover have "(ucast (q AND NOT (mask 127)) :: 64 word) = 0"
    by (rule bit_word_eqI) (auto simp add: bit_simps)
  ultimately show ?thesis
    by (simp add: vui64_def qp_sign_def)
qed

lemma sign_lane_nonzero: "(NOT (mask 63) :: 64 word) \<noteq> 0"
  by (simp add: mask_eq_exp_minus_1)

lemma signs_differ:
  "vec_cmpud_any_ne (vui64 (vec_andc vfa (mask 127))) (vui64 (vec_andc vfb (mask 127)))
     = (qp_sign vfa \<noteq> qp_sign vfb)"
  using sign_lane_nonzero
  by (auto simp add: vec_cmpud_any_ne_def vec_andc_def sign_lanes)

lemma signs_equal:
  "vec_cmpud_all_eq (vui64 (vec_andc vfa (mask 127))) (vui64 (vec_andc vfb (mask 127)))
     = (qp_sign vfa = qp_sign vfb)"
  using sign_lane_nonzero
  by (auto simp add: vec_cmpud_all_eq_def vec_andc_def sign_lanes)

lemma qbit_const: "vec_mask128_f128Qbit = bit_at 111"
  by (simp add: vec_mask128_f128Qbit_def CONST_VINT128_W_def vui128_of_def bit_at_def)

lemma bit_bit_at: "bit (bit_at n) m \<longleftrightarrow> m = n \<and> n < 128"
  by (auto simp add: bit_at_def bit_simps)

lemma add_special:
  "\<not> (is_finite vfa \<and> is_finite vfb) \<Longrightarrow>
   vec_xsaddqpo vfa vfb =
     (if is_nan vfa then vfa OR bit_at 111
      else if is_nan vfb then vfb OR bit_at 111
      else if qp_exp vfa = 32767 \<and> qp_exp vfb = 32767 \<and> qp_sign vfa \<noteq> qp_sign vfb
        then vec_const_nanf128
      else if qp_exp vfa = 32767 then vfa else vfb)"
  by (cases "is_finite vfa"; cases "is_finite vfb";
      simp add: vec_xsaddqpo_def Let_def finite_branch all_isnan_iff both_naninf first_naninf
      const_masks signs_differ qbit_const vec_or_def)

lemma sub_special:
  "\<not> (is_finite vfa \<and> is_finite vfb) \<Longrightarrow>
   vec_xssubqpo vfa vfb =
     (if is_nan vfa then vfa OR bit_at 111
      else if is_nan vfb then vfb OR bit_at 111
      else if qp_exp vfa = 32767 \<and> qp_exp vfb = 32767 \<and> qp_sign vfa = qp_sign vfb
        then vec_const_nanf128
      else if qp_exp vfa = 32767 then vfa else vfb XOR NOT (mask 127))"
  by (cases "is_finite vfa"; cases "is_finite vfb";
      simp add: vec_xssubqpo_def Let_def finite_branch all_isnan_iff both_naninf first_naninf
      signs_equal qbit_const vec_or_def vec_negf128_def vec_xor_def const_masks)

lemma mul_special:
  "\<not> (is_finite vfa \<and> is_finite vfb) \<Longrightarrow>
   vec_xsmulqpo vfa vfb =
     (if is_nan vfa then vfa OR bit_at 111
      else if is_nan vfb then vfb OR bit_at 111
      else if qp_exp vfa = 32767 \<and> qp_exp vfb = 32767
        then push_bit 112 (mask 15) OR ((vfa XOR vfb) AND NOT (mask 127))
      else if is_zero vfa \<or> is_zero vfb then vec_const_nanf128
      else push_bit 112 (mask 15) OR ((vfa XOR vfb) AND NOT (mask 127)))"
  by (cases "is_finite vfa"; cases "is_finite vfb";
      simp add: vec_xsmulqpo_def Let_def finite_branch all_isnan_iff both_naninf
      qbit_const vec_or_def vec_xor_def vec_and_def vec_andc_def const_masks
      vec_cmpuq_all_eq_def is_zero_iff bit.conj_xor_distrib2 flip: take_bit_eq_mask)

section \<open>Sign, negation and quieting\<close>

lemma signmask_bit_at: "NOT (mask 127) = bit_at 127"
  by (rule bit_word_eqI) (auto simp add: bit_simps bit_bit_at)

lemma bit_cases_127: "n < 127 \<or> n = 127" if "n < LENGTH(128)" for n :: nat
  using that by auto

lemma sign_decomp: "q = take_bit 127 q OR (q AND bit_at 127)"
proof (rule bit_word_eqI)
  fix n assume "n < LENGTH(128)"
  from bit_cases_127[OF this]
  show "bit q n = bit (take_bit 127 q OR (q AND bit_at 127)) n"
    by (auto simp add: bit_simps bit_bit_at)
qed

lemma sign_and: "q AND bit_at 127 = (if qp_sign q then bit_at 127 else 0)"
  by (rule bit_word_eqI) (auto simp add: bit_simps bit_bit_at qp_sign_def)

lemma andc_magmask: "q AND NOT (mask 127) = (if qp_sign q then bit_at 127 else 0)"
  by (simp add: signmask_bit_at sign_and)

lemma neg_fields:
  "qp_exp (q XOR bit_at 127) = qp_exp q"
  "qp_frac (q XOR bit_at 127) = qp_frac q"
  "qp_sign (q XOR bit_at 127) = (\<not> qp_sign q)"
  "take_bit 127 (q XOR bit_at 127) = take_bit 127 q"
proof -
  show t: "take_bit 127 (q XOR bit_at 127) = take_bit 127 q"
    by (rule bit_word_eqI) (auto simp add: bit_simps bit_bit_at)
  have "take_bit 15 (drop_bit 112 (q XOR bit_at 127)) = take_bit 15 (drop_bit 112 q)"
    by (rule bit_word_eqI) (auto simp add: bit_simps bit_bit_at)
  then show "qp_exp (q XOR bit_at 127) = qp_exp q"
    by (simp add: qp_exp_def)
  show "qp_frac (q XOR bit_at 127) = qp_frac q"
    unfolding qp_frac_def by (rule bit_word_eqI) (auto simp add: bit_simps bit_bit_at)
  show "qp_sign (q XOR bit_at 127) = (\<not> qp_sign q)"
    by (simp add: qp_sign_def bit_simps bit_bit_at)
qed

lemma negf128_eq: "vec_negf128 q = q XOR bit_at 127"
  by (simp add: vec_negf128_def vec_xor_def const_masks signmask_bit_at)

lemma neg_classes:
  "is_nan (q XOR bit_at 127) = is_nan q"
  "is_finite (q XOR bit_at 127) = is_finite q"
  by (simp_all add: is_nan_def is_finite_def neg_fields)

lemma quiet_fields:
  "qp_exp (q OR bit_at 111) = qp_exp q"
  "qp_sign (q OR bit_at 111) = qp_sign q"
  "qp_frac (q OR bit_at 111) \<noteq> 0"
  "bit (q OR bit_at 111) 111"
proof -
  have "drop_bit 112 (q OR bit_at 111) = drop_bit 112 q"
    by (rule bit_word_eqI) (auto simp add: bit_simps bit_bit_at)
  then show "qp_exp (q OR bit_at 111) = qp_exp q"
    by (simp add: qp_exp_def)
  show "qp_sign (q OR bit_at 111) = qp_sign q"
    by (simp add: qp_sign_def bit_simps bit_bit_at)
  have "bit (qp_frac (q OR bit_at 111)) 111"
    by (simp add: qp_frac_def bit_simps bit_bit_at)
  then show "qp_frac (q OR bit_at 111) \<noteq> 0"
    by auto
  show "bit (q OR bit_at 111) 111"
    by (simp add: bit_simps bit_bit_at)
qed

lemma quieted_is_quiet: "is_nan q \<Longrightarrow> is_quiet_nan (q OR bit_at 111)"
  by (simp add: is_quiet_nan_def is_nan_def quiet_fields)

lemma sign_xor:
  "(a XOR b) AND NOT (mask 127) = (if qp_sign a \<noteq> qp_sign b then bit_at 127 else 0)"
  for a b :: "128 word"
  unfolding signmask_bit_at
  by (rule bit_word_eqI) (auto simp add: bit_simps bit_bit_at qp_sign_def)

lemma qp_inf_eq: "qp_inf s = push_bit 112 (mask 15) OR (if s then bit_at 127 else 0)"
  by (simp add: qp_inf_def mask_eq_exp_minus_1 bit_at_def)

lemma field_eq:
  fixes e f k P :: nat
  assumes "f < P" "e * P + f = k * P"
  shows "e = k \<and> f = 0"
proof -
  have "(e * P + f) mod P = f"
    using assms(1) by simp
  then have f: "f = 0"
    using assms(2) by simp
  then have "e * P = k * P"
    using assms(2) by simp
  then show ?thesis
    using assms(1) f by simp
qed

lemma is_inf_magnitude: "is_inf q \<longleftrightarrow> take_bit 127 q = push_bit 112 (mask 15)"
proof -
  have "is_inf q \<longleftrightarrow> unat (take_bit 127 q) = unat (push_bit 112 (mask 15) :: 128 word)"
    unfolding take_bit_127_decomp unat_expmask is_inf_def
    using field_eq[OF qp_frac_less[of q], of "qp_exp q" 32767]
    by (auto simp add: unat_eq_0[symmetric])
  then show ?thesis
    by (simp only: word_unat_eq_iff)
qed

lemma is_inf_iff: "is_inf q \<longleftrightarrow> q = qp_inf (qp_sign q)"
proof
  assume "is_inf q"
  then have "take_bit 127 q = push_bit 112 (mask 15)"
    by (simp add: is_inf_magnitude)
  with sign_decomp[of q] show "q = qp_inf (qp_sign q)"
    by (simp add: qp_inf_eq sign_and)
next
  assume h: "q = qp_inf (qp_sign q)"
  have "take_bit 127 (qp_inf s) = push_bit 112 (mask 15)" for s
    unfolding qp_inf_eq by (rule bit_word_eqI) (auto simp add: bit_simps bit_bit_at)
  then show "is_inf q"
    using h by (metis is_inf_magnitude)
qed

lemma default_nan_fields:
  "\<not> qp_sign vec_const_nanf128" "qp_exp vec_const_nanf128 = 32767"
  "qp_frac vec_const_nanf128 = bit_at 111"
  by (simp_all add: qp_sign_def qp_exp_def qp_frac_def vec_const_nanf128_def CONST_VINT128_W_def
      vui128_of_def bit_at_def)

lemma zero_not_inf_exp: "is_zero q \<Longrightarrow> qp_exp q \<noteq> 32767"
  by (simp add: is_zero_def)

section \<open>NaN propagation and the infinity table\<close>

text \<open>
  Claim C3.  When at least one operand of \<^verbatim>\<open>vec_xsaddqpo\<close> or \<^verbatim>\<open>vec_xsmulqpo\<close> is a NaN, the
  result is the first operand that is a NaN with the quiet bit, bit 111, ORed in; it is
  a quiet NaN whatever the other operand is.
\<close>

theorem nan_propagation:
  assumes "is_nan vfa \<or> is_nan vfb"
  shows "vec_xsaddqpo vfa vfb = (if is_nan vfa then vfa else vfb) OR bit_at 111
       \<and> vec_xsmulqpo vfa vfb = (if is_nan vfa then vfa else vfb) OR bit_at 111
       \<and> is_quiet_nan (vec_xsaddqpo vfa vfb) \<and> \<not> is_signaling_nan (vec_xsaddqpo vfa vfb)
       \<and> is_quiet_nan (vec_xsmulqpo vfa vfb) \<and> \<not> is_signaling_nan (vec_xsmulqpo vfa vfb)"
proof -
  have nf: "\<not> (is_finite vfa \<and> is_finite vfb)"
    using assms nan_not_finite by blast
  have a: "vec_xsaddqpo vfa vfb = (if is_nan vfa then vfa else vfb) OR bit_at 111"
    using assms by (auto simp add: add_special[OF nf])
  have m: "vec_xsmulqpo vfa vfb = (if is_nan vfa then vfa else vfb) OR bit_at 111"
    using assms by (auto simp add: mul_special[OF nf])
  have "is_nan (if is_nan vfa then vfa else vfb)"
    using assms by auto
  then have q: "is_quiet_nan ((if is_nan vfa then vfa else vfb) OR bit_at 111)"
    by (rule quieted_is_quiet)
  then have "\<not> is_signaling_nan ((if is_nan vfa then vfa else vfb) OR bit_at 111)"
    by (simp add: is_quiet_nan_def is_signaling_nan_def)
  with q show ?thesis
    unfolding a m by simp
qed

theorem nan_propagation_witness:
  "(is_nan 0x7fff4000000000000000000000000001 \<or> is_nan 0x3fff0000000000000000000000000000)
   \<and> vec_xsaddqpo 0x7fff4000000000000000000000000001 0x3fff0000000000000000000000000000
       = 0x7fffc000000000000000000000000001
   \<and> vec_xsmulqpo 0x7fff4000000000000000000000000001 0x3fff0000000000000000000000000000
       = 0x7fffc000000000000000000000000001
   \<and> is_quiet_nan (vec_xsaddqpo 0x7fff4000000000000000000000000001
                                 0x3fff0000000000000000000000000000)"
proof -
  have h: "is_nan 0x7fff4000000000000000000000000001"
    by (simp add: is_nan_def qp_exp_def qp_frac_def)
  then have "is_nan 0x7fff4000000000000000000000000001 \<or> is_nan 0x3fff0000000000000000000000000000"
    by simp
  from nan_propagation[OF this] h show ?thesis
    by (simp add: bit_at_def is_quiet_nan_def is_nan_def qp_exp_def qp_frac_def)
qed

text \<open>
  Claim C4.  The special-case actions for an infinity operand when no operand is a NaN:
  the sum of two infinities of equal sign is that infinity, the sum of two infinities
  of opposite sign is the default quiet NaN; the product of two infinities, or of an
  infinity and a nonzero finite value, is the infinity whose sign is the exclusive or
  of the operand signs; the product of an infinity and a zero is the default quiet NaN,
  which has sign 0, exponent 32767, the quiet bit set and the rest of the fraction zero.
\<close>

theorem infinity_table:
  assumes "is_inf vfa"
  shows "(is_inf vfb \<and> qp_sign vfb = qp_sign vfa \<longrightarrow> vec_xsaddqpo vfa vfb = vfa)
       \<and> (is_inf vfb \<and> qp_sign vfb \<noteq> qp_sign vfa \<longrightarrow> vec_xsaddqpo vfa vfb = vec_const_nanf128)
       \<and> (is_inf vfb \<longrightarrow> vec_xsmulqpo vfa vfb = qp_inf (qp_sign vfa \<noteq> qp_sign vfb))
       \<and> (is_finite vfb \<and> \<not> is_zero vfb \<longrightarrow>
            vec_xsmulqpo vfa vfb = qp_inf (qp_sign vfa \<noteq> qp_sign vfb)
          \<and> vec_xsmulqpo vfb vfa = qp_inf (qp_sign vfa \<noteq> qp_sign vfb))
       \<and> (is_zero vfb \<longrightarrow>
            vec_xsmulqpo vfa vfb = vec_const_nanf128 \<and> vec_xsmulqpo vfb vfa = vec_const_nanf128)
       \<and> \<not> qp_sign vec_const_nanf128 \<and> qp_exp vec_const_nanf128 = 32767
       \<and> qp_frac vec_const_nanf128 = 0x00008000000000000000000000000000"
proof -
  have nf: "\<not> (is_finite vfa \<and> is_finite vfb)" "\<not> (is_finite vfb \<and> is_finite vfa)"
    using assms inf_not_finite by blast+
  have na: "\<not> is_nan vfa" "qp_exp vfa = 32767" "\<not> is_zero vfa"
    using assms by (simp_all add: is_inf_def is_nan_def is_zero_def)
  have sx: "(vfa XOR vfb) AND NOT (mask 127) = (if qp_sign vfa \<noteq> qp_sign vfb then bit_at 127 else 0)"
           "(vfb XOR vfa) AND NOT (mask 127) = (if qp_sign vfa \<noteq> qp_sign vfb then bit_at 127 else 0)"
    by (auto simp add: sign_xor)
  have 1: "vec_xsaddqpo vfa vfb = vfa" if "is_inf vfb" "qp_sign vfb = qp_sign vfa"
    using that na by (simp add: add_special[OF nf(1)] inf_not_nan)
  have 2: "vec_xsaddqpo vfa vfb = vec_const_nanf128" if "is_inf vfb" "qp_sign vfb \<noteq> qp_sign vfa"
    using that na by (auto simp add: add_special[OF nf(1)] inf_not_nan is_inf_def)
  have 3: "vec_xsmulqpo vfa vfb = qp_inf (qp_sign vfa \<noteq> qp_sign vfb)" if "is_inf vfb"
    using that na unfolding mul_special[OF nf(1)] sx
    by (simp add: inf_not_nan is_inf_def qp_inf_eq)
  have 4: "vec_xsmulqpo vfa vfb = qp_inf (qp_sign vfa \<noteq> qp_sign vfb)"
          "vec_xsmulqpo vfb vfa = qp_inf (qp_sign vfa \<noteq> qp_sign vfb)"
    if "is_finite vfb" "\<not> is_zero vfb"
    using that na unfolding mul_special[OF nf(1)] mul_special[OF nf(2)] sx
    by (simp_all add: finite_not_nan is_finite_def qp_inf_eq)
  have 5: "vec_xsmulqpo vfa vfb = vec_const_nanf128" "vec_xsmulqpo vfb vfa = vec_const_nanf128"
    if "is_zero vfb"
    using that na unfolding mul_special[OF nf(1)] mul_special[OF nf(2)]
    by (simp_all add: is_zero_def is_nan_def)
  show ?thesis
    using 1 2 3 4 5 default_nan_fields by (simp add: bit_at_def)
qed

theorem infinity_table_witness:
  "is_inf 0x7fff0000000000000000000000000000
   \<and> vec_xsaddqpo 0x7fff0000000000000000000000000000 0x7fff0000000000000000000000000000
       = 0x7fff0000000000000000000000000000
   \<and> vec_xsaddqpo 0x7fff0000000000000000000000000000 0xffff0000000000000000000000000000
       = 0x7fff8000000000000000000000000000
   \<and> vec_xsmulqpo 0x7fff0000000000000000000000000000 0xffff0000000000000000000000000000
       = 0xffff0000000000000000000000000000
   \<and> vec_xsmulqpo 0x7fff0000000000000000000000000000 0xbfff0000000000000000000000000000
       = 0xffff0000000000000000000000000000
   \<and> vec_xsmulqpo 0x7fff0000000000000000000000000000 0 = 0x7fff8000000000000000000000000000"
proof -
  have h: "is_inf 0x7fff0000000000000000000000000000"
    by (simp add: is_inf_def qp_exp_def qp_frac_def)
  have c: "is_inf 0xffff0000000000000000000000000000"
          "qp_sign 0xffff0000000000000000000000000000"
          "\<not> qp_sign 0x7fff0000000000000000000000000000"
          "qp_sign 0xbfff0000000000000000000000000000"
          "is_finite 0xbfff0000000000000000000000000000"
          "\<not> is_zero 0xbfff0000000000000000000000000000"
          "is_zero 0"
    by (simp_all add: is_inf_def is_finite_def is_zero_def qp_exp_def qp_frac_def qp_sign_def)
  show ?thesis
    using h c
      infinity_table[OF h, of "0x7fff0000000000000000000000000000"]
      infinity_table[OF h, of "0xffff0000000000000000000000000000"]
      infinity_table[OF h, of "0xbfff0000000000000000000000000000"]
      infinity_table[OF h, of 0]
    by (simp add: qp_inf_def vec_const_nanf128_def CONST_VINT128_W_def vui128_of_def)
qed

section \<open>Subtract is add of the negated second operand\<close>

lemma add_finite_eq:
  "is_finite vfa \<Longrightarrow> is_finite vfb \<Longrightarrow>
   vec_xsaddqpo vfa vfb =
     addqpo_finite (vfa AND mask 127) (vfb AND mask 127)
       (vfa AND NOT (mask 127)) (vfb AND NOT (mask 127)) (vec_xxxexpqpp vfa vfb)"
  by (simp add: vec_xsaddqpo_def Let_def finite_branch const_masks vec_and_def vec_andc_def)

lemma sub_finite_eq:
  assumes "is_finite vfa" "is_finite vfb"
  shows "vec_xssubqpo vfa vfb =
     addqpo_finite (vfa AND mask 127) (vfb AND mask 127)
       (vfa AND NOT (mask 127)) (bit_at 127 XOR (vfb AND NOT (mask 127))) (vec_xxxexpqpp vfa vfb)"
  using assms
  unfolding vec_xssubqpo_def Let_def finite_branch vec_nor_def vec_xor_def vec_and_def
    vec_andc_def const_masks or.idem signmask_bit_at
  by simp

lemma neg_operand_parts:
  "(q XOR bit_at 127) AND mask 127 = q AND mask 127"
  "(q XOR bit_at 127) AND NOT (mask 127) = bit_at 127 XOR (q AND NOT (mask 127))"
  "vec_xxxexpqpp vfa (q XOR bit_at 127) = vec_xxxexpqpp vfa q"
proof -
  show "(q XOR bit_at 127) AND mask 127 = q AND mask 127"
    by (rule bit_word_eqI) (auto simp add: bit_simps bit_bit_at)
  show "(q XOR bit_at 127) AND NOT (mask 127) = bit_at 127 XOR (q AND NOT (mask 127))"
    by (rule bit_word_eqI) (auto simp add: bit_simps bit_bit_at)
  show "vec_xxxexpqpp vfa (q XOR bit_at 127) = vec_xxxexpqpp vfa q"
    by (simp add: xxxexpqpp_nat neg_fields)
qed

lemma sub_add_neg:
  assumes "\<not> is_nan vfb \<or> is_nan vfa"
  shows "vec_xssubqpo vfa vfb = vec_xsaddqpo vfa (vec_negf128 vfb)"
proof (cases "is_finite vfa \<and> is_finite vfb")
  case True
  then have "is_finite vfa" "is_finite (vfb XOR bit_at 127)" "is_finite vfb"
    by (simp_all add: neg_classes)
  then show ?thesis
    by (simp add: negf128_eq add_finite_eq sub_finite_eq neg_operand_parts)
next
  case False
  then have nf: "\<not> (is_finite vfa \<and> is_finite (vfb XOR bit_at 127))"
    by (simp add: neg_classes)
  show ?thesis
    using assms unfolding negf128_eq sub_special[OF False] add_special[OF nf]
    by (auto simp add: neg_classes neg_fields signmask_bit_at)
qed

text \<open>
  Claim C5, as the code has it.  Whenever the second operand is not a NaN,
  \<^verbatim>\<open>vec_xssubqpo (vfa, vfb)\<close> is \<^verbatim>\<open>vec_xsaddqpo (vfa, -vfb)\<close>.  A NaN first operand is returned
  with the quiet bit ORed in.  When only the second operand is a NaN, it is returned
  with the quiet bit ORed in and its own sign: it is not negated first.
\<close>

theorem sub_is_add_negated:
  "(\<not> is_nan vfb \<longrightarrow> vec_xssubqpo vfa vfb = vec_xsaddqpo vfa (vec_negf128 vfb))
   \<and> (is_nan vfa \<longrightarrow> vec_xssubqpo vfa vfb = vfa OR bit_at 111)
   \<and> (is_nan vfb \<and> \<not> is_nan vfa \<longrightarrow>
        vec_xssubqpo vfa vfb = vfb OR bit_at 111
      \<and> qp_sign (vec_xssubqpo vfa vfb) = qp_sign vfb
      \<and> vec_xssubqpo vfa vfb \<noteq> vec_xsaddqpo vfa (vec_negf128 vfb))"
proof -
  have 1: "vec_xssubqpo vfa vfb = vfa OR bit_at 111" if "is_nan vfa"
    using that nan_not_finite[OF that] by (simp add: sub_special)
  have 2: "vec_xssubqpo vfa vfb = vfb OR bit_at 111" if "is_nan vfb" "\<not> is_nan vfa"
    using that nan_not_finite[OF that(1)] by (simp add: sub_special)
  have 3: "vec_xsaddqpo vfa (vec_negf128 vfb) = (vfb XOR bit_at 127) OR bit_at 111"
    if "is_nan vfb" "\<not> is_nan vfa"
  proof -
    have "is_nan (vfb XOR bit_at 127)"
      using that by (simp add: neg_classes)
    then show ?thesis
      using that nan_not_finite[of "vfb XOR bit_at 127"]
      by (simp add: negf128_eq add_special)
  qed
  have 4: "vfb OR bit_at 111 \<noteq> (vfb XOR bit_at 127) OR bit_at 111"
  proof
    assume "vfb OR bit_at 111 = (vfb XOR bit_at 127) OR bit_at 111"
    then have "bit (vfb OR bit_at 111) 127 = bit ((vfb XOR bit_at 127) OR bit_at 111) 127"
      by simp
    then show False
      by (simp add: bit_simps bit_bit_at)
  qed
  show ?thesis
    using 1 2 3 4 sub_add_neg[of vfb vfa] by (simp add: quiet_fields)
qed

theorem sub_is_add_negated_witness:
  "\<not> is_nan 0x3fff0000000000000000000000000000
   \<and> vec_xssubqpo 0x40008000000000000000000000000000 0x3fff0000000000000000000000000000
      = vec_xsaddqpo 0x40008000000000000000000000000000
          (vec_negf128 0x3fff0000000000000000000000000000)
   \<and> is_nan 0xffff4000000000000000000000000001
   \<and> vec_xssubqpo 0x3fff0000000000000000000000000000 0xffff4000000000000000000000000001
      = 0xffffc000000000000000000000000001
   \<and> vec_xssubqpo 0x7fff4000000000000000000000000001 0x3fff0000000000000000000000000000
      = 0x7fffc000000000000000000000000001"
proof -
  have c: "\<not> is_nan 0x3fff0000000000000000000000000000"
          "is_nan 0xffff4000000000000000000000000001"
          "is_nan 0x7fff4000000000000000000000000001"
    by (simp_all add: is_nan_def qp_exp_def qp_frac_def)
  have 1: "vec_xssubqpo 0x40008000000000000000000000000000 0x3fff0000000000000000000000000000
      = vec_xsaddqpo 0x40008000000000000000000000000000
          (vec_negf128 0x3fff0000000000000000000000000000)"
    using c(1) sub_is_add_negated[of "0x3fff0000000000000000000000000000"
                                     "0x40008000000000000000000000000000"]
    by blast
  have 2: "vec_xssubqpo 0x3fff0000000000000000000000000000 0xffff4000000000000000000000000001
      = 0xffff4000000000000000000000000001 OR bit_at 111"
    using c(1,2) sub_is_add_negated[of "0xffff4000000000000000000000000001"
                                       "0x3fff0000000000000000000000000000"]
    by blast
  have 3: "vec_xssubqpo 0x7fff4000000000000000000000000001 0x3fff0000000000000000000000000000
      = 0x7fff4000000000000000000000000001 OR bit_at 111"
    using c(3) sub_is_add_negated[of "0x3fff0000000000000000000000000000"
                                     "0x7fff4000000000000000000000000001"]
    by blast
  show ?thesis
    unfolding 1 2 3 using c by (simp add: bit_at_def)
qed

text \<open>
  The claim as it was stated fails when both operands are NaNs: the first operand is
  propagated, not the second.
\<close>

theorem sub_second_nan_counterexample:
  "is_nan 0x7fff8000000000000000000000000002
   \<and> vec_xssubqpo 0x7fff8000000000000000000000000001 0x7fff8000000000000000000000000002
       \<noteq> vec_or 0x7fff8000000000000000000000000002 vec_mask128_f128Qbit"
proof -
  have c: "is_nan 0x7fff8000000000000000000000000002"
          "is_nan 0x7fff8000000000000000000000000001"
    by (simp_all add: is_nan_def qp_exp_def qp_frac_def)
  have "\<not> (is_finite 0x7fff8000000000000000000000000001
            \<and> is_finite 0x7fff8000000000000000000000000002)"
    by (simp add: is_finite_def qp_exp_def)
  from sub_special[OF this] c show ?thesis
    by (simp add: vec_or_def qbit_const bit_at_def)
qed

section \<open>Round to odd\<close>

lemma addcuq_ones: "vec_addcuq p (- 1) = (if p = 0 then 0 else 1)"
proof -
  have "unat (- 1 :: 128 word) = 2 ^ 128 - 1"
    by (simp add: unsigned_minus_1_eq_mask mask_eq_exp_minus_1)
  moreover have "(unat p = 0) = (p = 0)"
    by (simp add: unat_eq_0)
  ultimately show ?thesis
    unfolding vec_addcuq_def by (auto simp add: Suc_le_eq)
qed

lemma round_odd_grx_eq:
  "round_odd_grx s_sig = drop_bit 3 s_sig OR (if take_bit 3 s_sig = 0 then 0 else 1)"
proof -
  have "vec_splat_u128 7 = mask 3"
    by (simp add: vec_splat_u128_def mask_eq_exp_minus_1)
  then show ?thesis
    by (simp add: round_odd_grx_def Let_def vec_and_def vec_or_def vec_srqi_def const_masks
        addcuq_ones take_bit_eq_mask)
qed

lemma round_odd_low_eq:
  "round_odd_low q_sig p_sig_l = q_sig OR (if p_sig_l = 0 then 0 else 1)"
  by (simp add: round_odd_low_def Let_def vec_or_def const_masks addcuq_ones)

lemma drop_lsb_or_one: "drop_bit 1 (x OR 1) = drop_bit 1 x" for x :: "128 word"
  by (rule bit_word_eqI) (auto simp add: bit_simps)

section \<open>Operands of add and subtract\<close>

lemma lanes32_of_exp:
  "vui32 (vui128_of_dw (exp_lane a, exp_lane b)) = [0, ucast (exp_lane a), 0, ucast (exp_lane b)]"
  unfolding vui32_def vui128_of_dw_def fst_conv snd_conv list.inject exp_lane_def
  apply (intro conjI)
      apply (rule bit_word_eqI; simp add: bit_simps)
     apply (rule bit_word_eqI; auto simp add: bit_simps)
    apply (rule bit_word_eqI; simp add: bit_simps)
   apply (rule bit_word_eqI; auto simp add: bit_simps)
  apply simp
  done

lemma lanes32_zero: "vui32 0 = [0, 0, 0, 0]"
  by (simp add: vui32_def)

lemma exp_lane32_zero: "((ucast (exp_lane q) :: 32 word) = 0) = (exp_lane q = 0)"
proof -
  have "(ucast (ucast (exp_lane q) :: 32 word) :: 64 word) = exp_lane q"
    unfolding exp_lane_def by (rule bit_word_eqI) (auto simp add: bit_simps)
  then show ?thesis
    by (metis ucast_0)
qed

lemma x_norm_eq:
  "vec_cmpgt (vui32 (vui128_of_dw (exp_lane a, exp_lane b))) (vui32 0)
     = [0, vb (exp_lane a \<noteq> 0), 0, vb (exp_lane b \<noteq> 0)]"
  by (simp add: lanes32_of_exp lanes32_zero vec_cmpgt_def word_greater_zero_iff
      exp_lane32_zero)

lemma splat4: "vec_splat [w0, w1, w2, w3] VEC_WE_1 = [w1, w1, w1, w1]"
  "vec_splat [w0, w1, w2, w3] VEC_WE_3 = [w3, w3, w3, w3]"
  by (simp_all add: vec_splat_def VEC_WE_1_def VEC_WE_3_def)

lemma vui128_of_vb4: "vui128_of [vb c, vb c, vb c, vb c :: 32 word] = vb c"
  by (simp add: vui128_of_def vb_def unsigned_minus_1_eq_mask mask_eq_exp_minus_1)

lemma norm_lanes64:
  "vui64 (vui128_of [0, vb ca, 0, vb cb :: 32 word])
     = (if ca then mask 32 else 0, if cb then mask 32 else 0)"
  by (simp add: vui64_def vui128_of_def vb_def unsigned_minus_1_eq_mask mask_eq_exp_minus_1)

lemma exp_lane_mask32: "exp_lane q AND mask 32 = exp_lane q"
  unfolding exp_lane_def by (rule bit_word_eqI) (auto simp add: bit_simps)

lemma one_andc_mask32: "(1::64 word) AND NOT (mask 32) = 0"
  by (rule bit_word_eqI) (auto simp add: bit_simps)

lemma emin_select:
  "vec_selud (vec_splat_u64 1) (exp_lane a, exp_lane b)
      (vui64 (vui128_of [0, vb (exp_lane a \<noteq> 0), 0, vb (exp_lane b \<noteq> 0) :: 32 word]))
    = (if exp_lane a = 0 then 1 else exp_lane a, if exp_lane b = 0 then 1 else exp_lane b)"
  by (simp add: norm_lanes64 vec_selud_def vec_splat_u64_def exp_lane_mask32 one_andc_mask32)

lemma hidden_const: "vec_mask128_f128Lbit = bit_at 112"
  by (simp add: vec_mask128_f128Lbit_def CONST_VINT128_W_def vui128_of_def bit_at_def)

lemma sig_word_eq: "sig_word q = qp_frac q OR (if exp_lane q = 0 then 0 else bit_at 112)"
  by (simp add: sig_word_def bit_at_def)

lemma insert_hidden:
  "vec_sel (vec_and (take_bit 127 q) (mask 112)) (vb c) (bit_at 112)
     = qp_frac q OR (if c then bit_at 112 else 0)"
  unfolding vec_sel_def vec_and_def qp_frac_def
  by (rule bit_word_eqI) (auto simp add: bit_simps bit_bit_at vb_def)

lemma lanes64_ones: "vui64 (- 1) = (- 1, - 1)"
proof -
  have "(ucast (drop_bit 64 (- 1 :: 128 word)) :: 64 word) = - 1"
    by (rule bit_word_eqI) (auto simp add: bit_simps)
  moreover have "(ucast (- 1 :: 128 word) :: 64 word) = - 1"
    by (rule bit_word_eqI) (auto simp add: bit_simps)
  ultimately show ?thesis
    by (simp add: vui64_def)
qed

lemma lanes64_zero: "vui64 0 = (0, 0)"
  by (simp add: vui64_def)

lemma swap_lanes:
  "vec_selud (x, y) (vec_swapd (x, y)) (vui64 (vb c)) = (if c then (y, x) else (x, y))"
  by (simp add: vec_selud_def vec_swapd_def vb_def lanes64_ones lanes64_zero)

lemma sel_vb: "vec_sel x y (vb c) = (if c then y else x)"
  by (simp add: vec_sel_def vb_def)

lemma setb_sq_xor:
  "vec_setb_sq (vec_xor (a AND NOT (mask 127)) (b AND NOT (mask 127))) = vb (qp_sign a \<noteq> qp_sign b)"
  by (simp add: vec_setb_sq_def vec_xor_def qp_sign_def bit_simps)

lemma addqpo_operands_eq:
  "addqpo_operands (take_bit 127 vfa) (take_bit 127 vfb) sa sb (exp_lane vfa, exp_lane vfb)
   = (let sw = take_bit 127 vfa < take_bit 127 vfb;
          l = (if sw then vfb else vfa); s = (if sw then vfa else vfb);
          el = (if exp_lane l = 0 then 1 else exp_lane l);
          es = (if exp_lane s = 0 then 1 else exp_lane s)
      in (push_bit 3 (sig_word l), push_bit 3 (sig_word s), (el, el), (es, es),
          (if sw then sb else sa), vec_setb_sq (vec_xor sa sb)))"
  unfolding addqpo_operands_def Let_def x_norm_eq splat4 vui128_of_vb4 emin_select
    const_masks hidden_const insert_hidden vec_cmpltuq_def swap_lanes sel_vb vec_slqi_def
  by (simp add: vec_splatd_def VEC_DW_H_def VEC_DW_L_def sig_word_eq)
section \<open>The finite path of add\<close>

lemma xxxexpqpp_lanes: "vec_xxxexpqpp vfa vfb = (exp_lane vfa, exp_lane vfb)"
  by (simp add: xxxexpqpp_bits exp_lane_def)

lemma exp_lane_nat: "exp_lane q = of_nat (qp_exp q)"
  by (simp add: exp_lane_def qp_exp_def)

lemma unat_exp_lane: "unat (exp_lane q) = qp_exp q"
  by (simp add: exp_lane_nat exp_lane_unat)

lemma exp_lane_zero: "(exp_lane q = 0) = (qp_exp q = 0)"
  using unat_exp_lane[of q] by (metis unat_eq_0)

lemma addqpo_operands_lanes:
  "addqpo_operands (take_bit 127 vfa) (take_bit 127 vfb) sa sb (exp_lane vfa, exp_lane vfb)
   = (if take_bit 127 vfa < take_bit 127 vfb
      then (push_bit 3 (sig_word vfb), push_bit 3 (sig_word vfa),
            (emin_lane vfb, emin_lane vfb), (emin_lane vfa, emin_lane vfa),
            sb, vec_setb_sq (vec_xor sa sb))
      else (push_bit 3 (sig_word vfa), push_bit 3 (sig_word vfb),
            (emin_lane vfa, emin_lane vfa), (emin_lane vfb, emin_lane vfb),
            sa, vec_setb_sq (vec_xor sa sb)))"
  by (simp add: addqpo_operands_eq Let_def emin_lane_def)

text \<open>The operand of greater magnitude, the other one, and the alignment of the
  latter.\<close>

lemma addqpo_s_sig_eq:
  "addqpo_s_sig vfa vfb =
     (let sw = take_bit 127 vfa < take_bit 127 vfb;
          l = (if sw then vfb else vfa); s = (if sw then vfa else vfb)
      in addqpo_sum (push_bit 3 (sig_word l))
           (addqpo_align (push_bit 3 (sig_word s)) (emin_lane l, emin_lane l)
              (emin_lane s, emin_lane s))
           (vb (qp_sign vfa \<noteq> qp_sign vfb)))"
  unfolding addqpo_s_sig_def Let_def const_masks vec_and_def vec_andc_def xxxexpqpp_lanes
    take_bit_eq_mask[symmetric] addqpo_operands_lanes setb_sq_xor
  by simp

lemma add_finite_unfold:
  assumes "is_finite vfa" "is_finite vfb"
  shows "vec_xsaddqpo vfa vfb =
     (let sw = take_bit 127 vfa < take_bit 127 vfb;
          l = (if sw then vfb else vfa);
          q_sign = l AND NOT (mask 127);
          s_sig = addqpo_s_sig vfa vfb
      in if s_sig = 0 then qp_zero (qp_sign vfa \<and> qp_sign vfb)
         else
           (let (s_sig, q_exp) = addqpo_normalize s_sig (emin_lane l, emin_lane l);
                q_sig = round_odd_grx s_sig
            in if vec_cmpud_all_ge q_exp (0x7fff, 0x7fff) then qp_max (qp_sign l)
               else vec_xsiexpqp (q_sig OR q_sign) q_exp))"
proof -
  have m: "CONST_VINT128_W 0x7ffeffff (- 1) (- 1) (- 1) = 0x7ffeffffffffffffffffffffffffffff"
    by (simp add: CONST_VINT128_W_def vui128_of_def unsigned_minus_1_eq_mask mask_eq_exp_minus_1)
  show ?thesis
    unfolding add_finite_eq[OF assms] addqpo_finite_def addqpo_s_sig_eq
    unfolding Let_def xxxexpqpp_lanes take_bit_eq_mask[symmetric] addqpo_operands_lanes
      setb_sq_xor const_masks vec_cmpuq_all_eq_def mask64_exp vec_or_def m
    by (auto simp add: split_def vec_sel_def andc_magmask qp_zero_def qp_max_def bit_at_def)
qed

section \<open>The sign of a zero sum\<close>

lemma magnitude_fields:
  assumes "take_bit 127 a = take_bit 127 b"
  shows "exp_lane a = exp_lane b" "qp_frac a = qp_frac b" "sig_word a = sig_word b"
    "emin_lane a = emin_lane b" "is_zero a = is_zero b" "is_finite a = is_finite b"
proof -
  have e: "exp_lane q = ucast (take_bit 15 (drop_bit 112 (take_bit 127 q)))" for q
    unfolding exp_lane_def by (rule bit_word_eqI) (auto simp add: bit_simps)
  have f: "qp_frac q = take_bit 112 (take_bit 127 q)" for q
    by (simp add: qp_frac_def)
  show 1: "exp_lane a = exp_lane b"
    unfolding e assms ..
  show 2: "qp_frac a = qp_frac b"
    unfolding f assms ..
  show "sig_word a = sig_word b" "emin_lane a = emin_lane b"
    by (simp_all add: sig_word_def emin_lane_def 1 2)
  show "is_zero a = is_zero b"
    by (simp add: is_zero_iff assms)
  have "qp_exp a = qp_exp b"
    using 1 unat_exp_lane by metis
  then show "is_finite a = is_finite b"
    by (simp add: is_finite_def)
qed

lemma zero_sig_word: "is_zero q \<Longrightarrow> sig_word q = 0"
  by (simp add: sig_word_def is_zero_def exp_lane_zero)

lemma s_sig_cancel:
  assumes "take_bit 127 vfa = take_bit 127 vfb" "qp_sign vfa \<noteq> qp_sign vfb \<or> is_zero vfa"
  shows "addqpo_s_sig vfa vfb = 0"
proof -
  have "sig_word vfa = 0" if "is_zero vfa"
    using that by (rule zero_sig_word)
  then show ?thesis
    using assms(2)
    unfolding addqpo_s_sig_eq Let_def
    by (auto simp add: assms(1) magnitude_fields[OF assms(1)] addqpo_align_def
        vec_cmpud_all_lt_def addqpo_sum_def sel_vb vec_adduqm_def vec_subuqm_def)
qed

text \<open>
  Claim C6.  When the combined significand of two finite operands is zero, the result
  of \<^verbatim>\<open>vec_xsaddqpo\<close> is \<open>+0.0\<close> if the operand signs differ and the zero of the common sign
  if they are equal.  The combined significand is zero when both operands are zeros and
  when two operands of equal magnitude and opposite sign cancel.  So the sum of \<open>+0.0\<close>
  and \<open>-0.0\<close> is \<open>+0.0\<close>.
\<close>

theorem add_zero_sign:
  "(is_finite vfa \<and> is_finite vfb \<and> addqpo_s_sig vfa vfb = 0 \<longrightarrow>
      vec_xsaddqpo vfa vfb =
        (if qp_sign vfa \<noteq> qp_sign vfb then qp_zero False else qp_zero (qp_sign vfa)))
   \<and> (is_zero vfa \<and> is_zero vfb \<longrightarrow> addqpo_s_sig vfa vfb = 0)
   \<and> (take_bit 127 vfa = take_bit 127 vfb \<and> qp_sign vfa \<noteq> qp_sign vfb \<longrightarrow>
        addqpo_s_sig vfa vfb = 0)
   \<and> vec_xsaddqpo (qp_zero False) (qp_zero True) = qp_zero False
   \<and> vec_xsaddqpo (qp_zero True) (qp_zero False) = qp_zero False
   \<and> vec_xsaddqpo (qp_zero True) (qp_zero True) = qp_zero True"
proof -
  have 1: "vec_xsaddqpo vfa vfb =
        (if qp_sign vfa \<noteq> qp_sign vfb then qp_zero False else qp_zero (qp_sign vfa))"
    if "is_finite vfa" "is_finite vfb" "addqpo_s_sig vfa vfb = 0" for vfa vfb
    unfolding add_finite_unfold[OF that(1,2)] Let_def that(3) by auto
  have 2: "addqpo_s_sig vfa vfb = 0" if "is_zero vfa" "is_zero vfb" for vfa vfb
    using that by (simp add: s_sig_cancel is_zero_iff)
  have z: "is_zero (qp_zero s)" "is_finite (qp_zero s)" "qp_sign (qp_zero s) = s" for s
    by (simp_all add: is_zero_def is_finite_def qp_exp_def qp_frac_def qp_sign_def qp_zero_def)
  have 3: "vec_xsaddqpo (qp_zero s) (qp_zero t) = qp_zero (s \<and> t)" for s t
    using 1[OF z(2) z(2) 2[OF z(1) z(1)], of s t] by (auto simp add: z)
  show ?thesis
    using 1 2 3 s_sig_cancel by simp
qed

theorem add_zero_sign_witness:
  "is_finite 0x3fff0000000000000000000000000000
   \<and> is_finite 0xbfff0000000000000000000000000000
   \<and> addqpo_s_sig 0x3fff0000000000000000000000000000 0xbfff0000000000000000000000000000 = 0
   \<and> vec_xsaddqpo 0x3fff0000000000000000000000000000 0xbfff0000000000000000000000000000 = 0
   \<and> is_zero 0x80000000000000000000000000000000 \<and> is_zero 0
   \<and> addqpo_s_sig 0x80000000000000000000000000000000 0 = 0
   \<and> vec_xsaddqpo 0x80000000000000000000000000000000 0x80000000000000000000000000000000
      = 0x80000000000000000000000000000000"
proof -
  have c: "is_finite 0x3fff0000000000000000000000000000"
          "is_finite 0xbfff0000000000000000000000000000"
          "is_finite 0x80000000000000000000000000000000"
          "is_zero 0x80000000000000000000000000000000" "is_zero 0"
          "\<not> qp_sign 0x3fff0000000000000000000000000000"
          "qp_sign 0xbfff0000000000000000000000000000"
          "qp_sign 0x80000000000000000000000000000000"
          "take_bit 127 (0x3fff0000000000000000000000000000 :: 128 word)
           = take_bit 127 0xbfff0000000000000000000000000000"
    by (simp_all add: is_finite_def is_zero_def qp_exp_def qp_frac_def qp_sign_def)
  note t1 = add_zero_sign[of "0x3fff0000000000000000000000000000"
                             "0xbfff0000000000000000000000000000"]
  note t2 = add_zero_sign[of "0x80000000000000000000000000000000" 0]
  note t3 = add_zero_sign[of "0x80000000000000000000000000000000"
                             "0x80000000000000000000000000000000"]
  have s1: "addqpo_s_sig 0x3fff0000000000000000000000000000 0xbfff0000000000000000000000000000 = 0"
    using t1 c by blast
  have s2: "addqpo_s_sig 0x80000000000000000000000000000000 0 = 0"
    using t2 c by blast
  have s3: "addqpo_s_sig 0x80000000000000000000000000000000 0x80000000000000000000000000000000 = 0"
    using t3 c by blast
  have r1: "vec_xsaddqpo 0x3fff0000000000000000000000000000 0xbfff0000000000000000000000000000
            = qp_zero False"
    using t1 c s1 by simp
  have r3: "vec_xsaddqpo 0x80000000000000000000000000000000 0x80000000000000000000000000000000
            = qp_zero True"
    using t3 c s3 by simp
  show ?thesis
    using c s1 s2 r1 r3 by (simp add: qp_zero_def)
qed

section \<open>Extraction of exponent, significand and sign\<close>

lemma xsxexpqp_eq: "vec_xsxexpqp f = (exp_lane f, 0)"
  unfolding vec_xsxexpqp_def Let_def const_masks vec_and_def vec_sld_def vui64_def exp_lane_def
    prod.inject
  apply (intro conjI)
   apply (rule bit_word_eqI; auto simp add: bit_simps)
  apply (rule bit_word_eqI; auto simp add: bit_simps)
  done

lemma exp_word0:
  "(ucast (drop_bit 96 (f AND push_bit 112 (mask 15))) :: 32 word)
     = push_bit 16 (ucast (exp_lane f))"
  unfolding exp_lane_def
  by (rule bit_word_eqI) (auto simp add: bit_simps)

lemma exp_words123:
  "(ucast (drop_bit 64 (f AND push_bit 112 (mask 15))) :: 32 word) = 0"
  "(ucast (drop_bit 32 (f AND push_bit 112 (mask 15))) :: 32 word) = 0"
  "(ucast (f AND push_bit 112 (mask 15)) :: 32 word) = 0"
  by (rule bit_word_eqI; auto simp add: bit_simps)+

lemma expmask_words: "vui32 (push_bit 112 (mask 15)) = [0x7fff0000, 0, 0, 0]"
  by (simp add: vui32_def mask_eq_exp_minus_1)

lemma exp_word0_cases:
  "((push_bit 16 (ucast (exp_lane f)) :: 32 word) = 0x7fff0000) = (qp_exp f = 32767)"
  "((push_bit 16 (ucast (exp_lane f)) :: 32 word) = 0) = (qp_exp f = 0)"
proof -
  have g: "(ucast (drop_bit 16 (push_bit 16 (ucast (exp_lane f)) :: 32 word)) :: 64 word)
           = exp_lane f"
    unfolding exp_lane_def by (rule bit_word_eqI) (auto simp add: bit_simps)
  have "((push_bit 16 (ucast (exp_lane f)) :: 32 word) = 0x7fff0000) = (exp_lane f = 0x7fff)"
  proof
    assume "(push_bit 16 (ucast (exp_lane f)) :: 32 word) = 0x7fff0000"
    then have "(ucast (drop_bit 16 (push_bit 16 (ucast (exp_lane f)) :: 32 word)) :: 64 word)
               = ucast (drop_bit 16 (0x7fff0000 :: 32 word))"
      by simp
    then show "exp_lane f = 0x7fff"
      unfolding g by simp
  next
    assume "exp_lane f = 0x7fff"
    then show "(push_bit 16 (ucast (exp_lane f)) :: 32 word) = 0x7fff0000"
      by simp
  qed
  then show "((push_bit 16 (ucast (exp_lane f)) :: 32 word) = 0x7fff0000) = (qp_exp f = 32767)"
    by (simp add: exp_lane_nat exp_lane_eq)
  have "((push_bit 16 (ucast (exp_lane f)) :: 32 word) = 0) = (exp_lane f = 0)"
  proof
    assume "(push_bit 16 (ucast (exp_lane f)) :: 32 word) = 0"
    then have "(ucast (drop_bit 16 (push_bit 16 (ucast (exp_lane f)) :: 32 word)) :: 64 word)
               = ucast (drop_bit 16 (0 :: 32 word))"
      by simp
    then show "exp_lane f = 0"
      unfolding g by simp
  next
    assume "exp_lane f = 0"
    then show "(push_bit 16 (ucast (exp_lane f)) :: 32 word) = 0"
      by simp
  qed
  then show "((push_bit 16 (ucast (exp_lane f)) :: 32 word) = 0) = (qp_exp f = 0)"
    by (simp add: exp_lane_zero)
qed

lemma normal_mask:
  "vec_nor (vui128_of [vb c, - 1, - 1, - 1 :: 32 word]) (vui128_of [vb d, - 1, - 1, - 1 :: 32 word])
     = (if c \<or> d then 0 else NOT (mask 96))"
  by (simp add: vec_nor_def vui128_of_def vb_def unsigned_minus_1_eq_mask mask_eq_exp_minus_1)

lemma xsxsigqp_eq:
  "vec_xsxsigqp f =
     qp_frac f OR (if qp_exp f = 32767 \<or> qp_exp f = 0 then 0 else bit_at 112)"
proof -
  have s: "vec_sel (f AND mask 112) (if c then 0 else NOT (mask 96)) (bit_at 112)
           = qp_frac f OR (if c then 0 else bit_at 112)" for c
    unfolding vec_sel_def qp_frac_def
    by (rule bit_word_eqI) (auto simp add: bit_simps bit_bit_at)
  have w: "vui32 (f AND push_bit 112 (mask 15)) = [push_bit 16 (ucast (exp_lane f)), 0, 0, 0]"
    unfolding vui32_def exp_word0 exp_words123 ..
  show ?thesis
    unfolding vec_xsxsigqp_def Let_def const_masks hidden_const vec_and_def w expmask_words
      lanes32_zero
    by (simp add: vec_cmpeq_def exp_word0_cases normal_mask s)
qed

lemma xsxsigqp_finite:
  "is_finite f \<Longrightarrow> vec_xsxsigqp f = sig_word f"
  by (simp add: xsxsigqp_eq sig_word_eq is_finite_def exp_lane_zero)

lemma setb_qp_eq: "vec_setb_qp f = vb (qp_sign f)"
proof -
  have "signed_drop_bit 7 (b :: 8 word) = vb (bit b 7)" for b
    by (rule bit_word_eqI) (auto simp add: bit_simps vb_def bit_signed_drop_bit_iff not_le)
  moreover have "bit (ucast (drop_bit 120 f) :: 8 word) 7 = bit f 127"
    by (simp add: bit_simps)
  moreover have "vui128_of [vb c, vb c, vb c, vb c, vb c, vb c, vb c, vb c,
                            vb c, vb c, vb c, vb c, vb c, vb c, vb c, vb c :: 8 word] = vb c" for c
    by (simp add: vui128_of_def vb_def unsigned_minus_1_eq_mask mask_eq_exp_minus_1)
  ultimately show ?thesis
    by (simp add: vec_setb_qp_def Let_def vui8_def vec_splat_def VEC_BYTE_H_def vec_splat_u8_def
        vec_sra_def qp_sign_def)
qed

section \<open>Narrowing a NaN or an infinity to double precision\<close>

lemma naninf_branch:
  "vec_cmpud_all_eq (vec_splatd (exp_lane f, 0) VEC_DW_H) (CONST_VINT64_DW 0x7fff 0x7fff)
     = (qp_exp f = 32767)"
  by (simp add: vec_cmpud_all_eq_def vec_splatd_def CONST_VINT64_DW_def exp_lane_nat exp_lane_eq)

lemma quiet_dw: "vui128_of_dw (CONST_VINT64_DW 0x0000800000000000 0) = bit_at 111"
  by (simp add: vui128_of_dw_def CONST_VINT64_DW_def bit_at_def)

lemma qpdpo_naninf:
  assumes "qp_exp f = 32767"
  shows "vec_xscvqpdpo f =
     (xviexpdp_dw
        (ucast (drop_bit 64 (push_bit 64
           (ucast (ucast (drop_bit 64 (push_bit 4
              (if qp_frac f = 0 then qp_frac f else qp_frac f OR bit_at 111))) :: 64 word))
          OR (f AND NOT (mask 127))))) 0x7ff, 0)"
proof -
  have z: "xviexpdp_dw 0 0 = 0"
    by (simp add: xviexpdp_dw_def)
  have l: "(ucast (push_bit 64 (ucast (h :: 64 word)) OR (f AND NOT (mask 127))) :: 64 word) = 0" for h
    by (rule bit_word_eqI) (auto simp add: bit_simps)
  show ?thesis
    unfolding vec_xscvqpdpo_def Let_def xsxexpqp_eq naninf_branch xsxsigqp_eq quiet_dw
    using assms
    by (simp add: vec_cmpequq_def sel_vb vec_or_def vec_and_def vec_slqi_def const_masks
        vui64_def[of "push_bit 4 q" for q] vui128_of_dw_def vec_xviexpdp_def CONST_VINT64_DW_def z
        vui64_def[of "x OR y" for x y] l)
qed

lemma xviexpdp_naninf:
  "xviexpdp_dw s 0x7ff = (s AND NOT (push_bit 52 (mask 11))) OR push_bit 52 (mask 11)"
proof -
  have "take_bit 11 (0x7ff :: 64 word) = mask 11"
    by (simp add: mask_eq_exp_minus_1)
  then show ?thesis
    unfolding xviexpdp_dw_def by simp
qed

lemma narrowed_fields:
  fixes f g :: "128 word"
  defines "d \<equiv> xviexpdp_dw
        (ucast (drop_bit 64 (push_bit 64
           (ucast (ucast (drop_bit 64 (push_bit 4 (qp_frac g))) :: 64 word))
          OR (f AND NOT (mask 127))))) 0x7ff"
  shows "dp_sign d = qp_sign f" "dp_exp d = 2047" "dp_frac d = ucast (drop_bit 60 (qp_frac g))"
proof -
  show "dp_sign d = qp_sign f"
    unfolding d_def dp_sign_def qp_sign_def xviexpdp_naninf qp_frac_def
    by (simp add: bit_simps)
  have "take_bit 11 (drop_bit 52 d) = mask 11"
    unfolding d_def xviexpdp_naninf
    by (rule bit_word_eqI) (auto simp add: bit_simps)
  then show "dp_exp d = 2047"
    by (simp add: dp_exp_def mask_eq_exp_minus_1)
  show "dp_frac d = ucast (drop_bit 60 (qp_frac g))"
    unfolding d_def xviexpdp_naninf dp_frac_def qp_frac_def
    by (rule bit_word_eqI) (auto simp add: bit_simps)
qed

lemma quiet_payload:
  "(ucast (drop_bit 60 (qp_frac f OR bit_at 111)) :: 64 word)
     = set_bit 51 (ucast (drop_bit 60 (qp_frac f)))"
  by (rule bit_word_eqI) (auto simp add: bit_simps bit_bit_at)

lemma frac_top_zero: "qp_frac f = 0 \<Longrightarrow> (ucast (drop_bit 60 (qp_frac f)) :: 64 word) = 0"
  by simp

text \<open>
  Claim C10.  \<^verbatim>\<open>vec_xscvqpdpo\<close> converts a NaN, quiet or signaling, to a double-precision
  NaN of the same sign whose fraction is the high-order 52 bits of the quad-precision
  fraction with the quiet bit, bit 51, set; it converts an infinity to the
  double-precision infinity of the same sign, whose fraction stays zero.  Doubleword 1
  of the result is zero.
\<close>

theorem qpdpo_nan_inf:
  "(is_nan f \<longrightarrow>
      dp_is_nan (fst (vec_xscvqpdpo f)) \<and> bit (fst (vec_xscvqpdpo f)) 51
    \<and> dp_sign (fst (vec_xscvqpdpo f)) = qp_sign f
    \<and> dp_frac (fst (vec_xscvqpdpo f)) = set_bit 51 (ucast (drop_bit 60 (qp_frac f)))
    \<and> snd (vec_xscvqpdpo f) = 0)
   \<and> (is_inf f \<longrightarrow>
      dp_is_inf (fst (vec_xscvqpdpo f)) \<and> \<not> bit (fst (vec_xscvqpdpo f)) 51
    \<and> dp_sign (fst (vec_xscvqpdpo f)) = qp_sign f
    \<and> vec_xscvqpdpo f = (if qp_sign f then 0xfff0000000000000 else 0x7ff0000000000000, 0))"
proof -
  have nan: "dp_is_nan (fst (vec_xscvqpdpo f)) \<and> bit (fst (vec_xscvqpdpo f)) 51
    \<and> dp_sign (fst (vec_xscvqpdpo f)) = qp_sign f
    \<and> dp_frac (fst (vec_xscvqpdpo f)) = set_bit 51 (ucast (drop_bit 60 (qp_frac f)))
    \<and> snd (vec_xscvqpdpo f) = 0" if "is_nan f"
  proof -
    have e: "qp_exp f = 32767" and n: "qp_frac f \<noteq> 0"
      using that by (simp_all add: is_nan_def)
    have q: "qp_frac f OR bit_at 111 = qp_frac (f OR bit_at 111)"
      unfolding qp_frac_def by (rule bit_word_eqI) (auto simp add: bit_simps bit_bit_at)
    let ?d = "fst (vec_xscvqpdpo f)"
    have fr: "dp_frac ?d = set_bit 51 (ucast (drop_bit 60 (qp_frac f)))"
      unfolding qpdpo_naninf[OF e] fst_conv if_not_P[OF n] q narrowed_fields
      unfolding q[symmetric] quiet_payload ..
    have t: "bit (dp_frac ?d) 51"
      unfolding fr by (simp add: bit_simps)
    then have nz: "dp_frac ?d \<noteq> 0"
      by auto
    have b: "bit ?d 51"
      using t by (simp add: dp_frac_def bit_simps)
    have "dp_exp ?d = 2047" "dp_sign ?d = qp_sign f"
      unfolding qpdpo_naninf[OF e] fst_conv if_not_P[OF n] q narrowed_fields
      by simp_all
    then show ?thesis
      using fr b nz by (simp add: dp_is_nan_def qpdpo_naninf[OF e])
  qed
  have inf: "dp_is_inf (fst (vec_xscvqpdpo f)) \<and> \<not> bit (fst (vec_xscvqpdpo f)) 51
    \<and> dp_sign (fst (vec_xscvqpdpo f)) = qp_sign f
    \<and> vec_xscvqpdpo f = (if qp_sign f then 0xfff0000000000000 else 0x7ff0000000000000, 0)"
    if "is_inf f"
  proof -
    have e: "qp_exp f = 32767" and n: "qp_frac f = 0"
      using that by (simp_all add: is_inf_def)
    have v: "vec_xscvqpdpo f = (if qp_sign f then 0xfff0000000000000 else 0x7ff0000000000000, 0)"
      unfolding qpdpo_naninf[OF e] andc_magmask using n
      by (simp add: xviexpdp_dw_def bit_at_def mask_eq_exp_minus_1)
    show ?thesis
      unfolding v
      by (simp add: dp_is_inf_def dp_exp_def dp_frac_def dp_sign_def)
  qed
  show ?thesis
    using nan inf by blast
qed

theorem qpdpo_nan_inf_witness:
  "is_nan 0xffff4000000000000000000000000001
   \<and> dp_is_nan (fst (vec_xscvqpdpo 0xffff4000000000000000000000000001))
   \<and> dp_sign (fst (vec_xscvqpdpo 0xffff4000000000000000000000000001))
   \<and> dp_frac (fst (vec_xscvqpdpo 0xffff4000000000000000000000000001)) = 0xc000000000000
   \<and> is_inf 0xffff0000000000000000000000000000
   \<and> vec_xscvqpdpo 0xffff0000000000000000000000000000 = (0xfff0000000000000, 0)"
proof -
  have c: "is_nan 0xffff4000000000000000000000000001" "is_inf 0xffff0000000000000000000000000000"
    "qp_sign 0xffff4000000000000000000000000001" "qp_sign 0xffff0000000000000000000000000000"
    by (simp_all add: is_nan_def is_inf_def qp_exp_def qp_frac_def qp_sign_def)
  show ?thesis
    using c qpdpo_nan_inf[of "0xffff4000000000000000000000000001"]
      qpdpo_nan_inf[of "0xffff0000000000000000000000000000"]
    by (simp add: qp_frac_def)
qed

section \<open>Significands and magnitudes as numbers\<close>

lemma unat_bit_at: "n < 128 \<Longrightarrow> unat (bit_at n) = 2 ^ n"
  unfolding bit_at_def unsigned_push_bit_eq
  by (simp add: take_bit_nat_eq_self)

lemma unat_or_disjoint:
  fixes x y :: "'a::len word"
  assumes "x AND y = 0"
  shows "unat (x OR y) = unat x + unat y"
proof -
  have "unat x AND unat y = unat (x AND y)"
    by (simp add: unsigned_and_eq)
  then have "unat x AND unat y = 0"
    using assms by simp
  then have "unat x + unat y = unat x OR unat y"
    by (rule disjunctive_add_eq_or)
  then show ?thesis
    by (simp add: unsigned_or_eq)
qed

lemma frac_and_hidden: "qp_frac q AND bit_at 112 = 0"
  unfolding qp_frac_def by (rule bit_word_eqI) (auto simp add: bit_simps bit_bit_at)

lemma unat_sig_word: "unat (sig_word q) = qp_sig q"
  by (simp add: sig_word_eq qp_sig_def exp_lane_zero unat_or_disjoint frac_and_hidden unat_bit_at)

lemma qp_sig_less: "qp_sig q < 2 ^ 113"
  using qp_frac_less[of q] by (simp add: qp_sig_def)

lemma qp_sig_normal: "qp_exp q \<noteq> 0 \<Longrightarrow> 2 ^ 112 \<le> qp_sig q"
  by (simp add: qp_sig_def)

lemma sig_word_bits: "bit (sig_word q) n \<Longrightarrow> n < 113"
  by (auto simp add: sig_word_eq qp_frac_def bit_simps bit_bit_at split: if_splits)

text \<open>Powers of two, kept as powers.\<close>

lemma scaled_less:
  fixes s :: nat
  assumes "s < 2 ^ m" "e \<le> k"
  shows "s * 2 ^ e < 2 ^ (m + k)"
proof -
  have "s * 2 ^ e < 2 ^ m * 2 ^ e"
    using assms(1) by simp
  also have "\<dots> = 2 ^ (m + e)"
    by (simp only: power_add)
  also have "\<dots> \<le> 2 ^ (m + k)"
    using assms(2) by (intro power_increasing) simp_all
  finally show ?thesis .
qed

lemma scaled_ge:
  fixes s :: nat
  assumes "2 ^ m \<le> s" "k \<le> e"
  shows "2 ^ (m + k) \<le> s * 2 ^ e"
proof -
  have "(2::nat) ^ (m + k) \<le> 2 ^ (m + e)"
    using assms(2) by (intro power_increasing) simp_all
  also have "\<dots> = 2 ^ m * 2 ^ e"
    by (simp only: power_add)
  also have "\<dots> \<le> s * 2 ^ e"
    using assms(1) by simp
  finally show ?thesis .
qed

lemma scaled_div:
  fixes s :: nat
  assumes "k \<le> n"
  shows "s * 2 ^ k div 2 ^ n = s div 2 ^ (n - k)"
proof -
  have "(2::nat) ^ n = 2 ^ k * 2 ^ (n - k)"
    using assms by (simp only: flip: power_add) simp
  then have "s * 2 ^ k div 2 ^ n = (2 ^ k * s) div (2 ^ k * 2 ^ (n - k))"
    by (simp only: mult.commute)
  also have "\<dots> = s div 2 ^ (n - k)"
    by (rule div_mult_mult1) simp
  finally show ?thesis .
qed

section \<open>Quad-precision to unsigned doubleword\<close>

lemma lanes64_roundtrip: "vui64 (vui128_of_dw x) = x"
proof -
  obtain h l where x: "x = (h, l)"
    by (cases x)
  have "(ucast (drop_bit 64 (push_bit 64 (ucast h) OR ucast l :: 128 word)) :: 64 word) = h"
    by (rule bit_word_eqI) (auto simp add: bit_simps dest: bit_imp_le_length)
  moreover have "(ucast (push_bit 64 (ucast h) OR ucast l :: 128 word) :: 64 word) = l"
    by (rule bit_word_eqI) (auto simp add: bit_simps)
  ultimately show ?thesis
    by (simp add: vui64_def vui128_of_dw_def x)
qed

lemma lanes64_vb: "vui64 (vb c) = (vb c, vb c)"
  by (simp add: vb_def lanes64_ones lanes64_zero)

lemma exp_lane_le: "((k :: 64 word) \<le> exp_lane q) = (unat k \<le> qp_exp q)"
  by (simp add: word_le_nat_alt unat_exp_lane)

lemma exp_lane_lt: "(exp_lane q < (k :: 64 word)) = (qp_exp q < unat k)"
  by (simp add: word_less_nat_alt unat_exp_lane)

lemma cvqpudz_naninf:
  assumes "qp_exp q = 32767"
  shows "vec_xscvqpudz q = (if qp_frac q = 0 \<and> \<not> qp_sign q then - 1 else 0, 0)"
  unfolding vec_xscvqpudz_def Let_def xsxexpqp_eq xsxsigqp_eq setb_qp_eq naninf_branch
  using assms
  by (auto simp add: CONST_VINT64_DW_def vec_cmpequq_def vec_andc_def lanes64_vb
      vec_mrgahd_def lanes64_zero lanes64_ones lanes64_roundtrip vui128_of_dw_def[of "(0, 0)"])

lemma cvqpudz_finite:
  assumes "is_finite q"
  shows "vec_xscvqpudz q =
    (if 16383 \<le> qp_exp q \<and> \<not> qp_sign q then
       if qp_exp q < 16447 then
         drop_bit (unat (take_bit 6 (0x403E - exp_lane q)))
           (ucast (drop_bit 64 (push_bit 15 (sig_word q))))
       else - 1
     else 0, 0)"
proof -
  have ne: "qp_exp q \<noteq> 32767"
    using assms by (simp add: is_finite_def)
  have z: "vui128_of_dw (0, 0) = 0"
    by (simp add: vui128_of_dw_def)
  have v: "(vb c = (0 :: 64 word)) = (\<not> c)" for c
    by (simp add: vb_def)
  show ?thesis
    unfolding vec_xscvqpudz_def Let_def xsxexpqp_eq xsxsigqp_finite[OF assms] setb_qp_eq
      naninf_branch
    unfolding CONST_VINT64_DW_def vec_mrgahd_def z lanes64_roundtrip
    using ne
    by (simp add: vec_splatd_def VEC_DW_H_def vec_cmpud_all_ge_def vec_cmpud_all_eq_def
        vec_cmpud_all_lt_def lanes64_vb lanes64_ones lanes64_zero v exp_lane_le exp_lane_lt
        vec_slqi_def vec_subudm_def vec_vsrd_def
        vui64_def[of "push_bit 15 (sig_word q)"])
qed

lemma unat_shifted_sig:
  "unat (drop_bit k (ucast (drop_bit 64 (push_bit 15 (sig_word q))) :: 64 word))
     = qp_sig q div 2 ^ (49 + k)"
proof -
  have a: "qp_sig q * 2 ^ 15 < 2 ^ 128"
    using scaled_less[OF qp_sig_less[of q], of 15 15] by simp
  have b: "qp_sig q * 2 ^ 15 div 2 ^ 64 = qp_sig q div 2 ^ 49"
    using scaled_div[of 15 64 "qp_sig q"] by simp
  have c: "qp_sig q div 2 ^ 49 < 2 ^ 64"
    using qp_sig_less[of q] by (simp add: less_mult_imp_div_less)
  have "unat (push_bit 15 (sig_word q)) = qp_sig q * 2 ^ 15"
    unfolding unsigned_push_bit_eq unat_sig_word
    using a by (simp add: push_bit_eq_mult take_bit_nat_eq_self)
  then have "unat (ucast (drop_bit 64 (push_bit 15 (sig_word q))) :: 64 word) = qp_sig q div 2 ^ 49"
    using b c by (simp add: unsigned_ucast_eq unat_db take_bit_nat_eq_self)
  then show ?thesis
    by (simp add: unat_db div_mult2_eq power_add)
qed

lemma unit_powers:
  "2 ^ 64 * qp_unit = 2 ^ (113 + 16445)"
  "2 ^ 64 * qp_unit = 2 ^ (112 + 16446)"
  "qp_unit = 2 ^ (113 + 16381)"
  "qp_unit = 2 ^ (112 + 16382)"
  "qp_unit \<le> 2 ^ 64 * qp_unit"
  by (simp_all add: qp_unit_def del: power_numeral flip: power_add)

lemma vsrd_count:
  assumes "16383 \<le> qp_exp q" "qp_exp q < 16447"
  shows "unat (take_bit 6 (0x403E - exp_lane q)) = 16446 - qp_exp q"
proof -
  have "exp_lane q \<le> 0x403E"
    using assms by (simp add: word_le_nat_alt unat_exp_lane)
  then have "unat (0x403E - exp_lane q) = 16446 - qp_exp q"
    by (simp add: unat_sub unat_exp_lane)
  then show ?thesis
    using assms by (simp add: unat_tb)
qed

text \<open>
  Claim C8.  \<^verbatim>\<open>vec_xscvqpudz\<close> saturates: its result is zero for a NaN of either sign and
  for every negative operand, all ones for \<open>+\<close>infinity and for every positive finite
  operand of magnitude \<open>2 ^ 64\<close> or more, and the integer part of the value for a
  positive finite operand below \<open>2 ^ 64\<close>, which is zero below 1.  The result is in
  doubleword 0 and doubleword 1 is zero.
\<close>

theorem cvqpudz_saturates: "vec_xscvqpudz q = (cvqpudz_spec q, 0)"
proof (cases "is_finite q")
  case False
  then have e: "qp_exp q = 32767"
    using qp_exp_less[of q] by (simp add: is_finite_def)
  show ?thesis
    unfolding cvqpudz_naninf[OF e] cvqpudz_spec_def
    by (simp add: is_nan_def is_inf_def e)
next
  case True
  then have ne: "qp_exp q \<noteq> 32767" "\<not> is_nan q" "\<not> is_inf q"
    by (simp_all add: is_finite_def is_nan_def is_inf_def)
  consider (neg) "qp_sign q" | (small) "\<not> qp_sign q" "qp_exp q < 16383"
    | (mid) "\<not> qp_sign q" "16383 \<le> qp_exp q" "qp_exp q < 16447"
    | (big) "\<not> qp_sign q" "16447 \<le> qp_exp q"
    by linarith
  then show ?thesis
  proof cases
    case neg
    then show ?thesis
      unfolding cvqpudz_finite[OF True] cvqpudz_spec_def using ne by simp
  next
    case small
    have "qp_mag q < qp_unit"
      unfolding qp_mag_def unit_powers(3)
      using small(2) by (intro scaled_less qp_sig_less) simp
    then have "\<not> 2 ^ 64 * qp_unit \<le> qp_mag q" "qp_mag q div qp_unit = 0"
      using unit_powers(5) by simp_all
    then show ?thesis
      unfolding cvqpudz_finite[OF True] cvqpudz_spec_def using ne small by simp
  next
    case mid
    have "qp_mag q < 2 ^ 64 * qp_unit"
      unfolding qp_mag_def unit_powers(1)
      using mid(3) by (intro scaled_less qp_sig_less) simp
    then have a: "\<not> 2 ^ 64 * qp_unit \<le> qp_mag q"
      by simp
    have "qp_mag q div qp_unit = qp_sig q div 2 ^ (16494 - (qp_exp q - 1))"
      unfolding qp_mag_def qp_unit_def
      using mid by (subst scaled_div) simp_all
    also have "16494 - (qp_exp q - 1) = 49 + (16446 - qp_exp q)"
      using mid by simp
    finally have b: "qp_mag q div qp_unit = qp_sig q div 2 ^ (49 + (16446 - qp_exp q))" .
    let ?w = "drop_bit (unat (take_bit 6 (0x403E - exp_lane q)))
           (ucast (drop_bit 64 (push_bit 15 (sig_word q)))) :: 64 word"
    have "unat ?w = qp_mag q div qp_unit"
      unfolding unat_shifted_sig vsrd_count[OF mid(2,3)] b ..
    then have "of_nat (unat ?w) = (of_nat (qp_mag q div qp_unit) :: 64 word)"
      by simp
    then have "?w = of_nat (qp_mag q div qp_unit)"
      by (simp only: of_nat_unat ucast_id)
    then show ?thesis
      unfolding cvqpudz_finite[OF True] cvqpudz_spec_def using ne mid a by simp
  next
    case big
    have "2 ^ 112 \<le> qp_sig q"
      using big by (intro qp_sig_normal) simp
    then have "2 ^ 64 * qp_unit \<le> qp_mag q"
      unfolding qp_mag_def unit_powers(2)
      using big(2) by (intro scaled_ge) simp_all
    then show ?thesis
      unfolding cvqpudz_finite[OF True] cvqpudz_spec_def using ne big by simp
  qed
qed

section \<open>Count of leading zeros\<close>

lemma lead_zeros_le: "lead_zeros n v \<le> n"
  by (induction n) simp_all

lemma lead_zeros_top: "lead_zeros n v < n \<Longrightarrow> bit v (n - 1 - lead_zeros n v)"
  by (induction n) (auto split: if_splits)

lemma lead_zeros_above: "i < n \<Longrightarrow> n - 1 - lead_zeros n v < i \<Longrightarrow> \<not> bit v i"
proof (induction n)
  case 0
  then show ?case by simp
next
  case (Suc n)
  show ?case
  proof (cases "bit v n")
    case True
    with Suc.prems show ?thesis by simp
  next
    case False
    show ?thesis
    proof (cases "i = n")
      case True
      with False show ?thesis by simp
    next
      case ne: False
      with Suc.prems False have "i < n" "n - 1 - lead_zeros n v < i"
        by auto
      then show ?thesis by (rule Suc.IH)
    qed
  qed
qed

lemma lead_zeros_full: "lead_zeros n v = n \<Longrightarrow> i < n \<Longrightarrow> \<not> bit v i"
proof (induction n)
  case 0
  then show ?case by simp
next
  case (Suc n)
  from Suc.prems(1) have f: "\<not> bit v n" and l: "lead_zeros n v = n"
    by (auto split: if_splits)
  show ?case
  proof (cases "i = n")
    case True
    with f show ?thesis by simp
  next
    case False
    with Suc.prems(2) have "i < n" by simp
    with l show ?thesis by (rule Suc.IH)
  qed
qed

lemma clz_nonzero:
  fixes v :: "128 word"
  assumes "v \<noteq> 0"
  shows "lead_zeros 128 v < 128"
proof (rule ccontr)
  assume "\<not> lead_zeros 128 v < 128"
  then have "lead_zeros 128 v = 128"
    using lead_zeros_le[of 128 v] by simp
  then have "\<not> bit v i" if "i < 128" for i
    using that by (rule lead_zeros_full)
  then have "v = 0"
    by (intro bit_word_eqI) simp
  with assms show False by simp
qed

section \<open>Unsigned quadword to quad-precision and back\<close>

lemma clz_shift_count:
  assumes "c < 128"
  shows "unat (take_bit 7 (of_nat c :: 128 word)) = c"
  using assms by (simp add: unat_tb unat_of_nat take_bit_nat_eq_self)

lemma clz_lanes:
  assumes "c < 128"
  shows "vui64 (of_nat c :: 128 word) = (0, of_nat c)"
proof -
  have t: "(of_nat c :: 128 word) = take_bit 7 (of_nat c)"
    using assms by (simp add: take_bit_of_nat take_bit_nat_eq_self)
  have "(ucast (drop_bit 64 (take_bit 7 (of_nat c :: 128 word))) :: 64 word) = 0"
    by (rule bit_word_eqI) (auto simp add: bit_simps)
  then have "(ucast (drop_bit 64 (of_nat c :: 128 word)) :: 64 word) = 0"
    using t by simp
  moreover have "(ucast (of_nat c :: 128 word) :: 64 word) = of_nat c"
    using assms
    by (simp add: word_unat_eq_iff unsigned_ucast_eq unat_of_nat take_bit_nat_eq_self)
  ultimately show ?thesis
    by (simp add: vui64_def)
qed

lemma lsb_of_significand:
  "vec_and (vui128_of (vec_srhi (vui16 x) 15)) (CONST_VINT128_W 0 0 0 1)
     = (if bit x 15 then 1 else 0)"
proof -
  have "vui128_of [a, b, c, d, e, f, g, h :: 16 word] AND 1 = (if bit h 0 then 1 else 0)"
    for a b c d e f g h
    unfolding vui128_of_def
    by (rule bit_word_eqI) (auto simp add: bit_simps)
  moreover have "bit (drop_bit 15 (ucast x :: 16 word)) 0 = bit x 15"
    by (simp add: bit_simps)
  moreover have "CONST_VINT128_W 0 0 0 1 = 1"
    by (simp add: CONST_VINT128_W_def vui128_of_def)
  ultimately show ?thesis
    by (simp add: vec_and_def vui16_def vec_srhi_def)
qed

lemma rounding_exact:
  fixes x :: "128 word"
  assumes "take_bit 15 x = 0"
  defines "x2 \<equiv> x OR (if bit x 15 then 1 else 0)"
  shows "vec_addcuq x2 (CONST_VINT128_W 0 0 0 0x3fff) = 0"
    and "drop_bit 15 (vec_adduqm x2 (CONST_VINT128_W 0 0 0 0x3fff)) = drop_bit 15 x"
proof -
  define h where "h = unat x div 2 ^ 15"
  define b :: nat where "b = (if bit x 15 then 1 else 0)"
  have "unat x mod 2 ^ 15 = 0"
    using assms(1) by (metis unat_tb unat_eq_0)
  then have ux: "unat x = 2 ^ 15 * h"
    unfolding h_def by (metis mod_0_imp_dvd dvd_mult_div_cancel)
  have "unat x < 2 ^ 128"
    using unsigned_less[of x, where 'a=nat] by simp
  then have hb: "h < 2 ^ 113"
    unfolding ux by simp
  have d: "x AND (if bit x 15 then 1 else 0) = 0"
  proof (rule bit_word_eqI)
    fix n assume "n < LENGTH(128)"
    have "bit (take_bit 15 x) 0 = bit x 0"
      by (simp add: bit_simps)
    then have nb: "\<not> bit x 0"
      using assms(1) by simp
    have "0 < n" if "bit x n"
    proof (rule ccontr)
      assume "\<not> 0 < n"
      then have "n = 0" by simp
      with that nb show False by simp
    qed
    then show "bit (x AND (if bit x 15 then 1 else 0)) n = bit (0 :: 128 word) n"
      by (auto simp add: bit_simps)
  qed
  have u2: "unat x2 = 2 ^ 15 * h + b"
    unfolding x2_def unat_or_disjoint[OF d] ux b_def by simp
  have c: "CONST_VINT128_W 0 0 0 0x3fff = 0x3fff"
    by (simp add: CONST_VINT128_W_def vui128_of_def)
  have bb: "b \<le> 1"
    by (simp add: b_def)
  have s: "unat x2 + unat (0x3fff :: 128 word) < 2 ^ 128"
    unfolding u2 using hb bb by simp
  then show "vec_addcuq x2 (CONST_VINT128_W 0 0 0 0x3fff) = 0"
    unfolding c vec_addcuq_def by simp
  have "unat (x2 + 0x3fff) = 2 ^ 15 * h + (b + 16383)"
    using s unfolding u2 by (simp add: unat_add_lem[THEN iffD1] u2)
  then have "unat (drop_bit 15 (x2 + 0x3fff)) = h"
    using bb by (simp add: unat_db)
  moreover have "unat (drop_bit 15 x) = h"
    by (simp add: unat_db h_def)
  ultimately show "drop_bit 15 (vec_adduqm x2 (CONST_VINT128_W 0 0 0 0x3fff)) = drop_bit 15 x"
    unfolding c vec_adduqm_def by (simp only: word_unat_eq_iff)
qed

lemma uqqp_exact:
  assumes "n \<noteq> 0" "take_bit 15 (push_bit (lead_zeros 128 n) n) = 0"
  shows "vec_xscvuqqp n =
     vec_xsiexpqp (drop_bit 15 (push_bit (lead_zeros 128 n) n))
       (0x407E - of_nat (lead_zeros 128 n), 0)"
proof -
  let ?c = "lead_zeros 128 n"
  have c: "?c < 128"
    using assms(1) by (rule clz_nonzero)
  have s1: "vec_slq n (vec_clzq n) = push_bit ?c n"
    by (simp add: vec_slq_def vec_clzq_def clz_shift_count[OF c])
  have s5: "vui64 (vec_clzq n) = (0, of_nat ?c)"
    by (simp add: vec_clzq_def clz_lanes[OF c])
  have s4: "vec_setb_cyq 0 = 0" "vui64 0 = (0, 0)"
    by (simp_all add: vec_setb_cyq_def lanes64_zero)
  show ?thesis
    unfolding vec_xscvuqqp_def Let_def s1 s5 lsb_of_significand vec_or_def
      rounding_exact[OF assms(2)] vec_srqi_def s4
    using assms(1)
    by (simp add: vec_cmpuq_all_eq_def vec_sel_def vec_subudm_def vec_addudm_def vec_swapd_def
        CONST_VINT64_DW_def)
qed

lemma xsiexpqp_fields:
  fixes s :: "128 word" and e :: "64 word"
  assumes "take_bit 113 s = s" "bit s 112" "take_bit 15 e = e" "e \<noteq> 0" "e \<noteq> 0x7fff"
  defines "r \<equiv> vec_xsiexpqp s (e, 0)"
  shows "exp_lane r = e" "\<not> qp_sign r" "sig_word r = s"
proof -
  have r: "r = (s AND NOT (push_bit 112 (mask 15))) OR push_bit 112 (ucast (take_bit 15 e))"
    unfolding r_def vec_xsiexpqp_def Let_def const_masks vec_sel_def vec_sld_def vui128_of_dw_def
      fst_conv snd_conv
    by (rule bit_word_eqI) (auto simp add: bit_simps)
  have sb: "n < 113" if "bit s n" for n
  proof -
    have "bit (take_bit 113 s) n"
      using that assms(1) by simp
    then show ?thesis
      by (simp add: bit_simps)
  qed
  have "exp_lane r = take_bit 15 e"
    unfolding r exp_lane_def
    by (rule bit_word_eqI) (auto simp add: bit_simps)
  then show e: "exp_lane r = e"
    using assms(3) by simp
  show "\<not> qp_sign r"
    unfolding r qp_sign_def using sb[of 127]
    by (auto simp add: bit_simps)
  have f: "qp_frac r = take_bit 112 s"
    unfolding r qp_frac_def
    by (rule bit_word_eqI) (auto simp add: bit_simps)
  have "take_bit 112 s OR bit_at 112 = s"
  proof (rule bit_word_eqI)
    fix n assume "n < LENGTH(128)"
    show "bit (take_bit 112 s OR bit_at 112) n = bit s n"
      using sb[of n] assms(2) by (auto simp add: bit_simps bit_bit_at)
  qed
  then show "sig_word r = s"
    unfolding sig_word_eq e f using assms(4) by simp
qed

lemma cvqpuqz_in_range:
  assumes "is_finite r" "\<not> qp_sign r" "16383 \<le> qp_exp r" "qp_exp r < 16511"
  shows "vec_xscvqpuqz r =
     drop_bit (unat (take_bit 7 (0x407E - exp_lane r))) (push_bit 15 (sig_word r))"
proof -
  have ne: "qp_exp r \<noteq> 32767"
    using assms(1) by (simp add: is_finite_def)
  have v: "(vb c = (0 :: 64 word)) = (\<not> c)" for c
    by (simp add: vb_def)
  have t: "take_bit 7 (vui128_of_dw (d, d)) = ucast (take_bit 7 d)" for d
    unfolding vui128_of_dw_def fst_conv snd_conv
    by (rule bit_word_eqI) (auto simp add: bit_simps)
  have u: "unat (ucast (take_bit 7 d) :: 128 word) = unat (take_bit 7 d)" for d :: "64 word"
    by (simp add: unsigned_ucast_eq unat_tb take_bit_nat_eq_self)
  show ?thesis
    unfolding vec_xscvqpuqz_def Let_def xsxexpqp_eq xsxsigqp_finite[OF assms(1)] setb_qp_eq
      naninf_branch
    unfolding CONST_VINT64_DW_def
    using ne assms(2-4)
    by (simp add: vec_splatd_def VEC_DW_H_def vec_cmpud_all_ge_def vec_cmpud_all_eq_def
        vec_cmpud_all_lt_def lanes64_vb lanes64_zero v exp_lane_le exp_lane_lt
        vec_slqi_def vec_subudm_def vec_srq_def t u)
qed

lemma cvqpuqz_zero: "vec_xscvqpuqz 0 = 0"
proof -
  have z: "exp_lane 0 = 0" "sig_word 0 = 0" "\<not> qp_sign 0" "qp_exp 0 = 0"
    by (simp_all add: exp_lane_def sig_word_def qp_frac_def qp_sign_def qp_exp_def)
  have f: "is_finite 0"
    by (simp add: is_finite_def z)
  show ?thesis
    unfolding vec_xscvqpuqz_def Let_def xsxexpqp_eq xsxsigqp_finite[OF f] setb_qp_eq naninf_branch
    unfolding CONST_VINT64_DW_def
    by (simp add: z vec_splatd_def VEC_DW_H_def vec_cmpud_all_ge_def)
qed

lemma normalized_low_bits:
  fixes m :: "128 word"
  assumes "take_bit 113 m = m" "push_bit k m \<noteq> 0"
  defines "c \<equiv> lead_zeros 128 (push_bit k m)"
  shows "take_bit 15 (push_bit c (push_bit k m)) = 0"
proof -
  let ?n = "push_bit k m"
  have c: "c < 128"
    unfolding c_def using assms(2) by (rule clz_nonzero)
  have mb: "j < 113" if "bit m j" for j
  proof -
    have "bit (take_bit 113 m) j"
      using that assms(1) by simp
    then show ?thesis
      by (simp add: bit_simps)
  qed
  have "bit ?n (128 - 1 - c)"
    unfolding c_def using c[unfolded c_def] by (rule lead_zeros_top)
  then have "k \<le> 127 - c" "bit m (127 - c - k)"
    by (simp_all add: bit_simps)
  then have kc: "15 \<le> k + c"
    using mb[of "127 - c - k"] c by linarith
  show ?thesis
  proof (rule bit_word_eqI)
    fix i assume "i < LENGTH(128)"
    have "\<not> (i < 15 \<and> c \<le> i \<and> k \<le> i - c)"
      using kc by linarith
    then show "bit (take_bit 15 (push_bit c ?n)) i = bit (0 :: 128 word) i"
      by (auto simp add: bit_simps)
  qed
qed

lemma normalize_undo:
  fixes n :: "128 word"
  assumes "n \<noteq> 0"
  shows "drop_bit (lead_zeros 128 n) (push_bit (lead_zeros 128 n) n) = n"
proof (rule bit_word_eqI)
  fix i assume i: "i < LENGTH(128)"
  let ?c = "lead_zeros 128 n"
  have c: "?c < 128"
    using assms by (rule clz_nonzero)
  have "i + ?c < 128" if "bit n i"
  proof (rule ccontr)
    assume "\<not> i + ?c < 128"
    then have "128 - 1 - ?c < i"
      using c by linarith
    moreover have "i < 128"
      using i by simp
    ultimately have "\<not> bit n i"
      by (intro lead_zeros_above)
    with that show False by simp
  qed
  then show "bit (drop_bit ?c (push_bit ?c n)) i = bit n i"
    by (auto simp add: bit_simps ac_simps)
qed

text \<open>
  Claim C7.  An unsigned quadword that is representable within 113 significant bits,
  that is, of the form \<open>m * 2 ^ k\<close> with \<open>m < 2 ^ 113\<close> (zero included), is returned
  unchanged by \<^verbatim>\<open>vec_xscvuqqp\<close> followed by the truncating \<^verbatim>\<open>vec_xscvqpuqz\<close>.
\<close>

theorem uq_roundtrip:
  assumes "m < 2 ^ 113"
  shows "vec_xscvqpuqz (vec_xscvuqqp (push_bit k m)) = push_bit k m"
proof (cases "push_bit k m = 0")
  case True
  then show ?thesis
    by (simp add: vec_xscvuqqp_def vec_cmpuq_all_eq_def cvqpuqz_zero)
next
  case False
  let ?n = "push_bit k m"
  let ?c = "lead_zeros 128 ?n"
  let ?x = "push_bit ?c ?n"
  let ?s = "drop_bit 15 ?x"
  let ?e = "0x407E - of_nat ?c :: 64 word"
  have "unat m < 2 ^ 113"
    using assms by (simp add: word_less_nat_alt)
  then have "unat (take_bit 113 m) = unat m"
    by (simp add: unat_tb)
  then have m: "take_bit 113 m = m"
    by (simp only: word_unat_eq_iff)
  have c: "?c < 128"
    using False by (rule clz_nonzero)
  have low: "take_bit 15 ?x = 0"
    using m False by (rule normalized_low_bits)
  have "bit ?n (128 - 1 - ?c)"
    using c by (rule lead_zeros_top)
  then have "bit ?n (127 - ?c)"
    by simp
  moreover have "?c \<le> 127"
    using c by simp
  ultimately have top: "bit ?x 127"
    by (subst bit_push_bit_iff) simp
  have s1: "take_bit 113 ?s = ?s"
    by (rule bit_word_eqI) (auto simp add: bit_simps)
  have s2: "bit ?s 112"
    using top by (simp add: bit_simps)
  have uc: "unat (of_nat ?c :: 64 word) = ?c"
    using c by (simp add: unat_of_nat take_bit_nat_eq_self)
  then have "(of_nat ?c :: 64 word) \<le> 0x407E"
    using c by (simp add: word_le_nat_alt)
  then have ue: "unat ?e = 16510 - ?c"
    by (simp add: unat_sub uc)
  then have "unat (take_bit 15 ?e) = unat ?e"
    using c by (simp add: unat_tb)
  then have e1: "take_bit 15 ?e = ?e"
    by (simp only: word_unat_eq_iff)
  have e2: "?e \<noteq> 0" "?e \<noteq> 0x7fff"
    using ue c by (auto simp add: word_unat_eq_iff)
  let ?r = "vec_xsiexpqp ?s (?e, 0)"
  note f = xsiexpqp_fields[OF s1 s2 e1 e2]
  have qe: "qp_exp ?r = 16510 - ?c"
    using f(1) ue unat_exp_lane[of ?r] by simp
  then have fin: "is_finite ?r" and lo: "16383 \<le> qp_exp ?r" and hi: "qp_exp ?r < 16511"
    using c by (simp_all add: is_finite_def)
  have "0x407E - ?e = of_nat ?c"
    by simp
  then have cnt: "unat (take_bit 7 (0x407E - exp_lane ?r)) = ?c"
    unfolding f(1) using c uc by (simp add: unat_tb)
  have "push_bit 15 ?s = ?x"
    using low bits_ident[of 15 ?x] by simp
  then have "vec_xscvqpuqz ?r = drop_bit ?c ?x"
    unfolding cvqpuqz_in_range[OF fin f(2) lo hi] cnt f(3) by simp
  then show ?thesis
    unfolding uqqp_exact[OF False low] normalize_undo[OF False] .
qed

theorem uq_roundtrip_witness:
  "(0x1ffffffffffffffffffffffffffff :: 128 word) < 2 ^ 113
   \<and> vec_xscvqpuqz (vec_xscvuqqp 0xffffffffffffffffffffffffffff8000)
       = 0xffffffffffffffffffffffffffff8000
   \<and> vec_xscvqpuqz (vec_xscvuqqp 1) = 1"
proof -
  have h: "(0x1ffffffffffffffffffffffffffff :: 128 word) < 2 ^ 113" "(1 :: 128 word) < 2 ^ 113"
    by simp_all
  show ?thesis
    using h uq_roundtrip[OF h(1), of 15] uq_roundtrip[OF h(2), of 0]
    by simp
qed


section \<open>Overflow of add\<close>

lemma dw_shift_count: "unat (take_bit 7 (vui128_of_dw (x, y))) = unat y mod 128"
proof -
  have "take_bit 7 (vui128_of_dw (x, y)) = ucast (take_bit 7 y)"
    unfolding vui128_of_dw_def by (rule bit_word_eqI) (auto simp add: bit_simps)
  moreover have "take_bit 128 (unat y mod 128) = unat y mod 128"
    by (rule take_bit_nat_eq_self) (rule less_trans[OF mod_less_divisor], simp_all)
  ultimately show ?thesis
    by (simp add: unsigned_ucast_eq unat_tb)
qed

lemma dw_of_masks: "vui128_of_dw (- 1, - 1) = - 1" "vui128_of_dw (0, 0) = 0"
proof -
  show "vui128_of_dw (- 1, - 1) = - 1"
    unfolding vui128_of_dw_def by (rule bit_word_eqI) (auto simp add: bit_simps not_less)
  show "vui128_of_dw (0, 0) = 0"
    by (simp add: vui128_of_dw_def)
qed

lemma unat_or_ge: "unat x \<le> unat (x OR y)" for x y :: "'a::len word"
  using le_word_or2[of x y] by (simp add: word_le_nat_alt)

lemma or_below:
  fixes x y :: "128 word"
  assumes "unat x < 2 ^ n" "unat y < 2 ^ n"
  shows "unat (x OR y) < 2 ^ n"
proof -
  have "take_bit n x = x" "take_bit n y = y"
    using assms by (simp_all add: word_unat_eq_iff unat_tb)
  then have "take_bit n (x OR y) = x OR y"
    by (simp add: take_bit_or)
  then have "unat (x OR y) = unat (x OR y) mod 2 ^ n"
    using unat_tb[of n "x OR y"] by simp
  then show ?thesis
    by (metis mod_less_divisor zero_less_numeral zero_less_power)
qed

text \<open>The aligned significand is at least the shifted one, and stays below \<open>2 ^ 116\<close>.\<close>

lemma addqpo_align_bounds:
  fixes es el :: "64 word" and b :: "128 word"
  assumes "es \<le> el" "unat b < 2 ^ 116"
  shows "unat b div 2 ^ (unat el - unat es) \<le> unat (addqpo_align b (el, el) (es, es))"
    and "unat (addqpo_align b (el, el) (es, es)) < 2 ^ 116"
proof -
  let ?r = "addqpo_align b (el, el) (es, es)"
  have p: "unat (if c then 0 else 1 :: 128 word) < 2 ^ 116" for c
    by simp
  have d: "unat (el - es) = unat el - unat es"
    using assms(1) by (simp add: unat_sub)
  have "unat b div 2 ^ (unat el - unat es) \<le> unat ?r \<and> unat ?r < 2 ^ 116"
  proof (cases "es < el")
    case False
    then have "es = el"
      using assms(1) by simp
    then show ?thesis
      using assms(2) by (simp add: addqpo_align_def vec_cmpud_all_lt_def)
  next
    case True
    show ?thesis
    proof (cases "el - es < 128")
      case near: True
      then have n: "unat el - unat es < 128"
        using d by (simp add: word_less_nat_alt)
      let ?t = "drop_bit (unat el - unat es) b"
      have r: "?r = ?t OR (if push_bit (unat (128 - (el - es)) mod 128) b = 0 then 0 else 1)"
        using True near n
        by (simp add: addqpo_align_def vec_cmpud_all_lt_def Let_def vec_const64_f128_128_def
            CONST_VINT64_DW_def vec_subudm_def vec_cmpltud_def vec_srq_def vec_slq_def
            dw_shift_count vec_sel_def const_masks dw_of_masks vec_or_def addcuq_ones d)
      have "unat ?t \<le> unat b"
        by (simp add: unat_db)
      then have "unat ?t < 2 ^ 116"
        using assms(2) by simp
      then have "unat ?r < 2 ^ 116"
        unfolding r by (rule or_below) (rule p)
      moreover have "unat ?t \<le> unat ?r"
        unfolding r by (rule unat_or_ge)
      ultimately show ?thesis
        by (simp add: unat_db)
    next
      case far: False
      then have n: "128 \<le> unat el - unat es"
        using d by (simp add: word_less_nat_alt not_less)
      have r: "?r = (if b = 0 then 0 else 1)"
        using True far
        by (simp add: addqpo_align_def vec_cmpud_all_lt_def Let_def vec_const64_f128_128_def
            CONST_VINT64_DW_def vec_subudm_def vec_cmpltud_def vec_srq_def vec_slq_def
            vec_sel_def const_masks dw_of_masks vec_or_def addcuq_ones)
      have "(2::nat) ^ 116 \<le> 2 ^ (unat el - unat es)"
        using n by (intro power_increasing) simp_all
      then have "unat b div 2 ^ (unat el - unat es) = 0"
        using assms(2) by simp
      then show ?thesis
        unfolding r by simp
    qed
  qed
  then show "unat b div 2 ^ (unat el - unat es) \<le> unat ?r" "unat ?r < 2 ^ 116"
    by simp_all
qed

text \<open>The carry out of the leading bit of the sum.\<close>

lemma byte1_of_sum:
  fixes s :: "128 word"
  assumes "2 ^ 116 \<le> unat s" "unat s < 2 ^ 120"
  shows "15 < (ucast (drop_bit 112 s) :: 8 word)"
proof -
  have "unat s div 2 ^ 112 < 2 ^ 8"
    using assms(2) by (simp add: less_mult_imp_div_less)
  then have "take_bit 8 (unat s div 2 ^ 112) = unat s div 2 ^ 112"
    by (rule take_bit_nat_eq_self)
  then have "unat (ucast (drop_bit 112 s) :: 8 word) = unat s div 2 ^ 112"
    by (simp add: unsigned_ucast_eq unat_db)
  moreover have "2 ^ 4 \<le> unat s div 2 ^ 112"
    using assms(1) by (simp add: less_eq_div_iff_mult_less_eq)
  ultimately show ?thesis
    by (simp add: word_less_nat_alt)
qed

lemma normalize_carry:
  assumes "2 ^ 116 \<le> unat s" "unat s < 2 ^ 120"
  shows "snd (addqpo_normalize s (e, e)) = (e + 1, e + 1)"
  using byte1_of_sum[OF assms]
  by (simp add: addqpo_normalize_def Let_def vui8_def vec_splat_def vec_splat_u8_def
      vec_all_gt_def vec_addudm_def vec_splat_u64_def)

lemma align_arith:
  fixes a b :: nat
  assumes "2 ^ (m + k) \<le> a * 2 ^ k + b * 2 ^ (k - d)" "d \<le> k"
  shows "2 ^ (m + 3) \<le> 8 * a + 8 * b div 2 ^ d"
proof -
  have k: "(2::nat) ^ k = 2 ^ d * 2 ^ (k - d)"
    using assms(2) by (simp flip: power_add)
  have "(2::nat) ^ (m + d) * 2 ^ (k - d) = 2 ^ (m + k)"
    using assms(2) by (simp flip: power_add)
  also have "\<dots> \<le> (a * 2 ^ d + b) * 2 ^ (k - d)"
    using assms(1) unfolding k by (simp add: algebra_simps)
  finally have "(2::nat) ^ (m + d) \<le> a * 2 ^ d + b"
    by simp
  then have "8 * (2::nat) ^ (m + d) \<le> 8 * (a * 2 ^ d + b)"
    by simp
  then have "(2::nat) ^ (m + 3) * 2 ^ d \<le> 8 * b + 8 * a * 2 ^ d"
    by (simp add: power_add algebra_simps)
  then have "(2::nat) ^ (m + 3) * 2 ^ d div 2 ^ d \<le> (8 * b + 8 * a * 2 ^ d) div 2 ^ d"
    by (rule div_le_mono)
  then show ?thesis
    by simp
qed

lemma huge_powers:
  "qp_huge = 2 ^ (113 + 32765)"
  "qp_huge = 2 * 2 ^ (113 + 32764)"
  "qp_huge * qp_unit = 2 ^ (226 + 49146)"
  "qp_huge * qp_unit = 2 ^ (225 + 49147)"
  by (simp_all add: qp_huge_def qp_unit_def del: power_numeral flip: power_add power_Suc)

lemma unat_emin_lane: "unat (emin_lane q) = max 1 (qp_exp q)"
  by (auto simp add: emin_lane_def exp_lane_zero unat_exp_lane)

lemma unat_sig3: "unat (push_bit 3 (sig_word q)) = 8 * qp_sig q"
proof -
  have "qp_sig q * 2 ^ 3 < 2 ^ 128"
    using qp_sig_less[of q] by simp
  then show ?thesis
    unfolding unsigned_push_bit_eq unat_sig_word
    by (simp add: push_bit_eq_mult take_bit_nat_eq_self)
qed

lemma magnitude_order:
  assumes "take_bit 127 s \<le> take_bit 127 l"
  shows "qp_exp s \<le> qp_exp l"
proof (rule ccontr)
  assume "\<not> qp_exp s \<le> qp_exp l"
  then have "qp_exp l + 1 \<le> qp_exp s"
    by simp
  then have "(qp_exp l + 1) * 2 ^ 112 \<le> qp_exp s * 2 ^ 112"
    by (rule mult_le_mono1)
  moreover have "qp_exp s * 2 ^ 112 + unat (qp_frac s) \<le> qp_exp l * 2 ^ 112 + unat (qp_frac l)"
    using assms by (simp add: word_le_nat_alt take_bit_127_decomp del: power_numeral)
  ultimately show False
    using qp_frac_less[of l] by (simp add: algebra_simps del: power_numeral)
qed

lemma qp_mag_less:
  assumes "qp_exp q \<le> k + 1"
  shows "qp_mag q < 2 ^ (113 + k)"
  unfolding qp_mag_def using qp_sig_less assms by (intro scaled_less) simp_all

text \<open>The sum of two operands of one sign, with the operand \<open>l\<close> of greater magnitude
  first.\<close>

lemma overflow_sum:
  assumes "is_finite l" "is_finite s" "take_bit 127 s \<le> take_bit 127 l"
    "qp_huge \<le> qp_mag l + qp_mag s"
  defines "r \<equiv> addqpo_sum (push_bit 3 (sig_word l))
           (addqpo_align (push_bit 3 (sig_word s)) (emin_lane l, emin_lane l)
              (emin_lane s, emin_lane s)) 0"
  shows "qp_exp l = 32766" "2 ^ 116 \<le> unat r" "unat r < 2 ^ 120"
proof -
  have o: "qp_exp s \<le> qp_exp l"
    using assms(3) by (rule magnitude_order)
  show e: "qp_exp l = 32766"
  proof (rule ccontr)
    assume "qp_exp l \<noteq> 32766"
    then have "qp_exp l \<le> 32764 + 1"
      using assms(1) by (simp add: is_finite_def)
    moreover from this have "qp_exp s \<le> 32764 + 1"
      using o by simp
    ultimately have "qp_mag l < 2 ^ (113 + 32764)" "qp_mag s < 2 ^ (113 + 32764)"
      by (simp_all only: qp_mag_less)
    then have "qp_mag l + qp_mag s < qp_huge"
      unfolding huge_powers(2) mult_2 by (rule add_strict_mono)
    with assms(4) show False
      by simp
  qed
  let ?d = "unat (emin_lane l) - unat (emin_lane s)"
  let ?b = "addqpo_align (push_bit 3 (sig_word s)) (emin_lane l, emin_lane l)
              (emin_lane s, emin_lane s)"
  have le: "emin_lane s \<le> emin_lane l"
    using o by (simp add: word_le_nat_alt unat_emin_lane)
  have s3: "unat (push_bit 3 (sig_word s)) < 2 ^ 116"
    using qp_sig_less[of s] by (simp add: unat_sig3)
  note b = addqpo_align_bounds[OF le s3]
  have d: "?d \<le> 32765" and k: "max 1 (qp_exp s) - 1 = 32765 - ?d"
    and k': "max 1 (qp_exp l) - 1 = 32765"
    using o by (simp_all add: unat_emin_lane e)
  have "2 ^ (113 + 32765) \<le> qp_sig l * 2 ^ 32765 + qp_sig s * 2 ^ (32765 - ?d)"
    using assms(4) unfolding huge_powers(1) qp_mag_def k k' .
  then have "2 ^ (113 + 3) \<le> 8 * qp_sig l + 8 * qp_sig s div 2 ^ ?d"
    using d by (rule align_arith)
  then have lo: "2 ^ 116 \<le> 8 * qp_sig l + unat ?b"
    using b(1) by (simp add: unat_sig3)
  have hi: "8 * qp_sig l + unat ?b < 2 ^ 117"
    using b(2) qp_sig_less[of l] by simp
  have "unat r = 8 * qp_sig l + unat ?b"
    unfolding r_def addqpo_sum_def Let_def vec_sel_def vec_adduqm_def
    using hi by (simp add: unat_add_lem[THEN iffD1] unat_sig3)
  then show "2 ^ 116 \<le> unat r" "unat r < 2 ^ 120"
    using lo hi by simp_all
qed

lemma add_overflow_ordered:
  assumes "is_finite vfa" "is_finite vfb" "qp_sign vfa = qp_sign vfb"
    "qp_huge \<le> qp_mag vfa + qp_mag vfb"
  shows "vec_xsaddqpo vfa vfb = qp_max (qp_sign vfa)"
proof -
  define l where "l = (if take_bit 127 vfa < take_bit 127 vfb then vfb else vfa)"
  define s where "s = (if take_bit 127 vfa < take_bit 127 vfb then vfa else vfb)"
  have f: "is_finite l" "is_finite s" "take_bit 127 s \<le> take_bit 127 l"
    "qp_huge \<le> qp_mag l + qp_mag s" "qp_sign l = qp_sign vfa"
    using assms by (auto simp add: l_def s_def)
  note r = overflow_sum[OF f(1-4)]
  have s_sig: "addqpo_s_sig vfa vfb =
      addqpo_sum (push_bit 3 (sig_word l))
           (addqpo_align (push_bit 3 (sig_word s)) (emin_lane l, emin_lane l)
              (emin_lane s, emin_lane s)) 0"
    unfolding addqpo_s_sig_eq Let_def l_def s_def using assms(3) by simp
  have nz: "addqpo_s_sig vfa vfb \<noteq> 0"
    using r(2) unfolding s_sig by auto
  have "emin_lane l = 0x7ffe"
    using r(1) by (simp add: word_unat_eq_iff unat_emin_lane)
  then have "snd (addqpo_normalize (addqpo_s_sig vfa vfb) (emin_lane l, emin_lane l))
      = (0x7fff, 0x7fff)"
    unfolding s_sig normalize_carry[OF r(2,3)] by simp
  then show ?thesis
    unfolding add_finite_unfold[OF assms(1,2)] Let_def l_def[symmetric]
    using nz f(5) by (simp add: split_def vec_cmpud_all_ge_def)
qed

section \<open>The finite path of multiply\<close>

lemma mul_finite_eq:
  "is_finite vfa \<Longrightarrow> is_finite vfb \<Longrightarrow>
   vec_xsmulqpo vfa vfb =
     mulqpo_finite vfa vfb (vfa AND mask 127) (vfb AND mask 127)
       ((vfa AND NOT (mask 127)) XOR (vfb AND NOT (mask 127))) (exp_lane vfa, exp_lane vfb)"
  unfolding vec_xsmulqpo_def Let_def finite_branch
  by (simp add: const_masks vec_and_def vec_andc_def vec_xor_def xxxexpqpp_lanes)

lemma exp_halfwords:
  "vui16 (vec_andc (q AND mask 127) (mask 112)) = [ucast (exp_lane q), 0, 0, 0, 0, 0, 0, 0]"
  unfolding vui16_def vec_andc_def list.inject exp_lane_def
  apply (intro conjI)
          apply (rule bit_word_eqI; auto simp add: bit_simps)
         apply (rule bit_word_eqI; simp add: bit_simps)
        apply (rule bit_word_eqI; simp add: bit_simps)
       apply (rule bit_word_eqI; simp add: bit_simps)
      apply (rule bit_word_eqI; simp add: bit_simps)
     apply (rule bit_word_eqI; simp add: bit_simps)
    apply (rule bit_word_eqI; simp add: bit_simps)
   apply (rule bit_word_eqI; simp add: bit_simps)
  apply simp
  done

lemma exp_lane16_zero: "((ucast (exp_lane q) :: 16 word) = 0) = (exp_lane q = 0)"
proof -
  have "unat (ucast (exp_lane q) :: 16 word) = unat (exp_lane q)"
    using qp_exp_less[of q]
    by (simp add: unsigned_ucast_eq unat_exp_lane take_bit_nat_eq_self)
  then show ?thesis
    by (metis unat_eq_0)
qed

lemma hidden_halfword:
  "vec_sel (vec_and q (mask 112)) (vui128_of (vec_splat_u16 1))
      (vui128_of [vb c, 0, 0, 0, 0, 0, 0, 0 :: 16 word])
     = qp_frac q OR (if c then bit_at 112 else 0)"
proof -
  have 1: "vui128_of (vec_splat_u16 1) = 0x00010001000100010001000100010001"
    by (simp add: vui128_of_def vec_splat_u16_def)
  have 2: "vui128_of [vb c, 0, 0, 0, 0, 0, 0, 0 :: 16 word]
      = (if c then push_bit 112 (mask 16) else 0)"
    by (simp add: vui128_of_def vb_def unsigned_minus_1_eq_mask mask_eq_exp_minus_1)
  have 3: "(0x00010001000100010001000100010001 :: 128 word) AND push_bit 112 (mask 16)
      = bit_at 112"
    by (simp add: bit_at_def mask_eq_exp_minus_1)
  have 4: "(q AND mask 112) AND NOT (push_bit 112 (mask 16)) = q AND mask 112"
    by (rule bit_word_eqI) (auto simp add: bit_simps)
  show ?thesis
    unfolding vec_sel_def 1 2
    by (cases c) (simp_all only: if_True if_False 3 4 vec_and_def qp_frac_def
        take_bit_eq_mask bit.compl_zero and.right_neutral and.comm_neutral
        and_zero_eq zero_and_eq or.right_neutral bit.conj_one_right bit.conj_zero_right)
qed

lemma mulqpo_operands_eq:
  "mulqpo_operands vfa vfb (vfa AND mask 127) (vfb AND mask 127)
     = (push_bit 8 (sig_word vfa), push_bit 8 (sig_word vfb))"
  unfolding mulqpo_operands_def Let_def const_masks exp_halfwords
  by (simp add: vui16_def vec_cmpgt_def word_greater_zero_iff exp_lane16_zero
      hidden_halfword sig_word_eq vec_slqi_def)

lemma exp_bias_const:
  "vui64 (vui128_of (vec_srhi (vui16 (vui128_of_dw vec_mask64_f128exp)) 1)) = (0x3fff, 0x3fff)"
  by (simp add: mask64_exp vui128_of_dw_def vui16_def vec_srhi_def vui128_of_def vui64_def
      drop_bit_eq_div)

lemma emin_select_eq:
  "vec_selud (x, y) (vec_splat_u64 1) (vec_cmpequd (x, y) (0, 0))
     = (if x = 0 then 1 else x, if y = 0 then 1 else y)"
  by (simp add: vec_selud_def vec_splat_u64_def vec_cmpequd_def)

lemma mulqpo_exp_eq:
  "mulqpo_exp (exp_lane a, exp_lane b)
     = (emin_lane a + emin_lane b - 0x3fff, emin_lane a + emin_lane b - 0x3fff)"
  unfolding mulqpo_exp_def Let_def exp_bias_const const_masks lanes64_zero emin_select_eq
  by (simp add: vec_addudm_def vec_swapd_def vec_subudm_def emin_lane_def)

lemma vui128_of_vb8: "vui128_of [vb c, vb c, vb c, vb c, vb c, vb c, vb c, vb c :: 16 word] = vb c"
  by (simp add: vui128_of_def vb_def unsigned_minus_1_eq_mask mask_eq_exp_minus_1)

lemma carry_select:
  "vec_selud (e, e) (e + 1, e + 1) (vb c, vb c) = (if c then (e + 1, e + 1) else (e, e))"
  by (simp add: vec_selud_def)

lemma mulqpo_carry_eq:
  "mulqpo_carry h l (e, e) =
     (if 1 < (ucast (drop_bit 112 h) :: 16 word)
      then (drop_bit 1 h, push_bit 7 (vec_sldqi h l 120), (e + 1, e + 1))
      else (h, l, (e, e)))"
  unfolding mulqpo_carry_def Let_def
  by (simp add: vui16_def vec_splat_def VEC_HW_H_def vec_splat_u16_def vec_cmpgt_def
      vui128_of_vb8 sel_vb lanes64_vb carry_select vec_srqi_def vec_slqi_def vec_addudm_def
      vec_splat_u64_def)

lemma mulqpo_tiny_skip:
  "1 \<le> sint e \<Longrightarrow> mulqpo_tiny h l (e, e) = (h, h, l, (e, e))"
  by (simp add: mulqpo_tiny_def Let_def vec_cmpsd_all_lt_def vec_splat_u64_def)

lemma mulqpo_denorm_skip:
  "(ucast (drop_bit 112 h) :: 16 word) \<noteq> 0 \<Longrightarrow> mulqpo_denorm q h l (e, e) = (q, l, (e, e))"
  by (simp add: mulqpo_denorm_def Let_def vui16_def vec_splat_def VEC_HW_H_def vec_all_eq_def
      const_masks)

lemma nonzero_lanes32: "bit x 120 \<Longrightarrow> \<not> vec_all_eq (vui32 x) (vui32 0)"
proof
  assume b: "bit x 120" and "vec_all_eq (vui32 x) (vui32 0)"
  then have "(ucast (drop_bit 96 x) :: 32 word) = 0"
    by (simp add: vec_all_eq_def vui32_def)
  then have "\<not> bit (ucast (drop_bit 96 x) :: 32 word) 24"
    by simp
  then show False
    using b by (simp add: bit_simps)
qed

lemma max_or_sign:
  "vec_or (CONST_VINT128_W 0x7ffeffff (- 1) (- 1) (- 1))
      ((a AND NOT (mask 127)) XOR (b AND NOT (mask 127)))
     = qp_max (qp_sign a \<noteq> qp_sign b)"
proof -
  have m: "CONST_VINT128_W 0x7ffeffff (- 1) (- 1) (- 1) = 0x7ffeffffffffffffffffffffffffffff"
    by (simp add: CONST_VINT128_W_def vui128_of_def unsigned_minus_1_eq_mask mask_eq_exp_minus_1)
  show ?thesis
    unfolding m vec_or_def andc_magmask
    by (auto simp add: qp_max_def bit_at_def)
qed

text \<open>The product of two finite operands when the multiply leaves it by the overflow
  return: the high quadword \<open>h\<close> of the product of the significands, its carry, and the
  exponent \<open>e\<close>.\<close>

lemma mul_overflow_path:
  assumes "is_finite vfa" "is_finite vfb" "qp_exp vfa \<noteq> 0" "qp_exp vfb \<noteq> 0"
  defines "h \<equiv> fst (vec_muludq (push_bit 8 (sig_word vfa)) (push_bit 8 (sig_word vfb)))"
  defines "e \<equiv> emin_lane vfa + emin_lane vfb - 0x3fff"
  defines "c \<equiv> 1 < (ucast (drop_bit 112 h) :: 16 word)"
  assumes "(ucast (drop_bit 112 (if c then drop_bit 1 h else h)) :: 16 word) \<noteq> 0"
    "1 \<le> sint (if c then e + 1 else e)" "0x7fff \<le> (if c then e + 1 else e)"
  shows "vec_xsmulqpo vfa vfb = qp_max (qp_sign vfa \<noteq> qp_sign vfb)"
proof -
  have "bit (sig_word q) 112" if "qp_exp q \<noteq> 0" for q
    using that by (simp add: sig_word_eq exp_lane_zero bit_simps bit_bit_at)
  then have "bit (push_bit 8 (sig_word q)) 120" if "qp_exp q \<noteq> 0" for q
    using that by (simp add: bit_simps)
  then have nz: "\<not> vec_all_eq (vui32 (push_bit 8 (sig_word vfa))) (vui32 0)"
    "\<not> vec_all_eq (vui32 (push_bit 8 (sig_word vfb))) (vui32 0)"
    using assms(3,4) by (simp_all add: nonzero_lanes32)
  show ?thesis
  proof (cases c)
    case True
    then show ?thesis
      using assms(8-10) nz True[unfolded c_def]
      unfolding mul_finite_eq[OF assms(1,2)] mulqpo_finite_def Let_def mulqpo_operands_eq
        mulqpo_exp_eq const_masks
      by (simp add: split_def h_def[symmetric] e_def[symmetric] mulqpo_carry_eq
          mulqpo_tiny_skip mulqpo_denorm_skip mask64_exp vec_cmpud_all_ge_def max_or_sign)
  next
    case False
    then show ?thesis
      using assms(8-10) nz False[unfolded c_def]
      unfolding mul_finite_eq[OF assms(1,2)] mulqpo_finite_def Let_def mulqpo_operands_eq
        mulqpo_exp_eq const_masks
      by (simp add: split_def h_def[symmetric] e_def[symmetric] mulqpo_carry_eq
          mulqpo_tiny_skip mulqpo_denorm_skip mask64_exp vec_cmpud_all_ge_def max_or_sign)
  qed
qed

lemma scaled_cancel:
  fixes p :: nat
  assumes "2 ^ (m + k) \<le> p * 2 ^ k"
  shows "2 ^ m \<le> p"
  using assms by (simp add: power_add)

lemma unat_sig8: "unat (push_bit 8 (sig_word q)) = qp_sig q * 2 ^ 8"
proof -
  have "qp_sig q * 2 ^ 8 < 2 ^ 128"
    using qp_sig_less[of q] by simp
  then show ?thesis
    unfolding unsigned_push_bit_eq unat_sig_word
    by (simp add: push_bit_eq_mult take_bit_nat_eq_self)
qed

lemma halfword0_nat:
  fixes h :: "128 word"
  shows "unat (ucast (drop_bit 112 h) :: 16 word) = unat h div 2 ^ 112"
proof -
  have "unat h < 2 ^ 128"
    using unsigned_less[of h] by simp
  then have "unat h div 2 ^ 112 < 2 ^ 16"
    by (simp add: less_mult_imp_div_less)
  then have "take_bit 16 (unat h div 2 ^ 112) = unat h div 2 ^ 112"
    by (rule take_bit_nat_eq_self)
  then show ?thesis
    by (simp add: unsigned_ucast_eq unat_db)
qed

lemma sint_small:
  fixes w :: "64 word"
  assumes "unat w < 2 ^ 63"
  shows "sint w = uint w"
proof -
  have "w < 2 ^ 63"
    using assms by (simp add: word_less_nat_alt)
  then have "uint w < 2 ^ 63"
    by (simp add: word_less_def)
  moreover have "- (2 ^ 63) \<le> uint w"
    by (rule order_trans[of _ 0]) simp_all
  ultimately have "signed_take_bit 63 (uint w) = uint w"
    by (intro signed_take_bit_int_eq_self)
  then show ?thesis
    by (simp add: sint_uint)
qed

text \<open>The high quadword of the product of the two significands.\<close>

lemma product_high:
  "unat (fst (vec_muludq (push_bit 8 (sig_word a)) (push_bit 8 (sig_word b))))
     = qp_sig a * qp_sig b div 2 ^ 112"
proof -
  have "qp_sig a * qp_sig b < 2 ^ 113 * 2 ^ 113"
    using qp_sig_less[of a] qp_sig_less[of b] by (intro mult_strict_mono) simp_all
  then have "qp_sig a * qp_sig b div 2 ^ 112 < 2 ^ 128"
    by (simp add: less_mult_imp_div_less)
  moreover have "qp_sig a * 2 ^ 8 * (qp_sig b * 2 ^ 8) div 2 ^ 128
      = qp_sig a * qp_sig b div 2 ^ 112"
    using scaled_div[of 16 128 "qp_sig a * qp_sig b"] by (simp add: ac_simps)
  ultimately show ?thesis
    unfolding vec_muludq_def fst_conv unat_sig8
    by (simp add: unat_of_nat take_bit_nat_eq_self)
qed

lemma mul_overflow:
  assumes "is_finite vfa" "is_finite vfb" "qp_huge * qp_unit \<le> qp_mag vfa * qp_mag vfb"
  shows "vec_xsmulqpo vfa vfb = qp_max (qp_sign vfa \<noteq> qp_sign vfb)"
proof -
  define ka where "ka = max 1 (qp_exp vfa) - 1"
  define kb where "kb = max 1 (qp_exp vfb) - 1"
  define P where "P = qp_sig vfa * qp_sig vfb"
  define h where "h = fst (vec_muludq (push_bit 8 (sig_word vfa)) (push_bit 8 (sig_word vfb)))"
  define e where "e = emin_lane vfa + emin_lane vfb - 0x3fff"
  have kle: "ka \<le> 32765" "kb \<le> 32765"
    using assms(1,2) by (simp_all add: ka_def kb_def is_finite_def)
  have Pl: "P < 2 ^ 226"
  proof -
    have "P < 2 ^ 113 * 2 ^ 113"
      unfolding P_def using qp_sig_less[of vfa] qp_sig_less[of vfb]
      by (intro mult_strict_mono) simp_all
    then show ?thesis
      by simp
  qed
  have "qp_mag vfa * qp_mag vfb = P * 2 ^ (ka + kb)"
    unfolding qp_mag_def P_def ka_def[symmetric] kb_def[symmetric]
    by (simp add: power_add)
  then have hyp: "2 ^ (226 + 49146) \<le> P * 2 ^ (ka + kb)"
    "2 ^ (225 + 49147) \<le> P * 2 ^ (ka + kb)"
    using assms(3) unfolding huge_powers(3)[symmetric] huge_powers(4)[symmetric] by simp_all
  have K: "49147 \<le> ka + kb"
  proof (rule ccontr)
    assume "\<not> 49147 \<le> ka + kb"
    then have "ka + kb \<le> 49146"
      by simp
    with Pl have lt: "P * 2 ^ (ka + kb) < 2 ^ (226 + 49146)"
      by (rule scaled_less)
    from hyp(1) have "\<not> P * 2 ^ (ka + kb) < 2 ^ (226 + 49146)"
      by (rule leD)
    then show False
      using lt by (rule notE)
  qed
  then have kge: "16382 \<le> ka" "16382 \<le> kb"
    using kle by simp_all
  then have ex: "qp_exp vfa = ka + 1" "qp_exp vfb = kb + 1"
    by (simp_all add: ka_def kb_def)
  then have nz: "qp_exp vfa \<noteq> 0" "qp_exp vfb \<noteq> 0"
    by simp_all
  have Pg: "2 ^ 224 \<le> P"
  proof -
    have "2 ^ 112 * 2 ^ 112 \<le> P"
      unfolding P_def using qp_sig_normal[OF nz(1)] qp_sig_normal[OF nz(2)]
      by (intro mult_mono) simp_all
    then show ?thesis
      by simp
  qed
  have Pc: "2 ^ 225 \<le> P" if "ka + kb = 49147"
    using hyp(2) unfolding that by (rule scaled_cancel)
  have uh: "unat h = P div 2 ^ 112"
    unfolding h_def P_def by (rule product_high)
  have hlo: "2 ^ 112 \<le> unat h" and hhi: "unat h < 2 ^ 114"
    using Pg Pl unfolding uh by (simp_all add: less_eq_div_iff_mult_less_eq less_mult_imp_div_less)
  have hc: "2 ^ 113 \<le> unat h" if "ka + kb = 49147"
    using Pc[OF that] unfolding uh by (simp add: less_eq_div_iff_mult_less_eq)
  define c where "c = (1 < (ucast (drop_bit 112 h) :: 16 word))"
  have c: "c = (2 ^ 113 \<le> unat h)"
    unfolding c_def word_less_nat_alt halfword0_nat
    by (simp add: less_eq_div_iff_mult_less_eq Suc_le_eq[symmetric])
  have em: "unat (emin_lane vfa) = ka + 1" "unat (emin_lane vfb) = kb + 1"
    using ex by (simp_all add: unat_emin_lane)
  have "unat (emin_lane vfa + emin_lane vfb) = ka + kb + 2"
    using kle by (simp add: unat_add_lem[THEN iffD1] em)
  moreover from this have "0x3fff \<le> emin_lane vfa + emin_lane vfb"
    using K by (simp add: word_le_nat_alt)
  ultimately have ue: "unat e = ka + kb - 16381"
    unfolding e_def by (simp add: unat_sub)
  have ue1: "unat (e + 1) = ka + kb - 16380"
    using kle K by (simp add: unat_add_lem[THEN iffD1] ue)
  define e' where "e' = (if c then e + 1 else e)"
  have ue': "32767 \<le> unat e'" "unat e' < 2 ^ 63"
  proof -
    have "ka + kb = 49147 \<or> 49148 \<le> ka + kb"
      using K by auto
    then show "32767 \<le> unat e'"
      using hc c by (auto simp add: e'_def ue ue1)
    show "unat e' < 2 ^ 63"
      using kle by (auto simp add: e'_def ue ue1)
  qed
  have 2: "0x7fff \<le> e'"
    using ue'(1) by (simp add: word_le_nat_alt)
  then have 1: "1 \<le> sint e'"
    unfolding sint_small[OF ue'(2)] by (simp add: word_le_def)
  have "unat (drop_bit 1 h) = unat h div 2"
    by (simp add: unat_db)
  then have "unat (if c then drop_bit 1 h else h) div 2 ^ 112 \<noteq> 0"
    using hlo c by (auto simp add: div_mult2_eq[symmetric] less_eq_div_iff_mult_less_eq
      div_eq_0_iff)
  then have 3: "(ucast (drop_bit 112 (if c then drop_bit 1 h else h)) :: 16 word) \<noteq> 0"
    unfolding word_unat_eq_iff halfword0_nat by simp
  show ?thesis
    using mul_overflow_path[OF assms(1,2) nz] 1 2 3
    unfolding h_def[symmetric] e_def[symmetric] c_def[symmetric] e'_def[symmetric]
    by simp
qed

section \<open>Overflow returns the largest finite magnitude\<close>

lemma qp_max_fields:
  "is_finite (qp_max s)" "qp_exp (qp_max s) = 32766" "qp_frac (qp_max s) = mask 112"
  "qp_sign (qp_max s) = s" "qp_sig (qp_max s) = 2 ^ 113 - 1"
  by (simp_all add: qp_max_def is_finite_def qp_exp_def qp_frac_def qp_sign_def qp_sig_def
      mask_eq_exp_minus_1)

lemma qp_max_mag: "qp_mag (qp_max s) = (2 ^ 113 - 1) * 2 ^ 32765"
proof -
  have "max 1 (32766::nat) - 1 = 32765"
    by simp
  then show ?thesis
    unfolding qp_mag_def qp_max_fields by (rule arg_cong)
qed

lemma prod_scaled: "(a * 2 ^ j) * (b * 2 ^ k) = (a * b) * 2 ^ (j + k)" for a b :: nat
  by (simp add: power_add)

lemma max_sum_huge: "qp_huge \<le> qp_mag (qp_max s) + qp_mag (qp_max t)"
proof -
  have "2 ^ (113 + 32765) \<le> ((2 ^ 113 - 1) + (2 ^ 113 - 1)) * (2::nat) ^ 32765"
    by (rule scaled_ge) simp_all
  then show ?thesis
    unfolding huge_powers(1) qp_max_mag distrib_right .
qed

lemma max_product_huge: "qp_huge * qp_unit \<le> qp_mag (qp_max s) * qp_mag (qp_max t)"
proof -
  have "2 ^ (225 + 49147) \<le> ((2 ^ 113 - 1) * (2 ^ 113 - 1)) * (2::nat) ^ (32765 + 32765)"
    by (rule scaled_ge) simp_all
  then show ?thesis
    unfolding huge_powers(4) qp_max_mag prod_scaled .
qed

lemma huge_positive: "0 < qp_huge"
  unfolding huge_powers(1) by (rule zero_less_power) simp

lemma finite_below_huge: "is_finite q \<Longrightarrow> qp_mag q < qp_huge"
  unfolding huge_powers(1) by (rule qp_mag_less) (simp add: is_finite_def)

lemma add_overflow_value:
  assumes "is_finite vfa" "is_finite vfb" "int qp_huge \<le> \<bar>qp_val vfa + qp_val vfb\<bar>"
  shows "vec_xsaddqpo vfa vfb = qp_max (qp_val vfa + qp_val vfb < 0)"
proof -
  note lt = finite_below_huge[OF assms(1)] finite_below_huge[OF assms(2)]
  have s: "qp_sign vfa = qp_sign vfb"
    using assms(3) lt by (auto simp add: qp_val_def split: if_splits)
  have m: "qp_huge \<le> qp_mag vfa + qp_mag vfb"
    using assms(3) s by (auto simp add: qp_val_def split: if_splits)
  have "(qp_val vfa + qp_val vfb < 0) = qp_sign vfa"
    using m huge_positive s by (auto simp add: qp_val_def)
  then show ?thesis
    using add_overflow_ordered[OF assms(1,2) s m] by simp
qed

text \<open>
  Claim C2.  For two finite operands whose exact sum, respectively product, has a
  magnitude of \<open>2 ^ 16384\<close> or more, so that its exponent is beyond the largest biased
  exponent \<open>0x7ffe\<close>, \<^verbatim>\<open>vec_xsaddqpo\<close> and \<^verbatim>\<open>vec_xsmulqpo\<close> return the largest finite magnitude
  with the sign of the exact result, which for the product is the exclusive or of the
  operand signs.  That result has the biased exponent \<open>0x7ffe\<close> and the fraction of all
  ones: it is finite, not an infinity.  In particular the product of two largest finite
  magnitudes is the largest finite magnitude.
\<close>

theorem overflow_max_finite:
  "(is_finite vfa \<and> is_finite vfb \<and> int qp_huge \<le> \<bar>qp_val vfa + qp_val vfb\<bar> \<longrightarrow>
      vec_xsaddqpo vfa vfb = qp_max (qp_val vfa + qp_val vfb < 0))
   \<and> (is_finite vfa \<and> is_finite vfb \<and> qp_huge * qp_unit \<le> qp_mag vfa * qp_mag vfb \<longrightarrow>
      vec_xsmulqpo vfa vfb = qp_max (qp_sign vfa \<noteq> qp_sign vfb))
   \<and> vec_xsmulqpo (qp_max s) (qp_max t) = qp_max (s \<noteq> t)
   \<and> is_finite (qp_max s) \<and> \<not> is_inf (qp_max s)
   \<and> qp_exp (qp_max s) = 0x7ffe \<and> qp_frac (qp_max s) = mask 112 \<and> qp_sign (qp_max s) = s"
proof -
  have "vec_xsmulqpo (qp_max s) (qp_max t) = qp_max (qp_sign (qp_max s) \<noteq> qp_sign (qp_max t))"
    using qp_max_fields(1) qp_max_fields(1) max_product_huge by (rule mul_overflow)
  then have 1: "vec_xsmulqpo (qp_max s) (qp_max t) = qp_max (s \<noteq> t)"
    unfolding qp_max_fields .
  have 2: "\<not> is_inf (qp_max s)"
    by (simp add: is_inf_def qp_max_fields)
  have 3: "qp_exp (qp_max s) = 0x7ffe"
    by (simp add: qp_max_fields)
  show ?thesis
    using add_overflow_value mul_overflow 1 2 3 qp_max_fields(1,3,4) by blast
qed

theorem overflow_max_finite_witness:
  "is_finite 0x7ffeffffffffffffffffffffffffffff
   \<and> is_finite 0xfffeffffffffffffffffffffffffffff
   \<and> int qp_huge \<le> \<bar>qp_val 0xfffeffffffffffffffffffffffffffff
                        + qp_val 0xfffeffffffffffffffffffffffffffff\<bar>
   \<and> vec_xsaddqpo 0xfffeffffffffffffffffffffffffffff 0xfffeffffffffffffffffffffffffffff
       = 0xfffeffffffffffffffffffffffffffff
   \<and> qp_huge * qp_unit \<le> qp_mag 0x7ffeffffffffffffffffffffffffffff
                              * qp_mag 0xfffeffffffffffffffffffffffffffff
   \<and> vec_xsmulqpo 0x7ffeffffffffffffffffffffffffffff 0xfffeffffffffffffffffffffffffffff
       = 0xfffeffffffffffffffffffffffffffff"
proof -
  have f: "is_finite (qp_max False)" "is_finite (qp_max True)"
    by (rule qp_max_fields)+
  have m: "qp_huge \<le> qp_mag (qp_max True) + qp_mag (qp_max True)"
    by (rule max_sum_huge)
  then have h1: "int qp_huge \<le> \<bar>qp_val (qp_max True) + qp_val (qp_max True)\<bar>"
    by (simp add: qp_val_def qp_max_fields)
  have n: "qp_val (qp_max True) + qp_val (qp_max True) < 0"
    using m huge_positive by (simp add: qp_val_def qp_max_fields)
  have h2: "qp_huge * qp_unit \<le> qp_mag (qp_max False) * qp_mag (qp_max True)"
    by (rule max_product_huge)
  have "vec_xsaddqpo (qp_max True) (qp_max True)
      = qp_max (qp_val (qp_max True) + qp_val (qp_max True) < 0)"
    using overflow_max_finite[of "qp_max True" "qp_max True"] f h1 by blast
  then have r1: "vec_xsaddqpo (qp_max True) (qp_max True) = qp_max True"
    using n by simp
  have "vec_xsmulqpo (qp_max False) (qp_max True)
      = qp_max (qp_sign (qp_max False) \<noteq> qp_sign (qp_max True))"
    using overflow_max_finite[of "qp_max False" "qp_max True"] f h2 by blast
  then have r2: "vec_xsmulqpo (qp_max False) (qp_max True) = qp_max True"
    unfolding qp_max_fields by simp
  show ?thesis
    using f h1 h2 r1 r2 unfolding qp_max_def if_True if_False by blast
qed

section \<open>The final rounding step of add, subtract and multiply\<close>

lemma add_rounding:
  assumes "is_finite vfa" "is_finite vfb" "addqpo_s_sig vfa vfb \<noteq> 0"
    "addqpo_unrounded vfa vfb = (s_sig, q_exp, q_sign)"
    "\<not> vec_cmpud_all_ge q_exp vec_mask64_f128exp"
  shows "vec_xsaddqpo vfa vfb =
    vec_xsiexpqp ((if take_bit 3 s_sig \<noteq> 0 then drop_bit 3 s_sig OR 1 else drop_bit 3 s_sig)
      OR q_sign) q_exp"
  using assms
  unfolding vec_xsaddqpo_def addqpo_finite_def addqpo_unrounded_def addqpo_s_sig_def Let_def
    finite_branch
  by (auto simp add: split_def round_odd_grx_eq vec_cmpuq_all_eq_def const_masks vec_or_def)

lemma sub_rounding:
  assumes "is_finite vfa" "is_finite vfb" "subqpo_s_sig vfa vfb \<noteq> 0"
    "subqpo_unrounded vfa vfb = (s_sig, q_exp, q_sign)"
    "\<not> vec_cmpud_all_ge q_exp vec_mask64_f128exp"
  shows "vec_xssubqpo vfa vfb =
    vec_xsiexpqp ((if take_bit 3 s_sig \<noteq> 0 then drop_bit 3 s_sig OR 1 else drop_bit 3 s_sig)
      OR q_sign) q_exp"
  using assms
  unfolding vec_xssubqpo_def addqpo_finite_def subqpo_unrounded_def subqpo_s_sig_def Let_def
    finite_branch
  by (auto simp add: split_def round_odd_grx_eq vec_cmpuq_all_eq_def const_masks vec_or_def)

lemma all_eq_zero32: "vec_all_eq (vui32 x) (vui32 0) = (x = 0)"
proof
  assume "vec_all_eq (vui32 x) (vui32 0)"
  then have z: "(ucast (drop_bit 96 x) :: 32 word) = 0" "(ucast (drop_bit 64 x) :: 32 word) = 0"
    "(ucast (drop_bit 32 x) :: 32 word) = 0" "(ucast x :: 32 word) = 0"
    by (simp_all add: vec_all_eq_def vui32_def)
  have "\<not> bit x n" for n
  proof
    assume b: "bit x n"
    then have n: "n < 128"
      using bit_imp_le_length[of x n] by simp
    have "bit (ucast (drop_bit 96 x) :: 32 word) (n - 96)" if "96 \<le> n"
      using b that n by (simp add: bit_simps)
    moreover have "bit (ucast (drop_bit 64 x) :: 32 word) (n - 64)" if "64 \<le> n" "n < 96"
      using b that by (simp add: bit_simps)
    moreover have "bit (ucast (drop_bit 32 x) :: 32 word) (n - 32)" if "32 \<le> n" "n < 64"
      using b that by (simp add: bit_simps)
    moreover have "bit (ucast x :: 32 word) n" if "n < 32"
      using b that by (simp add: bit_simps)
    ultimately show False
      unfolding z by (cases "n < 32"; cases "n < 64"; cases "n < 96") simp_all
  qed
  then show "x = 0"
    by (intro bit_word_eqI) simp
next
  assume "x = 0"
  then show "vec_all_eq (vui32 x) (vui32 0)"
    by (simp add: vec_all_eq_def vui32_def)
qed

lemma sig_word_zero: "(sig_word q = 0) = is_zero q"
proof
  assume "is_zero q"
  then show "sig_word q = 0"
    by (rule zero_sig_word)
next
  assume z: "sig_word q = 0"
  then have "qp_sig q = 0"
    using unat_sig_word[of q] by simp
  then show "is_zero q"
    by (auto simp add: qp_sig_def is_zero_def unat_eq_0 split: if_splits)
qed

lemma shifted_sig_zero: "(push_bit 8 (sig_word q) = 0) = is_zero q"
proof -
  have "(unat (push_bit 8 (sig_word q)) = 0) = (qp_sig q = 0)"
    unfolding unat_sig8 by simp
  then show ?thesis
    unfolding sig_word_zero[symmetric] unat_eq_0 using unat_sig_word[of q]
    by (metis unat_eq_0)
qed

lemma mul_rounding:
  assumes "is_finite vfa" "is_finite vfb" "\<not> is_zero vfa" "\<not> is_zero vfb"
    "mulqpo_unrounded vfa vfb = (q_sig, p_sig_l, q_exp, q_sign)"
    "\<not> vec_cmpud_all_ge q_exp vec_mask64_f128exp"
  shows "vec_xsmulqpo vfa vfb =
    vec_sel ((if p_sig_l \<noteq> 0 then q_sig OR 1 else q_sig) OR q_sign)
      (vec_sld (vui128_of_dw q_exp) q_zero 14)
      (vec_sld (vui128_of_dw vec_mask64_f128exp) q_zero 14)"
proof -
  have nz: "\<not> vec_all_eq (vui32 (push_bit 8 (sig_word vfa))) (vui32 0)"
    "\<not> vec_all_eq (vui32 (push_bit 8 (sig_word vfb))) (vui32 0)"
    using assms(3,4) by (simp_all add: all_eq_zero32 shifted_sig_zero)
  show ?thesis
    using assms(1,2,5,6) nz
    unfolding vec_xsmulqpo_def mulqpo_finite_def mulqpo_unrounded_def Let_def finite_branch
    by (auto simp add: split_def round_odd_low_eq const_masks vec_or_def vec_and_def
        mulqpo_operands_eq)
qed

lemma addqpo_unrounded_eq:
  "addqpo_unrounded vfa vfb =
     (let sw = take_bit 127 vfa < take_bit 127 vfb;
          l = (if sw then vfb else vfa);
          (s_sig, q_exp) = addqpo_normalize (addqpo_s_sig vfa vfb) (emin_lane l, emin_lane l)
      in (s_sig, q_exp, l AND NOT (mask 127)))"
  unfolding addqpo_unrounded_def addqpo_s_sig_eq
  unfolding Let_def xxxexpqpp_lanes take_bit_eq_mask[symmetric] const_masks vec_and_def
    vec_andc_def addqpo_operands_lanes setb_sq_xor
  by (simp add: split_def)

lemma neg_sign_part: "(q XOR bit_at 127) AND bit_at 127 = bit_at 127 XOR (q AND bit_at 127)"
  by (rule bit_word_eqI) (auto simp add: bit_simps bit_bit_at)

lemma sub_unrounded_neg:
  "subqpo_unrounded vfa vfb = addqpo_unrounded vfa (vfb XOR bit_at 127)"
  "subqpo_s_sig vfa vfb = addqpo_s_sig vfa (vfb XOR bit_at 127)"
  unfolding subqpo_unrounded_def subqpo_s_sig_def addqpo_unrounded_def addqpo_s_sig_def Let_def
    const_masks vec_and_def vec_andc_def vec_nor_def vec_xor_def or.idem signmask_bit_at
  by (simp_all add: neg_sign_part neg_operand_parts)

subsection \<open>A sum, a difference and a product that are not exact\<close>

text \<open>The sum of \<open>1\<close> and \<open>2 ^ - 113\<close>: the guard bit of the intermediate significand is
  set, and no normalization is needed.\<close>

lemma normalize_in_range:
  "addqpo_normalize 0x80000000000000000000000000004 (0x3fff, 0x3fff)
    = (0x80000000000000000000000000004, (0x3fff, 0x3fff))"
  by (simp add: addqpo_normalize_def Let_def vui8_def vec_splat_def vec_splat_u8_def
      vec_all_gt_def vec_all_le_def)

lemma inexact_sum:
  "addqpo_s_sig 0x3fff0000000000000000000000000000 0x3f8e0000000000000000000000000000
    = 0x80000000000000000000000000004"
  "addqpo_unrounded 0x3fff0000000000000000000000000000 0x3f8e0000000000000000000000000000
     = (0x80000000000000000000000000004, (0x3fff, 0x3fff), 0)"
proof -
  show s: "addqpo_s_sig 0x3fff0000000000000000000000000000 0x3f8e0000000000000000000000000000
    = 0x80000000000000000000000000004"
    by (simp add: addqpo_s_sig_eq Let_def sig_word_def emin_lane_def exp_lane_def qp_frac_def
      qp_sign_def addqpo_sum_def addqpo_align_def vec_cmpud_all_lt_def vec_const64_f128_128_def
      CONST_VINT64_DW_def vec_subudm_def vec_cmpltud_def vec_srq_def vec_slq_def dw_shift_count
      vec_sel_def const_masks dw_of_masks vec_or_def addcuq_ones vec_adduqm_def vec_subuqm_def)
  show "addqpo_unrounded 0x3fff0000000000000000000000000000 0x3f8e0000000000000000000000000000
     = (0x80000000000000000000000000004, (0x3fff, 0x3fff), 0)"
    unfolding addqpo_unrounded_eq s
    by (simp add: Let_def emin_lane_def exp_lane_def normalize_in_range andc_magmask qp_sign_def)
qed

text \<open>The difference of \<open>- 1\<close> and \<open>2 ^ - 113\<close>.\<close>

lemma inexact_difference:
  "subqpo_s_sig 0xbfff0000000000000000000000000000 0x3f8e0000000000000000000000000000
     = 0x80000000000000000000000000004"
  "subqpo_unrounded 0xbfff0000000000000000000000000000 0x3f8e0000000000000000000000000000
     = (0x80000000000000000000000000004, (0x3fff, 0x3fff), 0x80000000000000000000000000000000)"
proof -
  have n: "(0x3f8e0000000000000000000000000000 :: 128 word) XOR bit_at 127
      = 0xbf8e0000000000000000000000000000"
    by (simp add: bit_at_def)
  have s: "addqpo_s_sig 0xbfff0000000000000000000000000000 0xbf8e0000000000000000000000000000
     = 0x80000000000000000000000000004"
    by (simp add: addqpo_s_sig_eq Let_def sig_word_def emin_lane_def exp_lane_def qp_frac_def
      qp_sign_def addqpo_sum_def addqpo_align_def vec_cmpud_all_lt_def vec_const64_f128_128_def
      CONST_VINT64_DW_def vec_subudm_def vec_cmpltud_def vec_srq_def vec_slq_def dw_shift_count
      vec_sel_def const_masks dw_of_masks vec_or_def addcuq_ones vec_adduqm_def vec_subuqm_def)
  have u: "addqpo_unrounded 0xbfff0000000000000000000000000000 0xbf8e0000000000000000000000000000
     = (0x80000000000000000000000000004, (0x3fff, 0x3fff), 0x80000000000000000000000000000000)"
    unfolding addqpo_unrounded_eq s
    by (simp add: Let_def emin_lane_def exp_lane_def normalize_in_range andc_magmask qp_sign_def
        bit_at_def)
  show "subqpo_s_sig 0xbfff0000000000000000000000000000 0x3f8e0000000000000000000000000000
     = 0x80000000000000000000000000004"
    unfolding sub_unrounded_neg n by (rule s)
  show "subqpo_unrounded 0xbfff0000000000000000000000000000 0x3f8e0000000000000000000000000000
     = (0x80000000000000000000000000004, (0x3fff, 0x3fff), 0x80000000000000000000000000000000)"
    unfolding sub_unrounded_neg n by (rule u)
qed

text \<open>The square of \<open>1 + 2 ^ - 112\<close>: the low quadword of the product is not zero.\<close>

lemma inexact_product:
  "mulqpo_unrounded 0x3fff0000000000000000000000000001 0x3fff0000000000000000000000000001
     = (0x10000000000000000000000000002, 0x10000, (0x3fff, 0x3fff), 0)"
proof -
  have 1: "sig_word 0x3fff0000000000000000000000000001 = 0x10000000000000000000000000001"
    "emin_lane 0x3fff0000000000000000000000000001 = 0x3fff"
    by (simp_all add: sig_word_def emin_lane_def exp_lane_def qp_frac_def)
  have 2: "1 \<le> sint (0x3fff :: 64 word)"
    by simp
  have 3: "(ucast (drop_bit 112 (0x10000000000000000000000000002 :: 128 word)) :: 16 word) \<noteq> 0"
    by simp
  show ?thesis
    unfolding mulqpo_unrounded_def Let_def const_masks vec_and_def vec_andc_def xxxexpqpp_lanes
      mulqpo_operands_eq mulqpo_exp_eq 1
    by (simp add: vec_muludq_def mulqpo_carry_eq mulqpo_tiny_skip[OF 2] mulqpo_denorm_skip[OF 3]
        vec_xor_def)
qed

text \<open>
  Claim C1.  The final rounding step of \<^verbatim>\<open>vec_xsaddqpo\<close>, \<^verbatim>\<open>vec_xssubqpo\<close> and \<^verbatim>\<open>vec_xsmulqpo\<close>.
  For two finite operands whose combined significand is not zero and whose exponent
  does not overflow, the result of add and of subtract is the intermediate result with
  its significand truncated by the three guard, round and sticky bits, and with the
  least-significant bit of the truncated significand set by a logical OR when any of
  the three bits is nonzero; it is the truncated significand unchanged otherwise.  For
  two finite nonzero operands the result of multiply is the high quadword of the
  intermediate product with its least-significant bit set by a logical OR when any bit
  of the low quadword is nonzero, and unchanged otherwise.  The exponent and the sign
  are those of the intermediate result.  The rounded significand lies between the
  truncated one and the truncated one with its least-significant bit set, and every
  bit above the least-significant one is the bit of the truncated significand: the
  magnitude is never incremented and no carry is produced.
\<close>

theorem round_to_odd_step:
  "(is_finite vfa \<and> is_finite vfb \<and> addqpo_s_sig vfa vfb \<noteq> 0 \<longrightarrow>
      (case addqpo_unrounded vfa vfb of (s_sig, q_exp, q_sign) \<Rightarrow>
         \<not> vec_cmpud_all_ge q_exp vec_mask64_f128exp \<longrightarrow>
         vec_xsaddqpo vfa vfb =
           vec_xsiexpqp ((if take_bit 3 s_sig \<noteq> 0 then drop_bit 3 s_sig OR 1
                          else drop_bit 3 s_sig) OR q_sign) q_exp))
   \<and> (is_finite vfa \<and> is_finite vfb \<and> subqpo_s_sig vfa vfb \<noteq> 0 \<longrightarrow>
      (case subqpo_unrounded vfa vfb of (s_sig, q_exp, q_sign) \<Rightarrow>
         \<not> vec_cmpud_all_ge q_exp vec_mask64_f128exp \<longrightarrow>
         vec_xssubqpo vfa vfb =
           vec_xsiexpqp ((if take_bit 3 s_sig \<noteq> 0 then drop_bit 3 s_sig OR 1
                          else drop_bit 3 s_sig) OR q_sign) q_exp))
   \<and> (is_finite vfa \<and> is_finite vfb \<and> \<not> is_zero vfa \<and> \<not> is_zero vfb \<longrightarrow>
      (case mulqpo_unrounded vfa vfb of (q_sig, p_sig_l, q_exp, q_sign) \<Rightarrow>
         \<not> vec_cmpud_all_ge q_exp vec_mask64_f128exp \<longrightarrow>
         vec_xsmulqpo vfa vfb =
           vec_sel ((if p_sig_l \<noteq> 0 then q_sig OR 1 else q_sig) OR q_sign)
             (vec_sld (vui128_of_dw q_exp) q_zero 14)
             (vec_sld (vui128_of_dw vec_mask64_f128exp) q_zero 14)))
   \<and> round_odd_grx s = (if take_bit 3 s \<noteq> 0 then drop_bit 3 s OR 1 else drop_bit 3 s)
   \<and> round_odd_low q p = (if p \<noteq> 0 then q OR 1 else q)
   \<and> drop_bit 3 s \<le> round_odd_grx s
   \<and> round_odd_grx s \<le> drop_bit 3 s OR 1
   \<and> drop_bit 1 (round_odd_grx s) = drop_bit 1 (drop_bit 3 s)
   \<and> q \<le> round_odd_low q p
   \<and> round_odd_low q p \<le> q OR 1
   \<and> drop_bit 1 (round_odd_low q p) = drop_bit 1 q"
proof -
  have A: "is_finite vfa \<and> is_finite vfb \<and> addqpo_s_sig vfa vfb \<noteq> 0 \<longrightarrow>
      (case addqpo_unrounded vfa vfb of (s_sig, q_exp, q_sign) \<Rightarrow>
         \<not> vec_cmpud_all_ge q_exp vec_mask64_f128exp \<longrightarrow>
         vec_xsaddqpo vfa vfb =
           vec_xsiexpqp ((if take_bit 3 s_sig \<noteq> 0 then drop_bit 3 s_sig OR 1
                          else drop_bit 3 s_sig) OR q_sign) q_exp)"
    using add_rounding[of vfa vfb] by (auto split: prod.splits)
  have S: "is_finite vfa \<and> is_finite vfb \<and> subqpo_s_sig vfa vfb \<noteq> 0 \<longrightarrow>
      (case subqpo_unrounded vfa vfb of (s_sig, q_exp, q_sign) \<Rightarrow>
         \<not> vec_cmpud_all_ge q_exp vec_mask64_f128exp \<longrightarrow>
         vec_xssubqpo vfa vfb =
           vec_xsiexpqp ((if take_bit 3 s_sig \<noteq> 0 then drop_bit 3 s_sig OR 1
                          else drop_bit 3 s_sig) OR q_sign) q_exp)"
    using sub_rounding[of vfa vfb] by (auto split: prod.splits)
  have M: "is_finite vfa \<and> is_finite vfb \<and> \<not> is_zero vfa \<and> \<not> is_zero vfb \<longrightarrow>
      (case mulqpo_unrounded vfa vfb of (q_sig, p_sig_l, q_exp, q_sign) \<Rightarrow>
         \<not> vec_cmpud_all_ge q_exp vec_mask64_f128exp \<longrightarrow>
         vec_xsmulqpo vfa vfb =
           vec_sel ((if p_sig_l \<noteq> 0 then q_sig OR 1 else q_sig) OR q_sign)
             (vec_sld (vui128_of_dw q_exp) q_zero 14)
             (vec_sld (vui128_of_dw vec_mask64_f128exp) q_zero 14))"
    using mul_rounding[of vfa vfb] by (auto split: prod.splits)
  have R: "round_odd_grx s = (if take_bit 3 s \<noteq> 0 then drop_bit 3 s OR 1 else drop_bit 3 s)
   \<and> round_odd_low q p = (if p \<noteq> 0 then q OR 1 else q)
   \<and> drop_bit 3 s \<le> round_odd_grx s
   \<and> round_odd_grx s \<le> drop_bit 3 s OR 1
   \<and> drop_bit 1 (round_odd_grx s) = drop_bit 1 (drop_bit 3 s)
   \<and> q \<le> round_odd_low q p
   \<and> round_odd_low q p \<le> q OR 1
   \<and> drop_bit 1 (round_odd_low q p) = drop_bit 1 q"
    by (simp add: round_odd_grx_eq round_odd_low_eq drop_lsb_or_one le_word_or2)
  from A S M R show ?thesis
    by (intro conjI) blast+
qed

theorem round_to_odd_step_witness:
  "is_finite 0x3fff0000000000000000000000000000
   \<and> is_finite 0x3f8e0000000000000000000000000000
   \<and> addqpo_s_sig 0x3fff0000000000000000000000000000 0x3f8e0000000000000000000000000000
       = 0x80000000000000000000000000004
   \<and> addqpo_unrounded 0x3fff0000000000000000000000000000 0x3f8e0000000000000000000000000000
       = (0x80000000000000000000000000004, (0x3fff, 0x3fff), 0)
   \<and> vec_xsaddqpo 0x3fff0000000000000000000000000000 0x3f8e0000000000000000000000000000
       = 0x3fff0000000000000000000000000001
   \<and> is_finite 0xbfff0000000000000000000000000000
   \<and> subqpo_s_sig 0xbfff0000000000000000000000000000 0x3f8e0000000000000000000000000000
       = 0x80000000000000000000000000004
   \<and> subqpo_unrounded 0xbfff0000000000000000000000000000 0x3f8e0000000000000000000000000000
       = (0x80000000000000000000000000004, (0x3fff, 0x3fff), 0x80000000000000000000000000000000)
   \<and> vec_xssubqpo 0xbfff0000000000000000000000000000 0x3f8e0000000000000000000000000000
       = 0xbfff0000000000000000000000000001
   \<and> is_finite 0x3fff0000000000000000000000000001
   \<and> mulqpo_unrounded 0x3fff0000000000000000000000000001 0x3fff0000000000000000000000000001
       = (0x10000000000000000000000000002, 0x10000, (0x3fff, 0x3fff), 0)
   \<and> vec_xsmulqpo 0x3fff0000000000000000000000000001 0x3fff0000000000000000000000000001
       = 0x3fff0000000000000000000000000003"
proof -
  have f: "is_finite 0x3fff0000000000000000000000000000"
    "is_finite 0x3f8e0000000000000000000000000000"
    "is_finite 0xbfff0000000000000000000000000000"
    "is_finite 0x3fff0000000000000000000000000001"
    "\<not> is_zero 0x3fff0000000000000000000000000001"
    by (simp_all add: is_finite_def is_zero_def qp_exp_def qp_frac_def)
  have o: "\<not> vec_cmpud_all_ge (0x3fff, 0x3fff) vec_mask64_f128exp"
    by (simp add: vec_cmpud_all_ge_def mask64_exp)
  have nz: "(0x80000000000000000000000000004 :: 128 word) \<noteq> 0"
    by simp
  have p: "vec_xsiexpqp x (0x3fff, 0x3fff)
      = (x AND NOT (push_bit 112 (mask 15))) OR 0x3fff0000000000000000000000000000" for x
    unfolding vec_xsiexpqp_def Let_def const_masks vec_sel_def vec_sld_def vui128_of_dw_def
    by (simp add: mask_eq_exp_minus_1)
  have a: "vec_xsaddqpo 0x3fff0000000000000000000000000000 0x3f8e0000000000000000000000000000
      = 0x3fff0000000000000000000000000001"
    using round_to_odd_step[of "0x3fff0000000000000000000000000000"
        "0x3f8e0000000000000000000000000000"] f o nz
    unfolding inexact_sum by (simp add: p mask_eq_exp_minus_1)
  have s: "vec_xssubqpo 0xbfff0000000000000000000000000000 0x3f8e0000000000000000000000000000
      = 0xbfff0000000000000000000000000001"
    using round_to_odd_step[of "0xbfff0000000000000000000000000000"
        "0x3f8e0000000000000000000000000000"] f o nz
    unfolding inexact_difference by (simp add: p mask_eq_exp_minus_1)
  have m: "vec_xsmulqpo 0x3fff0000000000000000000000000001 0x3fff0000000000000000000000000001
      = 0x3fff0000000000000000000000000003"
    using round_to_odd_step[of "0x3fff0000000000000000000000000001"
        "0x3fff0000000000000000000000000001"] f o
    unfolding inexact_product
    by (simp add: vec_sel_def vec_sld_def vui128_of_dw_def mask64_exp const_masks)
  show ?thesis
    using f a s m inexact_sum inexact_difference inexact_product by simp
qed

end
